(* ===== verification/Prelude.thy ===== *)
theory Prelude
  imports Main "HOL-Library.State_Monad"
begin

text \<open>
  What every component of the development shares.

  The Go code is a collection of handlers that run statements against external services and
  look at the error of each. A handler is modelled in the library's state monad: its type is
  \<open>('s, go_error + 'a) state\<close>, the state \<open>'s\<close> holding what the service owns and what it talks
  to, and the sum holding Go's \<open>(value, error)\<close> pair. This theory has the small vocabulary for
  that (reading and writing a field, \<open>preserves\<close> for invariants) and the generic facts about
  lists and sums that the components use.

  The collections: \<open>preserves_intros\<close> holds one rule per way of building a computation and one
  lemma per operation, so that an invariant of a handler is proved by applying them until
  nothing is left; \<open>run_simps\<close> holds the equations that evaluate an operation on a state.
\<close>

named_theorems preserves_intros "rules that show a computation keeps a predicate on states"
named_theorems run_simps "equations that evaluate a computation on a state"

section \<open>Computations\<close>

abbreviation ret :: "'a \<Rightarrow> ('s, 'a) state" where
  "ret \<equiv> State_Monad.return"

definition gets :: "('s \<Rightarrow> 'a) \<Rightarrow> ('s, 'a) state" where
  "gets f = State (\<lambda>s. (f s, s))"

definition modify :: "('s \<Rightarrow> 's) \<Rightarrow> ('s, unit) state" where
  "modify f = State (\<lambda>s. ((), f s))"

lemma run_gets [simp]: "run_state (gets f) s = (f s, s)"
  by (simp add: gets_def)

lemma run_modify [simp]: "run_state (modify f) s = ((), f s)"
  by (simp add: modify_def)

text \<open>
  \<open>preserves I m\<close>: whatever \<open>m\<close> returns, an error included, it leaves a state with \<open>I\<close> when it
  starts in one. \<open>keeps f m\<close> is the frame property that \<open>m\<close> never changes what \<open>f\<close> reads.
\<close>

definition preserves :: "('s \<Rightarrow> bool) \<Rightarrow> ('s, 'a) state \<Rightarrow> bool" where
  "preserves I m \<longleftrightarrow> (\<forall>s. I s \<longrightarrow> I (snd (run_state m s)))"

definition keeps :: "('s \<Rightarrow> 'b) \<Rightarrow> ('s, 'a) state \<Rightarrow> bool" where
  "keeps f m \<longleftrightarrow> (\<forall>s. f (snd (run_state m s)) = f s)"

lemma preservesI: "(\<And>s. I s \<Longrightarrow> I (snd (run_state m s))) \<Longrightarrow> preserves I m"
  by (simp add: preserves_def)

lemma preservesD: "preserves I m \<Longrightarrow> run_state m s = (r, s') \<Longrightarrow> I s \<Longrightarrow> I s'"
  by (auto simp: preserves_def dest: spec [of _ s])

lemma keepsI: "(\<And>s. f (snd (run_state m s)) = f s) \<Longrightarrow> keeps f m"
  by (simp add: keeps_def)

lemma keepsD: "keeps f m \<Longrightarrow> run_state m s = (r, s') \<Longrightarrow> f s' = f s"
  by (auto simp: keeps_def dest: spec [of _ s])

lemma keeps_preserves: "keeps f m \<Longrightarrow> preserves (\<lambda>s. P (f s)) m"
  by (simp add: keeps_def preserves_def)

lemma preserves_return [preserves_intros]: "preserves I (ret x)"
  by (simp add: preserves_def)

lemma preserves_gets [preserves_intros]: "preserves I (gets f)"
  by (simp add: preserves_def)

lemma preserves_modify: "(\<And>s. I s \<Longrightarrow> I (f s)) \<Longrightarrow> preserves I (modify f)"
  by (simp add: preserves_def)

lemma preserves_bind [preserves_intros]:
  "preserves I m \<Longrightarrow> (\<And>x. preserves I (k x)) \<Longrightarrow> preserves I (State_Monad.bind m k)"
  by (auto simp: preserves_def split: prod.split)

lemma keeps_return [preserves_intros]: "keeps f (ret x)"
  by (simp add: keeps_def)

lemma keeps_gets [preserves_intros]: "keeps f (gets g)"
  by (simp add: keeps_def)

lemma keeps_modify: "(\<And>s. f (g s) = f s) \<Longrightarrow> keeps f (modify g)"
  by (simp add: keeps_def)

lemma keeps_bind [preserves_intros]:
  "keeps f m \<Longrightarrow> (\<And>x. keeps f (k x)) \<Longrightarrow> keeps f (State_Monad.bind m k)"
  by (auto simp: keeps_def split: prod.split) (metis snd_conv)

text \<open>
  A triple says what a computation returns and where it ends, from every state with the
  precondition.
\<close>

definition triple :: "('s \<Rightarrow> bool) \<Rightarrow> ('s, 'a) state \<Rightarrow> ('a \<Rightarrow> 's \<Rightarrow> bool) \<Rightarrow> bool" where
  "triple I m Q \<longleftrightarrow> (\<forall>s. I s \<longrightarrow> (case run_state m s of (r, s') \<Rightarrow> Q r s'))"

lemma tripleI: "(\<And>s r s'. I s \<Longrightarrow> run_state m s = (r, s') \<Longrightarrow> Q r s') \<Longrightarrow> triple I m Q"
  by (auto simp: triple_def)

lemma tripleD: "triple I m Q \<Longrightarrow> run_state m s = (r, s') \<Longrightarrow> I s \<Longrightarrow> Q r s'"
  by (auto simp: triple_def)

lemma triple_bind:
  "triple I m R \<Longrightarrow> (\<And>x. triple (R x) (k x) Q) \<Longrightarrow> triple I (State_Monad.bind m k) Q"
  by (fastforce simp: triple_def split: prod.splits)

lemma triple_return: "(\<And>s. I s \<Longrightarrow> Q x s) \<Longrightarrow> triple I (ret x) Q"
  by (simp add: triple_def)

lemma triple_weaken:
  "triple I m Q \<Longrightarrow> (\<And>s. J s \<Longrightarrow> I s) \<Longrightarrow> (\<And>r s. Q r s \<Longrightarrow> R r s) \<Longrightarrow> triple J m R"
  by (fastforce simp: triple_def)

lemma triple_preserves: "triple I m (\<lambda>_. I) \<longleftrightarrow> preserves I m"
  by (simp add: triple_def preserves_def case_prod_unfold)

text \<open>Branches of a handler: a conditional, an error check, an optional value.\<close>

lemma preserves_if [preserves_intros]:
  "(b \<Longrightarrow> preserves I m) \<Longrightarrow> (\<not> b \<Longrightarrow> preserves I n) \<Longrightarrow> preserves I (if b then m else n)"
  by simp

lemma preserves_case_sum [preserves_intros]:
  "(\<And>e. preserves I (f e)) \<Longrightarrow> (\<And>x. preserves I (g x)) \<Longrightarrow>
   preserves I (case r of Inl e \<Rightarrow> f e | Inr x \<Rightarrow> g x)"
  by (simp split: sum.split)

lemma preserves_case_option [preserves_intros]:
  "preserves I m \<Longrightarrow> (\<And>x. preserves I (g x)) \<Longrightarrow>
   preserves I (case r of None \<Rightarrow> m | Some x \<Rightarrow> g x)"
  by (simp split: option.split)

lemma preserves_case_prod [preserves_intros]:
  "(\<And>x y. preserves I (g x y)) \<Longrightarrow> preserves I (case p of (x, y) \<Rightarrow> g x y)"
  by (simp split: prod.split)

lemma preserves_let [preserves_intros]:
  "(\<And>x. preserves I (g x)) \<Longrightarrow> preserves I (let x = a in g x)"
  by simp

lemma keeps_if [preserves_intros]:
  "(b \<Longrightarrow> keeps f m) \<Longrightarrow> (\<not> b \<Longrightarrow> keeps f n) \<Longrightarrow> keeps f (if b then m else n)"
  by simp

lemma keeps_case_sum [preserves_intros]:
  "(\<And>e. keeps f (h e)) \<Longrightarrow> (\<And>x. keeps f (g x)) \<Longrightarrow>
   keeps f (case r of Inl e \<Rightarrow> h e | Inr x \<Rightarrow> g x)"
  by (simp split: sum.split)

lemma keeps_case_option [preserves_intros]:
  "keeps f m \<Longrightarrow> (\<And>x. keeps f (g x)) \<Longrightarrow>
   keeps f (case r of None \<Rightarrow> m | Some x \<Rightarrow> g x)"
  by (simp split: option.split)

lemma keeps_case_prod [preserves_intros]:
  "(\<And>x y. keeps f (g x y)) \<Longrightarrow> keeps f (case p of (x, y) \<Rightarrow> g x y)"
  by (simp split: prod.split)

lemma keeps_let [preserves_intros]:
  "(\<And>x. keeps f (g x)) \<Longrightarrow> keeps f (let x = a in g x)"
  by simp

text \<open>Inverting a sequence: what a run of \<open>m\<close> then \<open>k\<close> went through.\<close>

lemma run_bindE:
  assumes "run_state (State_Monad.bind m k) s = (r, s')"
  obtains x s1 where "run_state m s = (x, s1)" and "run_state (k x) s1 = (r, s')"
  using assms by (auto split: prod.splits)

text \<open>A loop over a list that calls a computation for each element and ignores its value.\<close>

fun for_each :: "('a \<Rightarrow> ('s, unit) state) \<Rightarrow> 'a list \<Rightarrow> ('s, unit) state" where
  "for_each f [] = ret ()"
| "for_each f (x # xs) = do { f x; for_each f xs }"

lemma preserves_for_each [preserves_intros]:
  "(\<And>x. preserves I (f x)) \<Longrightarrow> preserves I (for_each f xs)"
  by (induction xs) (auto intro!: preserves_intros)

lemma keeps_for_each [preserves_intros]:
  "(\<And>x. keeps g (f x)) \<Longrightarrow> keeps g (for_each f xs)"
  by (induction xs) (auto intro!: preserves_intros)

text \<open>A call whose result nobody looks at.\<close>

definition no_result :: "('s, 'a) state \<Rightarrow> ('s, unit) state" where
  "no_result m = do { _ \<leftarrow> m; ret () }"

section \<open>Results\<close>

text \<open>Go's \<open>if err != nil { return err }\<close> between two steps without effects.\<close>

definition sum_bind :: "'e + 'a \<Rightarrow> ('a \<Rightarrow> 'e + 'b) \<Rightarrow> 'e + 'b" where
  "sum_bind r k = (case r of Inl e \<Rightarrow> Inl e | Inr x \<Rightarrow> k x)"

lemma sum_bind_simps [simp]:
  "sum_bind (Inl e) k = Inl e" "sum_bind (Inr x) k = k x"
  by (simp_all add: sum_bind_def)

section \<open>Lists, options and maps\<close>

lemma find_filter_hd: "find P xs = (case filter P xs of [] \<Rightarrow> None | x # _ \<Rightarrow> Some x)"
  by (induction xs) auto

lemma find_SomeD: "find P xs = Some x \<Longrightarrow> x \<in> set xs \<and> P x"
  by (induction xs) (auto split: if_splits)

lemma find_None_all: "find P xs = None \<Longrightarrow> x \<in> set xs \<Longrightarrow> \<not> P x"
  by (simp add: find_None_iff)

lemma distinct_map_filter: "distinct (map f xs) \<Longrightarrow> distinct (map f (filter P xs))"
  by (induction xs) auto

lemma distinct_map_key_eq:
  "distinct (map f xs) \<Longrightarrow> x \<in> set xs \<Longrightarrow> y \<in> set xs \<Longrightarrow> f x = f y \<Longrightarrow> x = y"
  by (simp add: distinct_map inj_on_def)

lemma distinct_map_update:
  "(\<And>x. f (g x) = f x) \<Longrightarrow> distinct (map f (map g xs)) = distinct (map f xs)"
  by (induction xs) (auto simp: image_iff)

lemma filter_single_key:
  "distinct (map f xs) \<Longrightarrow> x \<in> set xs \<Longrightarrow> filter (\<lambda>y. f y = f x) xs = [x]"
proof (induction xs)
  case Nil
  then show ?case by simp
next
  case (Cons a xs)
  show ?case
  proof (cases "a = x")
    case True
    have "filter (\<lambda>y. f y = f x) xs = []"
      using Cons.prems True by (auto simp: filter_empty_conv) (metis image_eqI)
    with True show ?thesis by simp
  next
    case False
    then have "x \<in> set xs" using Cons.prems by simp
    moreover have "f a \<noteq> f x" using Cons.prems \<open>x \<in> set xs\<close> by force
    ultimately show ?thesis using Cons by simp
  qed
qed

lemma image_keep: "x \<in> f ` A \<Longrightarrow> x \<notin> f ` {y \<in> A. P y} \<Longrightarrow> x \<in> f ` {y \<in> A. \<not> P y}"
  by auto

lemma image_keep_neq: "x \<in> f ` A \<Longrightarrow> x \<noteq> c \<Longrightarrow> x \<in> f ` {y \<in> A. f y \<noteq> c}"
  by auto

text \<open>Lists that agree on a key, and updating the rows that satisfy a condition.\<close>

lemma map_key_set: "map f xs = map f ys \<Longrightarrow> f ` set xs = f ` set ys"
  by (drule arg_cong [of _ _ set]) simp

lemma ball_map_key:
  assumes "map f xs = map f ys"
  shows "(\<forall>x \<in> set xs. Q (f x)) = (\<forall>y \<in> set ys. Q (f y))"
proof -
  have "(\<forall>z \<in> f ` set xs. Q z) = (\<forall>z \<in> f ` set ys. Q z)" by (simp add: map_key_set [OF assms])
  then show ?thesis by simp
qed

lemma map_if_key:
  "(\<And>x. f (g x) = f x) \<Longrightarrow> map f (map (\<lambda>x. if Q x then g x else x) xs) = map f xs"
  by (induction xs) auto

lemma map_if_none: "\<forall>x \<in> set xs. \<not> Q x \<Longrightarrow> map (\<lambda>x. if Q x then g x else x) xs = xs"
  by (induction xs) auto

text \<open>
  \<open>INSERT ... ON CONFLICT (key) DO UPDATE\<close>: the row with the key is updated, or a new one is
  added at the end.
\<close>

definition upsert :: "('r \<Rightarrow> 'k) \<Rightarrow> ('r \<Rightarrow> 'r) \<Rightarrow> 'r \<Rightarrow> 'r list \<Rightarrow> 'r list" where
  "upsert key upd r rows =
     (if key r \<in> key ` set rows then map (\<lambda>x. if key x = key r then upd x else x) rows
      else rows @ [r])"

lemma find_map_key:
  assumes "\<And>x. key (upd x) = key x"
  shows "find (\<lambda>x. key x = k) (map (\<lambda>x. if key x = j then upd x else x) rows) =
    (if k = j then map_option upd (find (\<lambda>x. key x = k) rows) else find (\<lambda>x. key x = k) rows)"
  using assms by (induction rows) auto

lemma find_snoc: "find Q (xs @ [y]) = (case find Q xs of None \<Rightarrow> if Q y then Some y else None | Some x \<Rightarrow> Some x)"
  by (induction xs) auto

lemma find_upsert:
  assumes "\<And>x. key (upd x) = key x"
  shows "find (\<lambda>x. key x = k) (upsert key upd r rows) =
    (if k = key r then Some (case find (\<lambda>x. key x = k) rows of None \<Rightarrow> r | Some x \<Rightarrow> upd x)
     else find (\<lambda>x. key x = k) rows)"
proof (cases "key r \<in> key ` set rows")
  case True
  then have "find (\<lambda>x. key x = key r) rows \<noteq> None" by (auto simp: find_None_iff)
  with True show ?thesis by (auto simp: upsert_def find_map_key [where key = key and upd = upd, OF assms])
next
  case False
  then have "find (\<lambda>x. key x = key r) rows = None"
    unfolding find_None_iff by (metis image_eqI)
  with False show ?thesis by (auto simp: upsert_def find_snoc split: option.split)
qed

lemma upsert_map_key:
  "(\<And>x. key (upd x) = key x) \<Longrightarrow> map key (upsert key upd r rows) =
   (if key r \<in> key ` set rows then map key rows else map key rows @ [key r])"
  by (simp add: upsert_def map_if_key del: map_map)

lemma upsert_keys:
  assumes "\<And>x. key (upd x) = key x"
  shows "key ` set (upsert key upd r rows) = insert (key r) (key ` set rows)"
  using arg_cong [where f = set, OF upsert_map_key [where key = key and upd = upd, OF assms]]
  by (auto split: if_splits)

lemma distinct_upsert:
  assumes "\<And>x. key (upd x) = key x" and "distinct (map key rows)"
  shows "distinct (map key (upsert key upd r rows))"
  using assms(2) by (simp add: upsert_map_key [where key = key and upd = upd, OF assms(1)])

end
