(* ===== verification/GoStd.thy ===== *)
theory GoStd
  imports Prelude "HOL-Library.Word"
begin

text \<open>
  The parts of Go's standard library, of the protobuf messages shared by the services
  (\<open>common.v1\<close>) and of Connect-RPC's error codes that the handlers use.

  Go strings are byte sequences: \<open>string\<close> here is a list of 8-bit characters, and a literal
  beyond ASCII would be its UTF-8 bytes. Errors are values: \<open>go_error\<close> has one constructor for
  each way the code builds an error (\<open>fmt.Errorf\<close> with a fixed text, the same with a wrapped
  cause) and one for each cause that comes from outside (no row, a statement Postgres refuses,
  a missing Redis key, a failed Redis call).
\<close>

section \<open>Errors\<close>

datatype pg_cause =
    Fault               \<comment> \<open>lost connection, timeout, or any refusal outside the schema\<close>
  | InvalidUuid         \<comment> \<open>a parameter that is not a UUID\<close>
  | UniqueViolation
  | ForeignKeyViolation
  | CheckViolation

datatype go_error =
    NoRows                    \<comment> \<open>\<open>pgx.ErrNoRows\<close>\<close>
  | Pg pg_cause
  | RedisNil                  \<comment> \<open>\<open>goredis.Nil\<close>: the key is absent\<close>
  | RedisFault
  | Syntax                    \<comment> \<open>\<open>strconv.ErrSyntax\<close>\<close>
  | Range                     \<comment> \<open>\<open>strconv.ErrRange\<close>\<close>
  | JsonError                 \<comment> \<open>\<open>json.Unmarshal\<close> of a value of another shape\<close>
  | Errorf string             \<comment> \<open>\<open>fmt.Errorf(text)\<close>\<close>
  | Wrap string go_error      \<comment> \<open>\<open>fmt.Errorf(text: %w, err)\<close>\<close>

text \<open>The text of an error; values printed into a text are left out throughout.\<close>

fun error_text :: "(go_error \<Rightarrow> string) \<Rightarrow> go_error \<Rightarrow> string" where
  "error_text ext (Errorf t) = t"
| "error_text ext (Wrap m e) = m @ '': '' @ error_text ext e"
| "error_text ext e = ext e"

text \<open>The codes of \<open>connectrpc.com/connect\<close>, and an error a handler returns.\<close>

datatype code =
    CodeCanceled | CodeUnknown | CodeInvalidArgument | CodeDeadlineExceeded | CodeNotFound
  | CodeAlreadyExists | CodePermissionDenied | CodeResourceExhausted | CodeFailedPrecondition
  | CodeAborted | CodeOutOfRange | CodeUnimplemented | CodeInternal | CodeUnavailable
  | CodeDataLoss | CodeUnauthenticated

text \<open>A handler that dereferences a nil pointer panics; the HTTP server ends the request.\<close>

datatype connect_error = NewError code go_error | Panic

definition wrap_err :: "string \<Rightarrow> go_error + 'a \<Rightarrow> go_error + 'a" where
  "wrap_err msg r = (case r of Inl e \<Rightarrow> Inl (Wrap msg e) | Inr x \<Rightarrow> Inr x)"

lemma wrap_err_simps [simp]:
  "wrap_err m (Inl e) = Inl (Wrap m e)" "wrap_err m (Inr x) = Inr x"
  "wrap_err m r = Inr x \<longleftrightarrow> r = Inr x"
  by (simp_all add: wrap_err_def split: sum.split)

section \<open>Strings\<close>

text \<open>
  \<open>strings.TrimSpace\<close> removes Unicode white space at both ends. The list has the UTF-8 bytes of
  every rune for which \<open>unicode.IsSpace\<close> holds: the six ASCII ones, U+0085, U+00A0, U+1680,
  U+2000 to U+200A, U+2028, U+2029, U+202F, U+205F and U+3000.
\<close>

definition space_runes :: "string list" where
  "space_runes =
     [[CHR 0x09], [CHR 0x0A], [CHR 0x0B], [CHR 0x0C], [CHR 0x0D], [CHR 0x20],
      [CHR 0xC2, CHR 0x85], [CHR 0xC2, CHR 0xA0], [CHR 0xE1, CHR 0x9A, CHR 0x80],
      [CHR 0xE2, CHR 0x80, CHR 0x80], [CHR 0xE2, CHR 0x80, CHR 0x81],
      [CHR 0xE2, CHR 0x80, CHR 0x82], [CHR 0xE2, CHR 0x80, CHR 0x83],
      [CHR 0xE2, CHR 0x80, CHR 0x84], [CHR 0xE2, CHR 0x80, CHR 0x85],
      [CHR 0xE2, CHR 0x80, CHR 0x86], [CHR 0xE2, CHR 0x80, CHR 0x87],
      [CHR 0xE2, CHR 0x80, CHR 0x88], [CHR 0xE2, CHR 0x80, CHR 0x89],
      [CHR 0xE2, CHR 0x80, CHR 0x8A], [CHR 0xE2, CHR 0x80, CHR 0xA8],
      [CHR 0xE2, CHR 0x80, CHR 0xA9], [CHR 0xE2, CHR 0x80, CHR 0xAF],
      [CHR 0xE2, CHR 0x81, CHR 0x9F], [CHR 0xE3, CHR 0x80, CHR 0x80]]"

fun strip_prefix :: "string \<Rightarrow> string \<Rightarrow> string option" where
  "strip_prefix [] s = Some s"
| "strip_prefix (p # ps) [] = None"
| "strip_prefix (p # ps) (c # s) = (if p = c then strip_prefix ps s else None)"

fun strip_any :: "string list \<Rightarrow> string \<Rightarrow> string option" where
  "strip_any [] s = None"
| "strip_any (p # ps) s =
     (case (if p = [] then None else strip_prefix p s) of
        Some s' \<Rightarrow> Some s' | None \<Rightarrow> strip_any ps s)"

lemma strip_prefix_Some: "strip_prefix p s = Some t \<longleftrightarrow> s = p @ t"
  by (induction p s rule: strip_prefix.induct) auto

lemma strip_any_shorter: "strip_any ps s = Some t \<Longrightarrow> length t < length s"
  by (induction ps) (auto split: option.splits if_splits simp: strip_prefix_Some)

function trim_left :: "string list \<Rightarrow> string \<Rightarrow> string" where
  "trim_left ps s = (case strip_any ps s of None \<Rightarrow> s | Some t \<Rightarrow> trim_left ps t)"
  by pat_completeness auto
termination
  by (relation "measure (\<lambda>(ps, s). length s)") (auto dest: strip_any_shorter)

declare trim_left.simps [simp del]

definition trim_space :: "string \<Rightarrow> string" where
  "trim_space s =
     rev (trim_left (map rev space_runes) (rev (trim_left space_runes s)))"

lemma trim_left_fixed: "strip_any ps s = None \<Longrightarrow> trim_left ps s = s"
  by (simp add: trim_left.simps)

text \<open>A string without white space at its ends is unchanged, so an identifier trims to itself.\<close>

lemma trim_space_fixed:
  "strip_any space_runes s = None \<Longrightarrow> strip_any (map rev space_runes) (rev s) = None \<Longrightarrow>
   trim_space s = s"
  by (simp add: trim_space_def trim_left_fixed)

lemma trim_space_empty [simp]: "trim_space [] = []"
  by (simp add: trim_space_def trim_left.simps space_runes_def)

section \<open>Numbers\<close>

text \<open>
  \<open>strconv.FormatInt(n, 10)\<close> and \<open>strconv.ParseInt(s, 10, 64)\<close>: an optional sign, at least one
  decimal digit, and the value within 64 bits.
\<close>

definition digit_char :: "nat \<Rightarrow> char" where
  "digit_char d = char_of (48 + d)"

function nat_digits :: "nat \<Rightarrow> string" where
  "nat_digits n =
     (if n < 10 then [digit_char n] else nat_digits (n div 10) @ [digit_char (n mod 10)])"
  by pat_completeness auto
termination
  by (relation "measure id") auto

declare nat_digits.simps [simp del]

definition format_int :: "int \<Rightarrow> string" where
  "format_int n =
     (if n < 0 then CHR ''-'' # nat_digits (nat (- n)) else nat_digits (nat n))"

definition char_digit :: "char \<Rightarrow> nat option" where
  "char_digit c = (let v = of_char c in if 48 \<le> v \<and> v \<le> (57 :: nat) then Some (v - 48) else None)"

fun parse_digits :: "nat \<Rightarrow> string \<Rightarrow> nat option" where
  "parse_digits acc [] = Some acc"
| "parse_digits acc (c # cs) =
     (case char_digit c of None \<Rightarrow> None | Some d \<Rightarrow> parse_digits (10 * acc + d) cs)"

definition parse_unsigned :: "string \<Rightarrow> nat option" where
  "parse_unsigned s = (if s = [] then None else parse_digits 0 s)"

definition parse_int64 :: "string \<Rightarrow> go_error + int" where
  "parse_int64 s =
     (let (neg, body) =
        (case s of
           [] \<Rightarrow> (False, [])
         | c # cs \<Rightarrow>
             if c = CHR ''-'' then (True, cs) else if c = CHR ''+'' then (False, cs) else (False, s))
      in case parse_unsigned body of
           None \<Rightarrow> Inl Syntax
         | Some m \<Rightarrow>
             (let n = (if neg then - int m else int m)
              in if - (2 ^ 63) \<le> n \<and> n < 2 ^ 63 then Inr n else Inl Range))"

lemma char_digit_digit_char [simp]: "d < 10 \<Longrightarrow> char_digit (digit_char d) = Some d"
  by (simp add: char_digit_def digit_char_def of_char_of)

lemma parse_digits_append:
  "parse_digits a (xs @ ys) =
     (case parse_digits a xs of None \<Rightarrow> None | Some b \<Rightarrow> parse_digits b ys)"
  by (induction a xs rule: parse_digits.induct) (auto split: option.split)

lemma parse_digits_nat_digits: "parse_digits 0 (nat_digits n) = Some n"
proof (induction n rule: nat_digits.induct)
  case (1 n)
  show ?case
  proof (cases "n < 10")
    case True
    then show ?thesis by (simp add: nat_digits.simps [of n])
  next
    case False
    with 1 show ?thesis
      by (simp add: nat_digits.simps [of n] parse_digits_append)
  qed
qed

lemma nat_digits_not_Nil [simp]: "nat_digits n \<noteq> []"
  by (simp add: nat_digits.simps [of n])

lemma nat_digits_hd: "\<exists>d cs. d < 10 \<and> nat_digits n = digit_char d # cs"
proof (induction n rule: nat_digits.induct)
  case (1 n)
  show ?case
  proof (cases "n < 10")
    case True
    then show ?thesis by (auto simp: nat_digits.simps [of n])
  next
    case False
    with 1 show ?thesis by (auto simp: nat_digits.simps [of n])
  qed
qed

lemma digit_char_not_sign: "d < 10 \<Longrightarrow> digit_char d \<noteq> CHR ''-'' \<and> digit_char d \<noteq> CHR ''+''"
proof
  assume d: "d < 10"
  show "digit_char d \<noteq> CHR ''-''"
  proof
    assume "digit_char d = CHR ''-''"
    then have "char_digit (CHR ''-'') = Some d" using char_digit_digit_char [OF d] by simp
    then show False by (simp add: char_digit_def)
  qed
  show "digit_char d \<noteq> CHR ''+''"
  proof
    assume "digit_char d = CHR ''+''"
    then have "char_digit (CHR ''+'') = Some d" using char_digit_digit_char [OF d] by simp
    then show False by (simp add: char_digit_def)
  qed
qed

lemma parse_int64_format_int:
  assumes "- (2 ^ 63) \<le> n" and "n < 2 ^ 63"
  shows "parse_int64 (format_int n) = Inr n"
proof (cases "n < 0")
  case True
  with assms show ?thesis
    by (simp add: parse_int64_def format_int_def parse_unsigned_def parse_digits_nat_digits)
next
  case False
  obtain d cs where d: "d < 10" "nat_digits (nat n) = digit_char d # cs"
    using nat_digits_hd by blast
  have "parse_unsigned (digit_char d # cs) = Some (nat n)"
    using parse_digits_nat_digits [of "nat n"] d(2) by (simp add: parse_unsigned_def)
  with False assms d show ?thesis
    using digit_char_not_sign [OF d(1)]
    by (simp add: parse_int64_def format_int_def Let_def)
qed

lemma format_int_not_Nil [simp]: "format_int n \<noteq> []"
  by (simp add: format_int_def)


text \<open>\<open>strings.Split(s, ",")\<close>.\<close>

fun split_comma :: "string \<Rightarrow> string list" where
  "split_comma [] = [[]]"
| "split_comma (c # s) =
     (case split_comma s of
        w # ws \<Rightarrow> (if c = CHR '','' then [] # w # ws else (c # w) # ws)
      | [] \<Rightarrow> [[c]])"

section \<open>JSON\<close>

text \<open>
  \<open>encoding/json\<close> at the level of documents: \<open>Marshal\<close> turns a struct or a map into a tree of
  values, \<open>Unmarshal\<close> reads the fields of a struct out of one. The text between the two is
  left to the library. An instant (\<open>time.Time\<close>) is written as its RFC 3339 string with
  nanoseconds; \<open>JTime\<close> is that string, by the instant it names. A number that is decoded into
  \<open>interface{}\<close> becomes a \<open>float64\<close>; that conversion is where it happens (the gateway), not here.
\<close>

datatype json =
    JNull
  | JBool bool
  | JNum int
  | JStr string
  | JTime int
  | JArr "json list"
  | JObj "(string \<times> json) list"

text \<open>
  Reading a struct field: a missing key or a null leaves the zero value, a value of another
  type is an error.
\<close>

definition json_field :: "json \<Rightarrow> string \<Rightarrow> json" where
  "json_field j k =
     (case j of JObj kvs \<Rightarrow> (case map_of kvs k of None \<Rightarrow> JNull | Some v \<Rightarrow> v) | _ \<Rightarrow> JNull)"

fun json_str :: "json \<Rightarrow> go_error + string" where
  "json_str JNull = Inr []"
| "json_str (JStr s) = Inr s"
| "json_str _ = Inl JsonError"

fun json_int :: "json \<Rightarrow> go_error + int" where
  "json_int JNull = Inr 0"
| "json_int (JNum n) = Inr n"
| "json_int _ = Inl JsonError"

fun json_time :: "json \<Rightarrow> go_error + int" where
  "json_time JNull = Inr 0"
| "json_time (JTime t) = Inr t"
| "json_time _ = Inl JsonError"

fun json_list :: "(json \<Rightarrow> go_error + 'a) \<Rightarrow> json list \<Rightarrow> go_error + 'a list" where
  "json_list f [] = Inr []"
| "json_list f (j # js) =
     (case f j of
        Inl e \<Rightarrow> Inl e
      | Inr x \<Rightarrow> (case json_list f js of Inl e \<Rightarrow> Inl e | Inr xs \<Rightarrow> Inr (x # xs)))"

fun json_arr :: "(json \<Rightarrow> go_error + 'a) \<Rightarrow> json \<Rightarrow> go_error + 'a list" where
  "json_arr f JNull = Inr []"
| "json_arr f (JArr js) = json_list f js"
| "json_arr f _ = Inl JsonError"

definition json_is_object :: "json \<Rightarrow> bool" where
  "json_is_object j = (case j of JObj _ \<Rightarrow> True | JNull \<Rightarrow> True | _ \<Rightarrow> False)"

text \<open>
  Strings are written as UTF-8: a byte that does not belong to a well-formed character comes out
  as U+FFFD. \<open>utf8_size\<close> is the number of bytes of the character at the front, 0 when there is
  none; the ranges are those of Go's \<open>unicode/utf8\<close>.
\<close>

fun utf8_size :: "nat list \<Rightarrow> nat" where
  "utf8_size [] = 0"
| "utf8_size (b0 # bs) =
     (if b0 < 0x80 then 1
      else
        let lo = (if b0 = 0xE0 then 0xA0 else if b0 = 0xF0 then 0x90 else 0x80);
            hi = (if b0 = 0xED then 0x9F else if b0 = 0xF4 then 0x8F else 0xBF);
            more = (if 0xC2 \<le> b0 \<and> b0 \<le> 0xDF then 1 else if 0xE0 \<le> b0 \<and> b0 \<le> 0xEF then 2
                    else if 0xF0 \<le> b0 \<and> b0 \<le> 0xF4 then 3 else 0)
        in if 0 < more \<and> more \<le> length bs \<and> lo \<le> hd bs \<and> hd bs \<le> hi \<and>
              list_all (\<lambda>b. 0x80 \<le> b \<and> b \<le> 0xBF) (take (more - 1) (tl bs))
           then Suc more else 0)"

function json_text :: "string \<Rightarrow> string" where
  "json_text [] = []"
| "json_text (c # s) =
     (case utf8_size (map of_char (c # s)) of
        0 \<Rightarrow> CHR 0xEF # CHR 0xBF # CHR 0xBD # json_text s
      | Suc n \<Rightarrow> c # take n s @ json_text (drop n s))"
  by pat_completeness auto
termination
  by (relation "measure length") auto

lemma json_text_ascii: "list_all (\<lambda>c. of_char c < (0x80 :: nat)) s \<Longrightarrow> json_text s = s"
  by (induction s) auto

lemma json_list_map [simp]:
  "(\<And>x. x \<in> set xs \<Longrightarrow> f (g x) = Inr x) \<Longrightarrow> json_list f (map g xs) = Inr xs"
  by (induction xs) auto

section \<open>Messages shared by the services\<close>

text \<open>
  \<open>common.v1\<close>: a page request (\<open>offset\<close> is in the message and read by nobody) and response, and
  an attachment. Every list handler reads its page request the same way: a limit of 50 unless
  a positive one is given, and the cursor.
\<close>

record pagination_request =
  pg_limit :: int
  pg_offset :: int
  pg_cursor :: string

record pagination_response =
  pgr_has_more :: bool
  pgr_next_cursor :: string

record attachment =
  at_id :: string
  at_file_id :: string
  at_filename :: string
  at_content_type :: string
  at_size :: int

definition page_args :: "pagination_request option \<Rightarrow> int \<times> string" where
  "page_args p =
     (case p of
        None \<Rightarrow> (50, [])
      | Some r \<Rightarrow> (if pg_limit r > 0 then pg_limit r else 50, pg_cursor r))"

definition page_response :: "string \<Rightarrow> pagination_response" where
  "page_response next = \<lparr>pgr_has_more = (next \<noteq> []), pgr_next_cursor = next\<rparr>"

lemma page_args_positive: "page_args p = (l, c) \<Longrightarrow> 0 < l"
  by (auto simp: page_args_def split: option.splits if_splits)

text \<open>
  How the list queries cut a page: they ask the database for one row more than the page holds,
  and when it comes the cursor is the key of the last row that is returned.
\<close>

definition cut_page :: "('r \<Rightarrow> string) \<Rightarrow> int \<Rightarrow> 'r list \<Rightarrow> 'r list \<times> string" where
  "cut_page key limit rows =
     (if int (length rows) > limit
      then (take (nat limit) rows, key (rows ! (nat limit - 1)))
      else (rows, []))"

text \<open>\<open>time.Time.Unix\<close> of an instant kept in microseconds.\<close>

definition unix :: "int \<Rightarrow> int" where
  "unix t = t div 1000000"

section \<open>Handlers\<close>

text \<open>
  A handler returns \<open>(response, nil)\<close> or \<open>(nil, error)\<close>. \<open>try_call\<close> is a call followed by
  \<open>if err != nil { return nil, ... }\<close>, with the error that is returned made from the call's
  (\<open>wrapped\<close> keeps it as the cause, \<open>replaced\<close> does not); \<open>try_conn\<close> returns the error of a helper
  as it is; \<open>guard_that\<close> is an early return on a condition.
\<close>

type_synonym ('s, 'a) handler = "('s, connect_error + 'a) state"

definition ok :: "'a \<Rightarrow> ('s, 'a) handler" where
  "ok x = ret (Inr x)"

definition fail :: "code \<Rightarrow> string \<Rightarrow> ('s, 'a) handler" where
  "fail c msg = ret (Inl (NewError c (Errorf msg)))"

definition wrapped :: "code \<Rightarrow> string \<Rightarrow> go_error \<Rightarrow> connect_error" where
  "wrapped c msg e = NewError c (Wrap msg e)"

definition replaced :: "code \<Rightarrow> string \<Rightarrow> go_error \<Rightarrow> connect_error" where
  "replaced c msg e = NewError c (Errorf msg)"

definition try_call ::
  "(go_error \<Rightarrow> connect_error) \<Rightarrow> ('s, go_error + 'a) state \<Rightarrow> ('a \<Rightarrow> ('s, 'b) handler) \<Rightarrow>
   ('s, 'b) handler" where
  "try_call f m k = do { r \<leftarrow> m; (case r of Inl e \<Rightarrow> ret (Inl (f e)) | Inr x \<Rightarrow> k x) }"

definition try_conn :: "('s, 'a) handler \<Rightarrow> ('a \<Rightarrow> ('s, 'b) handler) \<Rightarrow> ('s, 'b) handler" where
  "try_conn m k = do { r \<leftarrow> m; (case r of Inl e \<Rightarrow> ret (Inl e) | Inr x \<Rightarrow> k x) }"

definition guard_that :: "bool \<Rightarrow> code \<Rightarrow> string \<Rightarrow> ('s, 'b) handler \<Rightarrow> ('s, 'b) handler" where
  "guard_that b c msg m = (if b then m else fail c msg)"

lemmas handler_defs = ok_def fail_def guard_that_def

lemma preserves_handlers [preserves_intros]:
  "preserves I (ok x)" "preserves I (fail c msg)"
  "preserves I m \<Longrightarrow> (\<And>x. preserves I (k x)) \<Longrightarrow> preserves I (try_call f m k)"
  "preserves I n \<Longrightarrow> (\<And>x. preserves I (h x)) \<Longrightarrow> preserves I (try_conn n h)"
  "(b \<Longrightarrow> preserves I p) \<Longrightarrow> preserves I (guard_that b c msg p)"
  unfolding handler_defs try_call_def try_conn_def by (auto intro!: preserves_intros)

text \<open>Going back from a successful return through the calls.\<close>

lemma try_call_InrE:
  assumes "run_state (try_call f m k) s = (Inr y, s')"
  obtains x s1 where "run_state m s = (Inr x, s1)" and "run_state (k x) s1 = (Inr y, s')"
  using assms by (auto simp: try_call_def split: prod.splits sum.splits)

lemma try_conn_InrE:
  assumes "run_state (try_conn m k) s = (Inr y, s')"
  obtains x s1 where "run_state m s = (Inr x, s1)" and "run_state (k x) s1 = (Inr y, s')"
  using assms by (auto simp: try_conn_def split: prod.splits sum.splits)

lemma guard_that_InrE:
  assumes "run_state (guard_that b c msg m) s = (Inr y, s')"
  obtains "b" and "run_state m s = (Inr y, s')"
  using assms by (auto simp: guard_that_def fail_def split: if_splits)

lemma ok_InrE:
  assumes "run_state (ok x) s = (Inr y, s')"
  obtains "y = x" and "s' = s"
  using assms by (auto simp: ok_def)

lemmas handler_InrE = try_call_InrE try_conn_InrE guard_that_InrE ok_InrE

lemma run_handlers [run_simps]:
  "run_state (ok x) s = (Inr x, s)"
  "run_state (fail c msg) s = (Inl (NewError c (Errorf msg)), s)"
  "run_state (try_call f m k) s =
     (case run_state m s of (Inl e, s1) \<Rightarrow> (Inl (f e), s1) | (Inr x, s1) \<Rightarrow> run_state (k x) s1)"
  "run_state (try_conn n h) s =
     (case run_state n s of (Inl e, s1) \<Rightarrow> (Inl e, s1) | (Inr x, s1) \<Rightarrow> run_state (h x) s1)"
  "run_state (guard_that b c msg p) s =
     (if b then run_state p s else (Inl (NewError c (Errorf msg)), s))"
  by (simp_all add: handler_defs try_call_def try_conn_def split: prod.split sum.split)

end
