(* ===== verification/GroupCache.thy ===== *)
theory GroupCache
  imports GoStd "HOL-Library.While_Combinator"
begin

text \<open>
  \<open>backend/pkg/groupcache\<close>: the cache every stateful service keeps. An LRU cache over
  \<open>container/list\<close> (a doubly linked list of elements that the map \<open>items\<close> points into), and
  the \<open>Cache\<close> around it that fills a miss from a function.

  The list and the map share elements by pointer, so the model has a store: \<open>elems\<close> maps the
  address of an element to the entry it holds, \<open>order\<close> is the list of addresses from front to
  back, \<open>items\<close> maps a key to an address. \<open>lru_inv\<close> says how the three agree, \<open>lru_list\<close> is what
  they represent (entries by recency), and the refinement lemmas show that each operation is
  the obvious one on that list. The interface \<open>bounded_cache\<close> is what the services use.
\<close>

section \<open>LRU cache\<close>

record ('k, 'v) lru_cache =
  maxSize :: int
  items :: "'k \<Rightarrow> nat option"
  order :: "nat list"
  elems :: "nat \<Rightarrow> ('k \<times> 'v) option"
  next_elem :: nat

definition new_lru_cache :: "int \<Rightarrow> ('k, 'v) lru_cache" where
  "new_lru_cache n =
     \<lparr>maxSize = n, items = (\<lambda>_. None), order = [], elems = (\<lambda>_. None), next_elem = 0\<rparr>"

text \<open>\<open>list.MoveToFront\<close> and \<open>list.Remove\<close> do nothing for an element of another list.\<close>

definition move_to_front :: "nat \<Rightarrow> nat list \<Rightarrow> nat list" where
  "move_to_front e es = (if e \<in> set es then e # remove1 e es else es)"

definition lru_Get :: "'k \<Rightarrow> ('k, 'v) lru_cache \<Rightarrow> 'v option \<times> ('k, 'v) lru_cache" where
  "lru_Get key c =
     (case items c key of
        Some e \<Rightarrow>
          (map_option snd (elems c e), c\<lparr>order := move_to_front e (order c)\<rparr>)
      | None \<Rightarrow> (None, c))"

text \<open>
  The eviction loop removes the back of the list while it is longer than \<open>maxSize\<close>. For a
  negative \<open>maxSize\<close> Go would spin for ever on an empty list; \<open>while\<close> has no meaning there, and
  \<open>NewCache\<close> never builds such a cache.
\<close>

definition evict_oldest :: "('k, 'v) lru_cache \<Rightarrow> ('k, 'v) lru_cache" where
  "evict_oldest c =
     (if order c = [] then c
      else let oldest = last (order c) in
        c\<lparr>order := butlast (order c),
          items := (case elems c oldest of
                      Some (k, _) \<Rightarrow> (items c)(k := None) | None \<Rightarrow> items c)\<rparr>)"

definition over_capacity :: "('k, 'v) lru_cache \<Rightarrow> bool" where
  "over_capacity c \<longleftrightarrow> int (length (order c)) > maxSize c"

definition lru_Add :: "'k \<Rightarrow> 'v \<Rightarrow> ('k, 'v) lru_cache \<Rightarrow> ('k, 'v) lru_cache" where
  "lru_Add key value c =
     (case items c key of
        Some e \<Rightarrow>
          c\<lparr>order := move_to_front e (order c), elems := (elems c)(e \<mapsto> (key, value))\<rparr>
      | None \<Rightarrow>
          (let e = next_elem c;
               c' = c\<lparr>elems := (elems c)(e \<mapsto> (key, value)), order := e # order c,
                      next_elem := Suc e, items := (items c)(key \<mapsto> e)\<rparr>
           in while over_capacity evict_oldest c'))"

definition lru_Remove :: "'k \<Rightarrow> ('k, 'v) lru_cache \<Rightarrow> ('k, 'v) lru_cache" where
  "lru_Remove key c =
     (case items c key of
        Some e \<Rightarrow> c\<lparr>order := remove1 e (order c), items := (items c)(key := None)\<rparr>
      | None \<Rightarrow> c)"

subsection \<open>Invariant and abstraction\<close>

text \<open>
  The map and the list point at the same elements, each element once, and an element's entry
  has the key it is filed under.
\<close>

definition lru_linked :: "('k, 'v) lru_cache \<Rightarrow> bool" where
  "lru_linked c \<longleftrightarrow>
     distinct (order c) \<and>
     (\<forall>e \<in> set (order c). e < next_elem c \<and> (\<exists>k v. elems c e = Some (k, v) \<and> items c k = Some e)) \<and>
     (\<forall>k e. items c k = Some e \<longrightarrow> e \<in> set (order c) \<and> (\<exists>v. elems c e = Some (k, v)))"

definition lru_inv :: "('k, 'v) lru_cache \<Rightarrow> bool" where
  "lru_inv c \<longleftrightarrow> lru_linked c \<and> 0 < maxSize c \<and> int (length (order c)) \<le> maxSize c"

definition lru_list :: "('k, 'v) lru_cache \<Rightarrow> ('k \<times> 'v) list" where
  "lru_list c = map (\<lambda>e. the (elems c e)) (order c)"

definition lru_peek :: "('k, 'v) lru_cache \<Rightarrow> 'k \<Rightarrow> 'v option" where
  "lru_peek c k = (case items c k of None \<Rightarrow> None | Some e \<Rightarrow> map_option snd (elems c e))"

lemma lru_linkedD:
  assumes "lru_linked c"
  shows "distinct (order c)"
    and "e \<in> set (order c) \<Longrightarrow> e < next_elem c"
    and "e \<in> set (order c) \<Longrightarrow> \<exists>k v. elems c e = Some (k, v) \<and> items c k = Some e"
    and "items c k = Some e \<Longrightarrow> e \<in> set (order c)"
    and "items c k = Some e \<Longrightarrow> \<exists>v. elems c e = Some (k, v)"
  using assms by (auto simp: lru_linked_def)

lemma lru_new_inv: "0 < n \<Longrightarrow> lru_inv (new_lru_cache n)"
  by (simp add: lru_inv_def lru_linked_def new_lru_cache_def)

lemma set_move_to_front [simp]: "set (move_to_front e es) = set es"
  by (induction es) (auto simp: move_to_front_def)

lemma distinct_move_to_front: "distinct es \<Longrightarrow> distinct (move_to_front e es)"
  by (auto simp: move_to_front_def)

lemma length_move_to_front [simp]: "length (move_to_front e es) = length es"
  by (auto simp: move_to_front_def length_remove1 dest: length_pos_if_in_set)

lemma lru_peek_linked:
  "lru_linked c \<Longrightarrow> lru_peek c k = map_of (lru_list c) k"
proof (cases "items c k")
  case None
  assume l: "lru_linked c"
  have "k \<notin> fst ` set (lru_list c)"
  proof
    assume "k \<in> fst ` set (lru_list c)"
    then obtain e where "e \<in> set (order c)" "fst (the (elems c e)) = k"
      by (auto simp: lru_list_def)
    with lru_linkedD(3) [OF l] None show False by fastforce
  qed
  then have "map_of (lru_list c) k = None" by (simp add: map_of_eq_None_iff)
  with None show ?thesis by (simp add: lru_peek_def)
next
  case (Some e)
  assume l: "lru_linked c"
  obtain v where v: "elems c e = Some (k, v)" "e \<in> set (order c)"
    using lru_linkedD(4,5) [OF l Some] by blast
  have "(k, v) \<in> set (lru_list c)"
    unfolding lru_list_def using v by force
  moreover have "distinct (map fst (lru_list c))"
    unfolding lru_list_def map_map distinct_map
  proof
    show "distinct (order c)" using l by (rule lru_linkedD)
    show "inj_on (fst \<circ> (\<lambda>e. the (elems c e))) (set (order c))"
    proof (rule inj_onI)
      fix x y
      assume x: "x \<in> set (order c)" and y: "y \<in> set (order c)"
        and eq: "(fst \<circ> (\<lambda>e. the (elems c e))) x = (fst \<circ> (\<lambda>e. the (elems c e))) y"
      from lru_linkedD(3) [OF l x] lru_linkedD(3) [OF l y] eq show "x = y" by auto
    qed
  qed
  ultimately have "map_of (lru_list c) k = Some v" by simp
  with Some v show ?thesis by (simp add: lru_peek_def)
qed


text \<open>An element's address and the key of its entry determine each other.\<close>

lemma lru_key_iff:
  assumes "lru_linked c" "items c k = Some e" "x \<in> set (order c)"
  shows "fst (the (elems c x)) = k \<longleftrightarrow> x = e"
  using lru_linkedD(3) [OF assms(1,3)] lru_linkedD(5) [OF assms(1,2)] assms(2) by force

lemma lru_list_remove1:
  assumes "lru_linked c" "items c k = Some e"
  shows "map (\<lambda>e. the (elems c e)) (remove1 e (order c)) = filter (\<lambda>x. fst x \<noteq> k) (lru_list c)"
proof -
  have "remove1 e (order c) = filter (\<lambda>x. x \<noteq> e) (order c)"
    using lru_linkedD(1) [OF assms(1)] by (simp add: distinct_remove1_removeAll removeAll_filter_not_eq)
      (metis (mono_tags) filter_cong)
  moreover have "filter (\<lambda>x. x \<noteq> e) (order c) = filter (\<lambda>x. fst (the (elems c x)) \<noteq> k) (order c)"
    using lru_key_iff [OF assms] by (intro filter_cong) auto
  ultimately show ?thesis by (simp add: lru_list_def filter_map comp_def)
qed

lemma lru_list_no_key:
  assumes "lru_linked c" "items c k = None"
  shows "filter (\<lambda>x. fst x \<noteq> k) (lru_list c) = lru_list c"
proof -
  have "fst (the (elems c e)) \<noteq> k" if "e \<in> set (order c)" for e
    using lru_linkedD(3) [OF assms(1) that] assms(2) by force
  then show ?thesis by (auto simp: lru_list_def filter_id_conv)
qed

lemma length_lru_list [simp]: "length (lru_list c) = length (order c)"
  by (simp add: lru_list_def)

subsection \<open>The eviction loop\<close>

lemma evict_oldest_maxSize [simp]: "maxSize (evict_oldest c) = maxSize c"
  by (simp add: evict_oldest_def Let_def)

lemma evict_oldest_order [simp]: "order (evict_oldest c) = butlast (order c)"
  by (simp add: evict_oldest_def Let_def)

lemma evict_oldest_elems [simp]: "elems (evict_oldest c) = elems c"
  by (simp add: evict_oldest_def Let_def)

lemma lru_evict_terminates:
  assumes "0 \<le> maxSize c"
  shows "\<exists>d. while_option over_capacity evict_oldest c = Some d \<and> int (length (order d)) \<le> maxSize d"
proof -
  have "\<exists>d. while_option over_capacity evict_oldest c = Some d"
    by (rule measure_while_option_Some [where P = "\<lambda>c. 0 \<le> maxSize c"
          and f = "\<lambda>c. length (order c)"])
      (use assms in \<open>auto simp: over_capacity_def\<close>)
  then obtain d where d: "while_option over_capacity evict_oldest c = Some d" ..
  then have "\<not> over_capacity d" by (rule while_option_stop)
  with d show ?thesis by (auto simp: over_capacity_def)
qed

lemma evict_once:
  assumes "0 \<le> maxSize c" and "int (length (order c)) \<le> maxSize c + 1"
  shows "while over_capacity evict_oldest c = (if over_capacity c then evict_oldest c else c)"
proof -
  have "\<not> over_capacity (evict_oldest c)" if "over_capacity c"
    using assms that by (auto simp: over_capacity_def)
  then show ?thesis by (simp add: while_unfold [of _ _ c] while_unfold [of _ _ "evict_oldest c"])
qed

lemma evict_oldest_linked:
  assumes l: "lru_linked c"
  shows "lru_linked (evict_oldest c)"
proof (cases "order c = []")
  case True
  with l show ?thesis by (simp add: evict_oldest_def)
next
  case False
  let ?o = "last (order c)"
  have o: "?o \<in> set (order c)" using False by simp
  obtain k v where kv: "elems c ?o = Some (k, v)" "items c k = Some ?o"
    using lru_linkedD(3) [OF l o] by blast
  have it: "items (evict_oldest c) = (items c)(k := None)"
    using False kv by (simp add: evict_oldest_def Let_def)
  have nx: "next_elem (evict_oldest c) = next_elem c"
    by (simp add: evict_oldest_def Let_def)
  have split: "order c = butlast (order c) @ [?o]" using False by simp
  have d: "distinct (butlast (order c))" "?o \<notin> set (butlast (order c))"
    using lru_linkedD(1) [OF l] split distinct_append [of "butlast (order c)" "[?o]"] by auto
  have sub: "e \<in> set (order c) \<longleftrightarrow> e = ?o \<or> e \<in> set (butlast (order c))" for e
    by (subst split) auto
  show ?thesis
    unfolding lru_linked_def it nx evict_oldest_order evict_oldest_elems
  proof (intro conjI ballI allI impI)
    fix e
    assume e: "e \<in> set (butlast (order c))"
    then have e': "e \<in> set (order c)" by (rule in_set_butlastD)
    show "e < next_elem c" using lru_linkedD(2) [OF l e'] .
    obtain k' v' where "elems c e = Some (k', v')" "items c k' = Some e"
      using lru_linkedD(3) [OF l e'] by blast
    moreover have "k' \<noteq> k" using calculation(2) kv(2) d(2) e by auto
    ultimately show "\<exists>k' v. elems c e = Some (k', v) \<and> ((items c)(k := None)) k' = Some e"
      by auto
  next
    fix k' e
    assume "((items c)(k := None)) k' = Some e"
    then have k': "items c k' = Some e" "k' \<noteq> k" by (auto split: if_splits)
    obtain v' where "elems c e = Some (k', v')" using lru_linkedD(5) [OF l k'(1)] by blast
    moreover have "e \<noteq> ?o" using calculation kv(1) k'(2) by auto
    ultimately show "e \<in> set (butlast (order c))"
      and "\<exists>v. elems c e = Some (k', v)"
      using lru_linkedD(4) [OF l k'(1)] sub by auto
  qed (rule d)
qed


subsection \<open>The operations keep the invariant and refine the list of entries by recency\<close>

text \<open>What the operations do to the entries by recency.\<close>

definition spec_touch :: "'k \<Rightarrow> ('k \<times> 'v) list \<Rightarrow> ('k \<times> 'v) list" where
  "spec_touch k l =
     (case map_of l k of None \<Rightarrow> l | Some v \<Rightarrow> (k, v) # filter (\<lambda>x. fst x \<noteq> k) l)"

definition spec_add :: "nat \<Rightarrow> 'k \<Rightarrow> 'v \<Rightarrow> ('k \<times> 'v) list \<Rightarrow> ('k \<times> 'v) list" where
  "spec_add n k v l = take n ((k, v) # filter (\<lambda>x. fst x \<noteq> k) l)"

lemma lru_Get_inv:
  assumes "lru_inv c"
  shows "lru_inv (snd (lru_Get k c))"
  using assms
  by (auto simp: lru_Get_def lru_inv_def lru_linked_def distinct_move_to_front split: option.split)

lemma lru_Get_value: "fst (lru_Get k c) = lru_peek c k"
  by (simp add: lru_Get_def lru_peek_def split: option.split)

lemma lru_Get_list:
  assumes "lru_linked c"
  shows "lru_list (snd (lru_Get k c)) = spec_touch k (lru_list c)"
proof (cases "items c k")
  case None
  then have "map_of (lru_list c) k = None"
    using lru_peek_linked [OF assms, of k] by (simp add: lru_peek_def)
  with None show ?thesis by (simp add: lru_Get_def spec_touch_def)
next
  case (Some e)
  obtain v where v: "elems c e = Some (k, v)" using lru_linkedD(5) [OF assms Some] by blast
  have e: "e \<in> set (order c)" using lru_linkedD(4) [OF assms Some] .
  have "map_of (lru_list c) k = Some v"
    using lru_peek_linked [OF assms, of k] Some v by (simp add: lru_peek_def)
  then show ?thesis
    using Some v e lru_list_remove1 [OF assms Some]
    by (simp add: lru_Get_def spec_touch_def lru_list_def move_to_front_def)
qed

lemma lru_Remove_inv:
  assumes inv: "lru_inv c"
  shows "lru_inv (lru_Remove k c)"
proof (cases "items c k")
  case None
  with inv show ?thesis by (simp add: lru_Remove_def)
next
  case (Some e)
  have l: "lru_linked c" using inv by (simp add: lru_inv_def)
  obtain v where v: "elems c e = Some (k, v)" using lru_linkedD(5) [OF l Some] by blast
  have set: "set (remove1 e (order c)) = set (order c) - {e}"
    using lru_linkedD(1) [OF l] by (simp add: set_remove1_eq)
  have same: "k' = k" if "items c k' = Some e" for k'
    using lru_linkedD(5) [OF l that] v by auto
  have "lru_linked (lru_Remove k c)"
    unfolding lru_linked_def
  proof (intro conjI ballI allI impI)
    show "distinct (order (lru_Remove k c))"
      using Some lru_linkedD(1) [OF l] by (simp add: lru_Remove_def distinct_remove1)
  next
    fix x
    assume "x \<in> set (order (lru_Remove k c))"
    then have x: "x \<in> set (order c)" "x \<noteq> e" using Some set by (simp_all add: lru_Remove_def)
    show "x < next_elem (lru_Remove k c)"
      using Some lru_linkedD(2) [OF l x(1)] by (simp add: lru_Remove_def)
    obtain k' w where "elems c x = Some (k', w)" "items c k' = Some x"
      using lru_linkedD(3) [OF l x(1)] by blast
    moreover from this have "k' \<noteq> k" using Some x(2) by auto
    ultimately show "\<exists>k' w. elems (lru_Remove k c) x = Some (k', w) \<and>
        items (lru_Remove k c) k' = Some x"
      using Some by (auto simp: lru_Remove_def)
  next
    fix k' x
    assume "items (lru_Remove k c) k' = Some x"
    then have x: "items c k' = Some x" "k' \<noteq> k"
      using Some by (auto simp: lru_Remove_def split: if_splits)
    then have "x \<noteq> e" using same by auto
    then show "x \<in> set (order (lru_Remove k c))"
      and "\<exists>w. elems (lru_Remove k c) x = Some (k', w)"
      using Some set lru_linkedD(4,5) [OF l x(1)] by (simp_all add: lru_Remove_def)
  qed
  moreover have "int (length (remove1 e (order c))) \<le> maxSize c"
    using inv by (auto simp: lru_inv_def length_remove1)
  ultimately show ?thesis using inv Some by (simp add: lru_inv_def lru_Remove_def)
qed

lemma lru_Remove_list:
  assumes "lru_linked c"
  shows "lru_list (lru_Remove k c) = filter (\<lambda>x. fst x \<noteq> k) (lru_list c)"
proof (cases "items c k")
  case None
  with assms show ?thesis by (simp add: lru_Remove_def lru_list_no_key)
next
  case (Some e)
  then show ?thesis
    using lru_list_remove1 [OF assms Some] by (simp add: lru_Remove_def lru_list_def)
qed

text \<open>The state just before the eviction loop of \<open>Add\<close> on a new key.\<close>

definition lru_push :: "'k \<Rightarrow> 'v \<Rightarrow> ('k, 'v) lru_cache \<Rightarrow> ('k, 'v) lru_cache" where
  "lru_push key value c =
     c\<lparr>elems := (elems c)(next_elem c \<mapsto> (key, value)), order := next_elem c # order c,
       next_elem := Suc (next_elem c), items := (items c)(key \<mapsto> next_elem c)\<rparr>"

lemma lru_push_linked:
  assumes l: "lru_linked c" and k: "items c k = None"
  shows "lru_linked (lru_push k v c)"
proof -
  have fresh: "next_elem c \<notin> set (order c)" using lru_linkedD(2) [OF l] by blast
  show ?thesis
    unfolding lru_linked_def
  proof (intro conjI ballI allI impI)
    show "distinct (order (lru_push k v c))"
      using fresh lru_linkedD(1) [OF l] by (simp add: lru_push_def)
  next
    fix e
    assume e: "e \<in> set (order (lru_push k v c))"
    show "e < next_elem (lru_push k v c)"
      using e lru_linkedD(2) [OF l] by (auto simp: lru_push_def intro: less_SucI)
    show "\<exists>k' w. elems (lru_push k v c) e = Some (k', w) \<and> items (lru_push k v c) k' = Some e"
    proof (cases "e = next_elem c")
      case True
      then show ?thesis by (simp add: lru_push_def)
    next
      case False
      with e have "e \<in> set (order c)" by (simp add: lru_push_def)
      then obtain k' w where "elems c e = Some (k', w)" "items c k' = Some e"
        using lru_linkedD(3) [OF l] by blast
      moreover from this have "k' \<noteq> k" using k by auto
      ultimately show ?thesis using False by (auto simp: lru_push_def)
    qed
  next
    fix k' e
    assume i: "items (lru_push k v c) k' = Some e"
    show "e \<in> set (order (lru_push k v c))"
      using i lru_linkedD(4) [OF l, of k' e] by (auto simp: lru_push_def split: if_splits)
    show "\<exists>w. elems (lru_push k v c) e = Some (k', w)"
      using i fresh lru_linkedD(4,5) [OF l, of k' e] by (auto simp: lru_push_def split: if_splits)
  qed
qed

lemma lru_push_list:
  assumes l: "lru_linked c"
  shows "lru_list (lru_push k v c) = (k, v) # lru_list c"
proof -
  have "next_elem c \<notin> set (order c)" using lru_linkedD(2) [OF l] by blast
  then show ?thesis by (auto simp: lru_list_def lru_push_def)
qed

lemma lru_Add_miss:
  assumes inv: "lru_inv c" and k: "items c k = None"
  shows "lru_Add k v c =
    (if over_capacity (lru_push k v c) then evict_oldest (lru_push k v c) else lru_push k v c)"
proof -
  have "while over_capacity evict_oldest (lru_push k v c) =
    (if over_capacity (lru_push k v c) then evict_oldest (lru_push k v c) else lru_push k v c)"
    by (rule evict_once) (use inv in \<open>auto simp: lru_inv_def lru_push_def\<close>)
  moreover have "lru_Add k v c = while over_capacity evict_oldest (lru_push k v c)"
    using k by (simp add: lru_Add_def lru_push_def Let_def)
  ultimately show ?thesis by simp
qed

lemma lru_Add_maxSize [simp]: "lru_inv c \<Longrightarrow> maxSize (lru_Add k v c) = maxSize c"
  by (cases "items c k") (simp_all add: lru_Add_miss lru_push_def, simp add: lru_Add_def)


lemma lru_Add_hit_linked:
  assumes l: "lru_linked c" and k: "items c k = Some e"
  shows "lru_linked (lru_Add k v c)"
proof -
  have same: "k' = k" if "items c k' = Some e" for k'
    using lru_linkedD(5) [OF l that] lru_linkedD(5) [OF l k] by auto
  have key: "\<exists>w. elems (lru_Add k v c) x = Some (k', w)" if i: "items c k' = Some x" for k' x
  proof (cases "x = e")
    case True
    with i have "k' = k" using same by simp
    with True k show ?thesis by (simp add: lru_Add_def)
  next
    case False
    then show ?thesis using k lru_linkedD(5) [OF l i] by (simp add: lru_Add_def)
  qed
  show ?thesis
    unfolding lru_linked_def
  proof (intro conjI ballI allI impI)
    show "distinct (order (lru_Add k v c))"
      using k lru_linkedD(1) [OF l] by (simp add: lru_Add_def distinct_move_to_front)
  next
    fix x
    assume "x \<in> set (order (lru_Add k v c))"
    then have x: "x \<in> set (order c)" using k by (simp add: lru_Add_def)
    show "x < next_elem (lru_Add k v c)"
      using k lru_linkedD(2) [OF l x] by (simp add: lru_Add_def)
    obtain k' where i: "items c k' = Some x" using lru_linkedD(3) [OF l x] by blast
    then have "items (lru_Add k v c) k' = Some x" using k by (simp add: lru_Add_def)
    with key [OF i] show "\<exists>k' w. elems (lru_Add k v c) x = Some (k', w) \<and>
        items (lru_Add k v c) k' = Some x"
      by blast
  next
    fix k' x
    assume "items (lru_Add k v c) k' = Some x"
    then have x: "items c k' = Some x" using k by (simp add: lru_Add_def)
    show "x \<in> set (order (lru_Add k v c))"
      using k lru_linkedD(4) [OF l x] by (simp add: lru_Add_def)
    show "\<exists>w. elems (lru_Add k v c) x = Some (k', w)" using key [OF x] .
  qed
qed

lemma lru_Add_inv:
  assumes inv: "lru_inv c"
  shows "lru_inv (lru_Add k v c)"
proof (cases "items c k")
  case None
  have l: "lru_linked (lru_push k v c)"
    using inv None by (simp add: lru_inv_def lru_push_linked)
  show ?thesis
  proof (cases "over_capacity (lru_push k v c)")
    case True
    with inv None show ?thesis
      using evict_oldest_linked [OF l] by (simp add: lru_inv_def lru_Add_miss) (simp add: lru_push_def)
  next
    case False
    with inv None l show ?thesis
      by (simp add: lru_inv_def lru_Add_miss over_capacity_def) (simp add: lru_push_def)
  qed
next
  case (Some e)
  with inv show ?thesis
    using lru_Add_hit_linked [of c k e v] by (simp add: lru_inv_def) (simp add: lru_Add_def)
qed

lemma lru_list_butlast: "lru_list (evict_oldest c) = butlast (lru_list c)"
  by (simp add: lru_list_def map_butlast)

lemma lru_Add_list:
  assumes inv: "lru_inv c"
  shows "lru_list (lru_Add k v c) = spec_add (nat (maxSize c)) k v (lru_list c)"
proof (cases "items c k")
  case None
  have l: "lru_linked c" and len: "int (length (lru_list c)) \<le> maxSize c" and pos: "0 < maxSize c"
    using inv by (simp_all add: lru_inv_def)
  have push: "lru_list (lru_push k v c) = (k, v) # lru_list c" using lru_push_list [OF l] .
  have spec: "spec_add n k v (lru_list c) = take n ((k, v) # lru_list c)" for n
    using lru_list_no_key [OF l None] by (simp add: spec_add_def)
  have oc: "over_capacity (lru_push k v c) \<longleftrightarrow> int (length (lru_list c)) = maxSize c"
    using len by (auto simp: over_capacity_def lru_push_def)
  show ?thesis
  proof (cases "over_capacity (lru_push k v c)")
    case True
    then have "nat (maxSize c) = length (lru_list c)" using oc by simp
    then show ?thesis
      using True push by (simp add: lru_Add_miss [OF inv None] lru_list_butlast spec butlast_conv_take)
  next
    case False
    then have "length ((k, v) # lru_list c) \<le> nat (maxSize c)" using oc len by auto
    with False push show ?thesis by (simp add: lru_Add_miss [OF inv None] spec)
  qed
next
  case (Some e)
  have l: "lru_linked c" and len: "int (length (order c)) \<le> maxSize c"
    using inv by (simp_all add: lru_inv_def)
  have e: "e \<in> set (order c)" using lru_linkedD(4) [OF l Some] .
  have rest: "map (\<lambda>x. the (elems (lru_Add k v c) x)) (remove1 e (order c)) =
      filter (\<lambda>x. fst x \<noteq> k) (lru_list c)"
  proof -
    have "x \<noteq> e" if "x \<in> set (remove1 e (order c))" for x
      using that lru_linkedD(1) [OF l] by auto
    then have "map (\<lambda>x. the (elems (lru_Add k v c) x)) (remove1 e (order c)) =
        map (\<lambda>x. the (elems c x)) (remove1 e (order c))"
      using Some by (intro map_cong) (auto simp: lru_Add_def)
    then show ?thesis using lru_list_remove1 [OF l Some] by simp
  qed
  have eq: "lru_list (lru_Add k v c) = (k, v) # filter (\<lambda>x. fst x \<noteq> k) (lru_list c)"
    using rest Some e by (simp add: lru_list_def [of "lru_Add k v c"])
      (simp add: lru_Add_def move_to_front_def)
  have "length (lru_list (lru_Add k v c)) = length (lru_list c)"
    using Some by (simp add: lru_Add_def)
  then have "length ((k, v) # filter (\<lambda>x. fst x \<noteq> k) (lru_list c)) \<le> nat (maxSize c)"
    using eq len by simp
  then show ?thesis by (simp add: eq spec_add_def)
qed


section \<open>The interface of a bounded cache\<close>

text \<open>
  What a service relies on: a lookup returns what was stored last under that key or nothing,
  storing under one key never invents a value under another (it may drop one), and removing a
  key forgets exactly that key. The client lemmas say that a relation between keys and values
  that every stored value satisfies is satisfied by everything a lookup returns.
\<close>

locale bounded_cache =
  fixes get :: "'k \<Rightarrow> 'c \<Rightarrow> 'v option \<times> 'c"
    and add :: "'k \<Rightarrow> 'v \<Rightarrow> 'c \<Rightarrow> 'c"
    and remove :: "'k \<Rightarrow> 'c \<Rightarrow> 'c"
    and peek :: "'c \<Rightarrow> 'k \<Rightarrow> 'v option"
    and invar :: "'c \<Rightarrow> bool"
  assumes inv_get: "invar c \<Longrightarrow> invar (snd (get k c))"
    and inv_add: "invar c \<Longrightarrow> invar (add k v c)"
    and inv_remove: "invar c \<Longrightarrow> invar (remove k c)"
    and get_value: "invar c \<Longrightarrow> fst (get k c) = peek c k"
    and get_peek: "invar c \<Longrightarrow> peek (snd (get k c)) = peek c"
    and add_same: "invar c \<Longrightarrow> peek (add k v c) k = Some v"
    and add_other: "invar c \<Longrightarrow> k' \<noteq> k \<Longrightarrow> peek (add k v c) k' = Some w \<Longrightarrow> peek c k' = Some w"
    and remove_peek: "invar c \<Longrightarrow> peek (remove k c) = (peek c)(k := None)"
begin

definition agrees :: "('k \<Rightarrow> 'v \<Rightarrow> bool) \<Rightarrow> 'c \<Rightarrow> bool" where
  "agrees R c \<longleftrightarrow> invar c \<and> (\<forall>k v. peek c k = Some v \<longrightarrow> R k v)"

lemma agrees_value: "agrees R c \<Longrightarrow> fst (get k c) = Some v \<Longrightarrow> R k v"
  by (simp add: agrees_def get_value)

lemma agrees_get: "agrees R c \<Longrightarrow> agrees R (snd (get k c))"
  by (simp add: agrees_def inv_get get_peek)

lemma agrees_add: "agrees R c \<Longrightarrow> R k v \<Longrightarrow> agrees R (add k v c)"
  unfolding agrees_def by (metis inv_add add_same add_other option.inject)

lemma agrees_remove:
  "agrees R c \<Longrightarrow> (\<And>k' v. k' \<noteq> k \<Longrightarrow> R k' v \<Longrightarrow> R' k' v) \<Longrightarrow> agrees R' (remove k c)"
  by (auto simp: agrees_def inv_remove remove_peek split: if_splits)

lemma agrees_weaken:
  "agrees R c \<Longrightarrow> (\<And>k v. peek c k = Some v \<Longrightarrow> R k v \<Longrightarrow> R' k v) \<Longrightarrow> agrees R' c"
  by (auto simp: agrees_def)

end

lemma map_of_filter_key: "map_of (filter (\<lambda>x. fst x \<noteq> k) l) = (map_of l)(k := None)"
  by (induction l) (auto simp: fun_eq_iff)

lemma map_of_take: "map_of (take n l) k = Some v \<Longrightarrow> map_of l k = Some v"
  by (induction l arbitrary: n) (auto simp: take_Cons split: nat.splits if_splits)

lemma map_of_spec_touch: "map_of (spec_touch k l) = map_of l"
  by (auto simp: spec_touch_def map_of_filter_key fun_eq_iff split: option.split)

lemma lru_inv_linked: "lru_inv c \<Longrightarrow> lru_linked c"
  by (simp add: lru_inv_def)

lemma lru_peek_list: "lru_inv c \<Longrightarrow> lru_peek c = map_of (lru_list c)"
  by (auto simp: lru_peek_linked lru_inv_linked)

interpretation lru: bounded_cache lru_Get lru_Add lru_Remove lru_peek lru_inv
proof unfold_locales
  fix c :: "('k, 'v) lru_cache" and k k' :: 'k and v w :: 'v
  assume inv: "lru_inv c"
  note inv' = lru_Get_inv [OF inv] lru_Add_inv [OF inv] lru_Remove_inv [OF inv]
  show "lru_inv (snd (lru_Get k c))" "lru_inv (lru_Add k v c)" "lru_inv (lru_Remove k c)"
    by (fact inv')+
  show "fst (lru_Get k c) = lru_peek c k" by (rule lru_Get_value)
  show "lru_peek (snd (lru_Get k c)) = lru_peek c"
    by (simp add: lru_peek_list inv inv' lru_Get_list lru_inv_linked map_of_spec_touch)
  show "lru_peek (lru_Remove k c) = (lru_peek c)(k := None)"
    by (simp add: lru_peek_list inv inv' lru_Remove_list lru_inv_linked map_of_filter_key)
  have pos: "0 < nat (maxSize c)" using inv by (simp add: lru_inv_def)
  then obtain n where n: "nat (maxSize c) = Suc n" using gr0_implies_Suc by blast
  then show "lru_peek (lru_Add k v c) k = Some v"
    by (simp add: lru_peek_list inv' lru_Add_list inv spec_add_def)
  assume "k' \<noteq> k" and "lru_peek (lru_Add k v c) k' = Some w"
  then have "map_of (take n (filter (\<lambda>x. fst x \<noteq> k) (lru_list c))) k' = Some w"
    using n by (simp add: lru_peek_list inv' lru_Add_list inv spec_add_def split: if_splits)
  then have "map_of (filter (\<lambda>x. fst x \<noteq> k) (lru_list c)) k' = Some w" by (rule map_of_take)
  then show "lru_peek c k' = Some w"
    using \<open>k' \<noteq> k\<close> by (simp add: lru_peek_list inv map_of_filter_key)
qed

section \<open>Cache\<close>

text \<open>
  \<open>Cache[string, []byte]\<close> as the services instantiate it: the keys are strings, so
  \<open>fmt.Sprintf("%v", key)\<close> is the key. The filler is an argument of \<open>Get\<close>: it is a closure over
  the service's repository and runs in the service's state. The cache sits in a field of that
  state, read by \<open>get_c\<close> and written by \<open>put_c\<close>.
\<close>

record 'v cache =
  capacity :: int
  peers :: "string list"
  peerSet :: "string \<Rightarrow> bool option"
  lru :: "(string, 'v) lru_cache"

fun dedupe_from :: "string list \<Rightarrow> string list \<Rightarrow> string list" where
  "dedupe_from seen [] = []"
| "dedupe_from seen (p # ps) =
     (if p \<in> set seen then dedupe_from seen ps else p # dedupe_from (p # seen) ps)"

definition dedupePeers :: "string list \<Rightarrow> string list" where
  "dedupePeers ps = dedupe_from [] ps"

fun peer_set :: "string list \<Rightarrow> string \<Rightarrow> bool option" where
  "peer_set [] = (\<lambda>_. None)"
| "peer_set (p # ps) = (peer_set ps)(p \<mapsto> True)"

definition NewCache :: "int \<Rightarrow> string list \<Rightarrow> 'v cache" where
  "NewCache cap ps =
     (let ps' = dedupePeers ps; cap' = (if cap \<le> 0 then 10000 else cap)
      in \<lparr>capacity = cap', peers = ps', peerSet = peer_set ps', lru = new_lru_cache cap'\<rparr>)"

lemma lru_peek_new: "lru_peek (new_lru_cache n) k = None"
  by (simp add: lru_peek_def new_lru_cache_def)

lemma new_cache_agrees: "lru.agrees R (lru (NewCache cap ps))"
  by (simp add: NewCache_def Let_def lru.agrees_def lru_peek_new lru_new_inv)

text \<open>
  \<open>hash/fnv\<close>'s 32-bit FNV-1a of the key's bytes, and the owner of a key. The comment in the
  source speaks of the smallest hash above the key's; the code takes the remainder.
\<close>

definition fnv1a_step :: "char \<Rightarrow> 32 word \<Rightarrow> 32 word" where
  "fnv1a_step b h = (Bit_Operations.xor h (of_char b)) * 16777619"

definition hashKey :: "string \<Rightarrow> 32 word" where
  "hashKey key = fold fnv1a_step key 2166136261"

definition resolveOwner :: "'v cache \<Rightarrow> string \<Rightarrow> string" where
  "resolveOwner c key =
     (if peers c = [] then []
      else peers c ! unat (hashKey key mod word_of_nat (length (peers c))))"

text \<open>One round of \<open>watchPeers\<close>: the registry's instance list replaces the peers.\<close>

definition watch_peers_update :: "string list \<Rightarrow> 'v cache \<Rightarrow> 'v cache" where
  "watch_peers_update addrs c =
     (let ps = dedupePeers addrs in c\<lparr>peers := ps, peerSet := peer_set ps\<rparr>)"

definition Cache_Set :: "string \<Rightarrow> 'v \<Rightarrow> 'v cache \<Rightarrow> 'v cache" where
  "Cache_Set key value c = c\<lparr>lru := lru_Add key value (lru c)\<rparr>"

definition Cache_Remove :: "string \<Rightarrow> 'v cache \<Rightarrow> 'v cache" where
  "Cache_Remove key c = c\<lparr>lru := lru_Remove key (lru c)\<rparr>"

definition cache_lookup ::
  "('s \<Rightarrow> 'v cache) \<Rightarrow> ('v cache \<Rightarrow> 's \<Rightarrow> 's) \<Rightarrow> string \<Rightarrow> ('s, 'v option) state" where
  "cache_lookup get_c put_c key =
     State (\<lambda>s. let (r, l) = lru_Get key (lru (get_c s)) in (r, put_c ((get_c s)\<lparr>lru := l\<rparr>) s))"

text \<open>
  \<open>Get\<close>. The function handed to \<open>singleflight\<close> looks again, then fills; without a concurrent
  caller \<open>Do\<close> just runs it. Both branches on the owner call the local filler.
\<close>

definition Cache_Get ::
  "('s \<Rightarrow> 'v cache) \<Rightarrow> ('v cache \<Rightarrow> 's \<Rightarrow> 's) \<Rightarrow> (string \<Rightarrow> ('s, go_error + 'v) state) option \<Rightarrow>
   string \<Rightarrow> ('s, go_error + 'v) state" where
  "Cache_Get get_c put_c filler key = do {
     r \<leftarrow> cache_lookup get_c put_c key;
     case r of
       Some val \<Rightarrow> ret (Inr val)
     | None \<Rightarrow> do {
         r2 \<leftarrow> cache_lookup get_c put_c key;
         case r2 of
           Some val \<Rightarrow> ret (Inr val)
         | None \<Rightarrow> do {
             c \<leftarrow> gets get_c;
             let owner = resolveOwner c key;
             filled \<leftarrow>
               (if owner = [] \<or> peerSet c owner \<noteq> Some True
                then (case filler of
                        Some f \<Rightarrow> f key | None \<Rightarrow> ret (Inl (Errorf ''no filler configured'')))
                else (case filler of
                        Some f \<Rightarrow> f key | None \<Rightarrow> ret (Inl (Errorf ''no filler configured''))));
             case filled of
               Inl e \<Rightarrow> ret (Inl e)
             | Inr val \<Rightarrow> do {
                 modify (\<lambda>s. put_c (Cache_Set key val (get_c s)) s);
                 ret (Inr val)
               }
           }
       }
   }"

subsection \<open>What a lookup does\<close>

abbreviation lru_touched :: "string \<Rightarrow> 'v cache \<Rightarrow> 'v cache" where
  "lru_touched key c \<equiv> c\<lparr>lru := snd (lru_Get key (lru c))\<rparr>"

lemma run_cache_lookup:
  "run_state (cache_lookup get_c put_c key) s =
     (fst (lru_Get key (lru (get_c s))), put_c (lru_touched key (get_c s)) s)"
  by (simp add: cache_lookup_def case_prod_unfold Let_def)

text \<open>
  Whatever holds of the state is kept, and whatever is promised of the value holds, when both
  survive a lookup, a hit has the promise and the filler establishes it for what it stores.
\<close>

lemma triple_Cache_Get:
  assumes touch: "\<And>s. I s \<Longrightarrow> I (put_c (lru_touched key (get_c s)) s)"
    and hit: "\<And>s v. I s \<Longrightarrow> fst (lru_Get key (lru (get_c s))) = Some v \<Longrightarrow>
      V v (put_c (lru_touched key (get_c s)) s)"
    and fill: "triple I (f key) (\<lambda>r s. case r of
        Inl e \<Rightarrow> I s
      | Inr v \<Rightarrow> I (put_c (Cache_Set key v (get_c s)) s) \<and> V v (put_c (Cache_Set key v (get_c s)) s))"
  shows "triple I (Cache_Get get_c put_c (Some f) key)
    (\<lambda>r s. I s \<and> (case r of Inl _ \<Rightarrow> True | Inr v \<Rightarrow> V v s))"
proof -
  let ?post = "\<lambda>r s. I s \<and> (case r of Inl _ \<Rightarrow> True | Inr v \<Rightarrow> V v s)"
  have look: "triple I (cache_lookup get_c put_c key)
      (\<lambda>r s. I s \<and> (case r of None \<Rightarrow> True | Some v \<Rightarrow> V v s))"
    by (rule tripleI) (auto simp: run_cache_lookup touch hit split: option.split)
  have found: "triple (\<lambda>s. I s \<and> V v s) (ret (Inr v)) ?post" for v
    by (rule triple_return) simp
  have filled: "triple I (do {
       filled \<leftarrow> f key;
       case filled of
         Inl e \<Rightarrow> ret (Inl e)
       | Inr val \<Rightarrow> do {
           modify (\<lambda>s. put_c (Cache_Set key val (get_c s)) s);
           ret (Inr val)
         }
     }) ?post"
    by (rule triple_bind [OF fill]) (auto simp: triple_def split: sum.split)
  show ?thesis
    unfolding Cache_Get_def Let_def option.case if_cancel
  proof (rule triple_bind [OF look])
    fix r
    show "triple (\<lambda>s. I s \<and> (case r of None \<Rightarrow> True | Some v \<Rightarrow> V v s))
      (case r of
         Some val \<Rightarrow> ret (Inr val)
       | None \<Rightarrow> do {
           r2 \<leftarrow> cache_lookup get_c put_c key;
           case r2 of
             Some val \<Rightarrow> ret (Inr val)
           | None \<Rightarrow> do {
               c \<leftarrow> gets get_c;
               filled \<leftarrow> f key;
               case filled of
                 Inl e \<Rightarrow> ret (Inl e)
               | Inr val \<Rightarrow> do {
                   modify (\<lambda>s. put_c (Cache_Set key val (get_c s)) s);
                   ret (Inr val)
                 }
             }
         }) ?post"
    proof (cases r)
      case None
      show ?thesis unfolding None option.case
        apply (simp only: simp_thms)
        apply (rule triple_bind [OF look])
        apply (case_tac x)
        subgoal using filled by (simp add: triple_def)
        subgoal using found by (simp add: triple_def)
        done
    next
      case (Some v)
      then show ?thesis using found [of v] by (simp add: triple_def)
    qed
  qed
qed

text \<open>On a miss the value comes from the filler, in a state that differs in the cache only.\<close>

lemma Cache_Get_miss:
  assumes get_put: "\<And>c s. get_c (put_c c s) = c" and inv: "lru_inv (lru (get_c s))"
    and miss: "lru_peek (lru (get_c s)) key = None"
    and run: "run_state (Cache_Get get_c put_c (Some f) key) s = (Inr v, s')"
  shows "\<exists>c1 c2 s2. run_state (f key) (put_c c2 (put_c c1 s)) = (Inr v, s2)"
proof -
  have "fst (lru_Get key (lru (get_c s))) = None" using lru.get_value [OF inv] miss by metis
  moreover have "fst (lru_Get key (snd (lru_Get key (lru (get_c s))))) = None"
    using lru.get_value [OF lru.inv_get [OF inv]] lru.get_peek [OF inv] miss by metis
  ultimately show ?thesis
    using run unfolding Cache_Get_def
    by (auto simp: run_cache_lookup get_put Let_def split: prod.splits sum.splits)
qed

end
