(* ===== verification/CacheFacts.thy ===== *)
theory CacheFacts
  imports GroupCache
begin

text \<open>
  What the LRU cache of \<open>backend/pkg/groupcache\<close> is: a list of entries, the most recently used one
  first, cut off at the capacity. The cache with its map, its linked elements and its store of
  entries refines it, operation by operation, so over any sequence.
\<close>

datatype ('k, 'v) lru_op = OpGet 'k | OpAdd 'k 'v | OpRemove 'k

text \<open>An operation returns what a lookup found; the other two return nothing.\<close>

fun lru_do :: "('k, 'v) lru_op \<Rightarrow> ('k, 'v) lru_cache \<Rightarrow> 'v option \<times> ('k, 'v) lru_cache" where
  "lru_do (OpGet k) c = lru_Get k c"
| "lru_do (OpAdd k v) c = (None, lru_Add k v c)"
| "lru_do (OpRemove k) c = (None, lru_Remove k c)"

fun spec_do :: "nat \<Rightarrow> ('k, 'v) lru_op \<Rightarrow> ('k \<times> 'v) list \<Rightarrow> 'v option \<times> ('k \<times> 'v) list" where
  "spec_do n (OpGet k) l = (map_of l k, spec_touch k l)"
| "spec_do n (OpAdd k v) l = (None, spec_add n k v l)"
| "spec_do n (OpRemove k) l = (None, filter (\<lambda>x. fst x \<noteq> k) l)"

fun run_ops :: "('o \<Rightarrow> 's \<Rightarrow> 'r \<times> 's) \<Rightarrow> 'o list \<Rightarrow> 's \<Rightarrow> 'r list \<times> 's" where
  "run_ops f [] s = ([], s)"
| "run_ops f (x # xs) s = (let (r, s1) = f x s; (rs, s2) = run_ops f xs s1 in (r # rs, s2))"

text \<open>A step of the cache is a step of the list.\<close>

lemma lru_do_refines:
  assumes inv: "lru_inv c"
  shows "lru_inv (snd (lru_do x c))" and "maxSize (snd (lru_do x c)) = maxSize c"
    and "fst (lru_do x c) = fst (spec_do (nat (maxSize c)) x (lru_list c))"
    and "lru_list (snd (lru_do x c)) = snd (spec_do (nat (maxSize c)) x (lru_list c))"
proof -
  show "lru_inv (snd (lru_do x c))"
    by (cases x) (simp_all add: lru_Get_inv lru_Add_inv lru_Remove_inv inv)
  have "maxSize (snd (lru_Get k c)) = maxSize c" "maxSize (lru_Remove k c) = maxSize c" for k
    by (auto simp: lru_Get_def lru_Remove_def split: option.split)
  then show "maxSize (snd (lru_do x c)) = maxSize c" by (cases x) (simp_all add: inv)
  show "fst (lru_do x c) = fst (spec_do (nat (maxSize c)) x (lru_list c))"
    by (cases x) (simp_all add: lru_Get_value lru_peek_list inv)
  show "lru_list (snd (lru_do x c)) = snd (spec_do (nat (maxSize c)) x (lru_list c))"
    by (cases x) (simp_all add: lru_Get_list lru_Remove_list lru_Add_list lru_inv_linked inv)
qed

lemma run_ops_refines:
  assumes "lru_inv c"
  shows "fst (run_ops lru_do ops c) = fst (run_ops (spec_do (nat (maxSize c))) ops (lru_list c)) \<and>
    lru_list (snd (run_ops lru_do ops c)) = snd (run_ops (spec_do (nat (maxSize c))) ops (lru_list c)) \<and>
    lru_inv (snd (run_ops lru_do ops c)) \<and> maxSize (snd (run_ops lru_do ops c)) = maxSize c"
  using assms
proof (induction ops arbitrary: c)
  case (Cons x xs)
  from Cons.IH [OF lru_do_refines(1) [OF Cons.prems]] lru_do_refines(2-4) [OF Cons.prems, of x]
  show ?case by (simp add: Let_def case_prod_unfold)
qed simp

lemma lru_new_simps [simp]: "lru_list (new_lru_cache n) = []" "maxSize (new_lru_cache n) = n"
  by (simp_all add: lru_list_def new_lru_cache_def)

text \<open>C9: Over any sequence of lookups, insertions and removals a new cache with room for \<open>n\<close> entries
  returns what the list by recency returns, holds its entries in its order, and never holds more
  than \<open>n\<close>; in particular the one that is evicted is the least recently used.\<close>

theorem lru_refines:
  assumes "0 < n"
  shows "fst (run_ops lru_do ops (new_lru_cache n)) = fst (run_ops (spec_do (nat n)) ops []) \<and>
    lru_list (snd (run_ops lru_do ops (new_lru_cache n))) = snd (run_ops (spec_do (nat n)) ops []) \<and>
    int (length (lru_list (snd (run_ops lru_do ops (new_lru_cache n))))) \<le> n"
  using run_ops_refines [OF lru_new_inv [OF assms], of ops] by (simp add: lru_inv_def) (metis length_lru_list)

theorem lru_refines_witness:
  "fst (run_ops lru_do [OpAdd ''a'' 1, OpAdd ''b'' 2, OpGet ''a'', OpAdd ''c'' 3, OpGet ''b'', OpGet ''a'']
     (new_lru_cache 2)) = [None, None, Some (1 :: int), None, None, Some 1]"
proof -
  let ?ops = "[OpAdd ''a'' 1, OpAdd ''b'' 2, OpGet ''a'', OpAdd ''c'' 3, OpGet ''b'', OpGet ''a''] :: (string, int) lru_op list"
  have "fst (run_ops (spec_do (nat 2)) ?ops []) = [None, None, Some 1, None, None, Some 1]"
    by (simp add: spec_add_def spec_touch_def)
  with lru_refines [of 2 ?ops, THEN conjunct1] show ?thesis by simp
qed

end
