(* ===== verification/Postgres.thy ===== *)
theory Postgres
  imports GoStd "HOL-Library.List_Lexorder" "HOL-Library.Char_ord"
begin

text \<open>
  The database the services share, as the migrations under \<open>deploy/migrations\<close> declare it, and
  what a service sees when it talks to it, to Redis and to NATS.

  A table is the list of its rows in insertion order, which is also the order in which a query
  without \<open>ORDER BY\<close> returns them here; rows that are equal under an \<open>ORDER BY\<close> keep it too.
  Every SQL statement of the repositories is a function \<open>int \<Rightarrow> database \<Rightarrow> pg_cause + 'a \<times> database\<close>
  of the time and the tables: it checks the keys and the foreign keys the schema declares and
  either fails and changes nothing or returns what \<open>RETURNING\<close> or \<open>SELECT\<close> returns. Columns no
  Go code reads (\<open>search_vector\<close>, the read cursors' \<open>updated_at\<close>, an attachment's \<open>created_at\<close>)
  are left out.

  Postgres and the driver are not in the repository. What the code relies on is a parameter
  (\<open>pg_env\<close>): how a text is read as a UUID (\<open>uuid_in\<close>; Postgres accepts upper case and prints
  lower case), what \<open>gen_random_uuid\<close> returns at its n-th call, how an instant is printed and
  read, and whether an error of a running query is reported by \<open>Query\<close> or only by \<open>rows.Err()\<close>
  (the driver may do either). \<open>pg_env_ok\<close> states the documented behaviour of the first two.
\<close>

section \<open>Rows\<close>

record user_table_row =
  u_id :: string
  u_email :: string
  u_password_hash :: string
  u_nickname :: string
  u_avatar_url :: string
  u_status_message :: string
  u_created_at :: int
  u_updated_at :: int

record relation_row =
  rel_user_id :: string
  rel_target_user_id :: string
  rel_type :: string
  rel_created_at :: int

record dm_conversation_row =
  dc_id :: string
  dc_user_a_id :: string
  dc_user_b_id :: string
  dc_created_at :: int

record dm_message_row =
  dm_id :: string
  dm_conversation_id :: string
  dm_sender_id :: string
  dm_content :: string
  dm_created_at :: int
  dm_seq :: int

record community_row =
  comm_id :: string
  comm_name :: string
  comm_description :: string
  comm_icon_url :: string
  comm_owner_id :: string
  comm_created_at :: int
  comm_updated_at :: int

text \<open>The table has one column the Go row does not read.\<close>

record community_table_row = community_row +
  comm_is_public :: bool

record channel_row =
  ch_id :: string
  ch_community_id :: string
  ch_name :: string
  ch_topic :: string
  ch_type :: string
  ch_position :: int
  ch_created_at :: int
  ch_updated_at :: int

record member_row =
  mem_community_id :: string
  mem_user_id :: string
  mem_nickname :: string
  mem_joined_at :: int

record role_row =
  role_id :: string
  role_community_id :: string
  role_name :: string
  role_color :: int
  role_permissions :: "64 word"
  role_position :: int
  role_created_at :: int

record member_role_row =
  mr_community_id :: string
  mr_user_id :: string
  mr_role_id :: string

record channel_message_row =
  cm_id :: string
  cm_channel_id :: string
  cm_author_id :: string
  cm_content :: string
  cm_created_at :: int
  cm_updated_at :: int
  cm_seq :: int

record attachment_row =
  att_id :: string
  att_message_type :: string
  att_message_id :: string
  att_file_id :: string
  att_filename :: string
  att_content_type :: string
  att_size :: int

record file_row =
  fm_id :: string
  fm_uploader_id :: string
  fm_filename :: string
  fm_content_type :: string
  fm_size :: int
  fm_status :: string
  fm_bucket :: string
  fm_created_at :: int

record channel_read_row =
  cr_user_id :: string
  cr_channel_id :: string
  cr_last_read_seq :: int

record dm_read_row =
  dr_user_id :: string
  dr_conversation_id :: string
  dr_last_read_seq :: int

record database =
  users :: "user_table_row list"
  user_relations :: "relation_row list"
  dm_conversations :: "dm_conversation_row list"
  dm_messages :: "dm_message_row list"
  communities :: "community_table_row list"
  channels :: "channel_row list"
  community_members :: "member_row list"
  roles :: "role_row list"
  member_roles :: "member_role_row list"
  channel_messages :: "channel_message_row list"
  attachments :: "attachment_row list"
  file_metadata :: "file_row list"
  channel_read_state :: "channel_read_row list"
  dm_read_state :: "dm_read_row list"
  next_message_seq :: int    \<comment> \<open>identity column of \<open>channel_messages\<close>\<close>
  next_dm_seq :: int         \<comment> \<open>identity column of \<open>dm_messages\<close>\<close>
  uuid_count :: nat          \<comment> \<open>calls of \<open>gen_random_uuid\<close> so far\<close>

definition empty_db :: database where
  "empty_db =
     \<lparr>users = [], user_relations = [], dm_conversations = [], dm_messages = [],
      communities = [], channels = [], community_members = [], roles = [], member_roles = [],
      channel_messages = [], attachments = [], file_metadata = [], channel_read_state = [],
      dm_read_state = [], next_message_seq = 1, next_dm_seq = 1, uuid_count = 0\<rparr>"

section \<open>What the services talk to\<close>

record pg_env =
  uuid_in :: "string \<Rightarrow> string option"
  gen_uuid :: "nat \<Rightarrow> string"
  early_error :: bool
  ts_text :: "int \<Rightarrow> string"
  ts_in :: "string \<Rightarrow> int option"

text \<open>
  An identifier as Postgres prints it reads as itself, the empty text and a text with a colon are
  no UUIDs, and \<open>gen_random_uuid\<close> returns such identifiers, never the same one twice.
\<close>

definition pg_env_ok :: "pg_env \<Rightarrow> bool" where
  "pg_env_ok P \<longleftrightarrow>
     (\<forall>s c. uuid_in P s = Some c \<longrightarrow> uuid_in P c = Some c) \<and>
     uuid_in P [] = None \<and>
     (\<forall>s c. uuid_in P s = Some c \<longrightarrow> CHR '':'' \<notin> set s) \<and>
     (\<forall>n. uuid_in P (gen_uuid P n) = Some (gen_uuid P n)) \<and>
     (\<forall>m n. gen_uuid P m = gen_uuid P n \<longrightarrow> m = n)"

lemma pg_env_okD:
  assumes "pg_env_ok P"
  shows "uuid_in P s = Some c \<Longrightarrow> uuid_in P c = Some c"
    and "uuid_in P [] = None"
    and "uuid_in P (gen_uuid P n) = Some (gen_uuid P n)"
    and "uuid_in P s = Some c \<Longrightarrow> CHR '':'' \<notin> set s"
  using assms unfolding pg_env_ok_def by blast+

lemma pg_env_ok_gen_inj: "pg_env_ok P \<Longrightarrow> gen_uuid P m = gen_uuid P n \<longleftrightarrow> m = n"
  unfolding pg_env_ok_def by blast

text \<open>
  An environment for examples: every text without a colon but the empty one is an identifier,
  written with \<open>a\<close> where the text has \<open>A\<close>; the generated ones are \<open>a\<close>, \<open>ab\<close>, \<open>abb\<close> and so on.
\<close>

definition demo_env :: pg_env where
  "demo_env =
     \<lparr>uuid_in = (\<lambda>s. if s = [] \<or> CHR '':'' \<in> set s then None
                    else Some (map (\<lambda>c. if c = CHR ''A'' then CHR ''a'' else c) s)),
      gen_uuid = (\<lambda>n. CHR ''a'' # replicate n (CHR ''b'')),
      early_error = True, ts_text = format_int,
      ts_in = (\<lambda>s. case parse_int64 s of Inl _ \<Rightarrow> None | Inr n \<Rightarrow> Some n)\<rparr>"

lemma demo_env_ok: "pg_env_ok demo_env"
  by (auto simp: pg_env_ok_def demo_env_def replicate_eq_replicate split: if_splits)

text \<open>
  What can happen to one call of an external service: it is carried out; it is refused or lost
  before it took effect; it took effect but the answer is lost; a result set breaks off after
  some rows. The list in the state is consumed one entry per call, with the microseconds that
  pass before the call; an empty list means that everything works.
\<close>

datatype outcome = Done | Fail | Lost | Cut nat

record infra =
  db :: database
  now :: int
  outcomes :: "(outcome \<times> nat) list"
  nats_connected :: bool                          \<comment> \<open>\<open>natsConn != nil\<close>\<close>
  published :: "(string \<times> json) list"              \<comment> \<open>NATS messages, oldest first\<close>
  redis :: "string \<Rightarrow> (string \<times> int) option"    \<comment> \<open>value and expiry\<close>

definition next_outcome :: "('z infra_scheme, outcome) state" where
  "next_outcome = State (\<lambda>s.
     case outcomes s of
       [] \<Rightarrow> (Done, s)
     | (o1, dt) # os \<Rightarrow> (o1, s\<lparr>outcomes := os, now := now s + int dt\<rparr>))"

type_synonym 'a stmt = "int \<Rightarrow> database \<Rightarrow> pg_cause + ('a \<times> database)"

text \<open>\<open>pool.Exec\<close>, and \<open>pool.QueryRow(...).Scan(...)\<close> of a statement that returns rows.\<close>

definition pg_exec :: "'a stmt \<Rightarrow> ('z infra_scheme, go_error + 'a) state" where
  "pg_exec stmt = do {
     o1 \<leftarrow> next_outcome;
     State (\<lambda>s.
       case o1 of
         Done \<Rightarrow>
           (case stmt (now s) (db s) of
              Inl c \<Rightarrow> (Inl (Pg c), s)
            | Inr (x, d) \<Rightarrow> (Inr x, s\<lparr>db := d\<rparr>))
       | Lost \<Rightarrow>
           (Inl (Pg Fault),
            case stmt (now s) (db s) of Inl c \<Rightarrow> s | Inr (x, d) \<Rightarrow> s\<lparr>db := d\<rparr>)
       | _ \<Rightarrow> (Inl (Pg Fault), s))
   }"

definition scan_one :: "go_error + 'r list \<Rightarrow> go_error + 'r" where
  "scan_one r =
     (case r of
        Inl e \<Rightarrow> Inl e
      | Inr rows \<Rightarrow> (case rows of [] \<Rightarrow> Inl NoRows | x # _ \<Rightarrow> Inr x))"

definition pg_query_row :: "'r list stmt \<Rightarrow> ('z infra_scheme, go_error + 'r) state" where
  "pg_query_row stmt = do { r \<leftarrow> pg_exec stmt; ret (scan_one r) }"

text \<open>
  \<open>pool.Query\<close> and the loop over \<open>rows\<close>: the rows that arrived, and what \<open>rows.Err()\<close> would say
  afterwards. The error of \<open>Query\<close> itself is the outer one.
\<close>

definition pg_query ::
  "pg_env \<Rightarrow> (database \<Rightarrow> pg_cause + 'r list) \<Rightarrow>
   ('z infra_scheme, go_error + ('r list \<times> go_error option)) state" where
  "pg_query P sel = do {
     o1 \<leftarrow> next_outcome;
     s \<leftarrow> State_Monad.get;
     ret (case o1 of
            Done \<Rightarrow>
              (case sel (db s) of
                 Inl c \<Rightarrow> if early_error P then Inl (Pg c) else Inr ([], Some (Pg c))
               | Inr rows \<Rightarrow> Inr (rows, None))
          | Cut n \<Rightarrow>
              (case sel (db s) of
                 Inl c \<Rightarrow> Inr ([], Some (Pg c))
               | Inr rows \<Rightarrow> Inr (take n rows, Some (Pg Fault)))
          | _ \<Rightarrow> Inl (Pg Fault))
   }"

text \<open>\<open>natsConn.Publish\<close>; a failed publish reaches nobody.\<close>

definition nats_publish :: "string \<Rightarrow> json \<Rightarrow> ('z infra_scheme, go_error + unit) state" where
  "nats_publish subject payload = do {
     o1 \<leftarrow> next_outcome;
     (case o1 of
        Done \<Rightarrow> do { modify (\<lambda>s. s\<lparr>published := published s @ [(subject, payload)]\<rparr>); ret (Inr ()) }
      | Lost \<Rightarrow> do { modify (\<lambda>s. s\<lparr>published := published s @ [(subject, payload)]\<rparr>);
                     ret (Inl (Errorf ''nats'')) }
      | _ \<Rightarrow> ret (Inl (Errorf ''nats'')))
   }"

section \<open>Statements\<close>

definition uuid_param :: "pg_env \<Rightarrow> string \<Rightarrow> (string \<Rightarrow> pg_cause + 'a) \<Rightarrow> pg_cause + 'a" where
  "uuid_param P s k = (case uuid_in P s of None \<Rightarrow> Inl InvalidUuid | Some c \<Rightarrow> k c)"

definition has_user :: "database \<Rightarrow> string \<Rightarrow> bool" where
  "has_user d u \<longleftrightarrow> u \<in> u_id ` set (users d)"

definition has_community :: "database \<Rightarrow> string \<Rightarrow> bool" where
  "has_community d c \<longleftrightarrow> c \<in> comm_id ` set (communities d)"

definition has_channel :: "database \<Rightarrow> string \<Rightarrow> bool" where
  "has_channel d c \<longleftrightarrow> c \<in> ch_id ` set (channels d)"

definition member_key :: "member_row \<Rightarrow> string \<times> string" where
  "member_key m = (mem_community_id m, mem_user_id m)"

definition has_member :: "database \<Rightarrow> string \<Rightarrow> string \<Rightarrow> bool" where
  "has_member d c u \<longleftrightarrow> (c, u) \<in> member_key ` set (community_members d)"

definition has_role :: "database \<Rightarrow> string \<Rightarrow> bool" where
  "has_role d r \<longleftrightarrow> r \<in> role_id ` set (roles d)"

text \<open>Deleting rows, with the \<open>ON DELETE CASCADE\<close> of the tables that refer to them.\<close>

definition delete_channels :: "(channel_row \<Rightarrow> bool) \<Rightarrow> database \<Rightarrow> database" where
  "delete_channels P d =
     (let gone = map ch_id (filter P (channels d)) in
      d\<lparr>channels := filter (\<lambda>c. \<not> P c) (channels d),
        channel_messages := filter (\<lambda>m. cm_channel_id m \<notin> set gone) (channel_messages d),
        channel_read_state := filter (\<lambda>r. cr_channel_id r \<notin> set gone) (channel_read_state d)\<rparr>)"

definition delete_members :: "(member_row \<Rightarrow> bool) \<Rightarrow> database \<Rightarrow> database" where
  "delete_members P d =
     (let gone = map member_key (filter P (community_members d)) in
      d\<lparr>community_members := filter (\<lambda>m. \<not> P m) (community_members d),
        member_roles :=
          filter (\<lambda>r. (mr_community_id r, mr_user_id r) \<notin> set gone) (member_roles d)\<rparr>)"

definition delete_roles :: "(role_row \<Rightarrow> bool) \<Rightarrow> database \<Rightarrow> database" where
  "delete_roles P d =
     (let gone = map role_id (filter P (roles d)) in
      d\<lparr>roles := filter (\<lambda>r. \<not> P r) (roles d),
        member_roles := filter (\<lambda>r. mr_role_id r \<notin> set gone) (member_roles d)\<rparr>)"

definition delete_community :: "string \<Rightarrow> database \<Rightarrow> database" where
  "delete_community c d =
     (let d1 = delete_channels (\<lambda>x. ch_community_id x = c) d;
          d2 = delete_members (\<lambda>x. mem_community_id x = c) d1;
          d3 = delete_roles (\<lambda>x. role_community_id x = c) d2
      in d3\<lparr>communities := filter (\<lambda>x. comm_id x \<noteq> c) (communities d3)\<rparr>)"

section \<open>Integrity\<close>

text \<open>Primary keys, foreign keys and the identity columns.\<close>

definition keys_ok :: "database \<Rightarrow> bool" where
  "keys_ok d \<longleftrightarrow>
     distinct (map u_id (users d)) \<and>
     distinct (map comm_id (communities d)) \<and>
     distinct (map ch_id (channels d)) \<and>
     distinct (map member_key (community_members d)) \<and>
     distinct (map role_id (roles d)) \<and>
     distinct (map cm_id (channel_messages d))"

definition refs_ok :: "database \<Rightarrow> bool" where
  "refs_ok d \<longleftrightarrow>
     (\<forall>c \<in> set (communities d). has_user d (comm_owner_id c)) \<and>
     (\<forall>c \<in> set (channels d). has_community d (ch_community_id c)) \<and>
     (\<forall>m \<in> set (community_members d).
        has_community d (mem_community_id m) \<and> has_user d (mem_user_id m)) \<and>
     (\<forall>r \<in> set (roles d). has_community d (role_community_id r)) \<and>
     (\<forall>r \<in> set (member_roles d).
        has_member d (mr_community_id r) (mr_user_id r) \<and> has_role d (mr_role_id r)) \<and>
     (\<forall>m \<in> set (channel_messages d). has_channel d (cm_channel_id m))"

definition seqs_ok :: "database \<Rightarrow> bool" where
  "seqs_ok d \<longleftrightarrow>
     sorted_wrt (<) (map cm_seq (channel_messages d)) \<and>
     (\<forall>m \<in> set (channel_messages d). 0 < cm_seq m \<and> cm_seq m < next_message_seq d) \<and>
     0 < next_message_seq d"

text \<open>The same for direct messages and for the read cursors.\<close>

definition dm_ok :: "database \<Rightarrow> bool" where
  "dm_ok d \<longleftrightarrow>
     distinct (map dc_id (dm_conversations d)) \<and>
     distinct (map (\<lambda>c. (dc_user_a_id c, dc_user_b_id c)) (dm_conversations d)) \<and>
     (\<forall>c \<in> set (dm_conversations d).
        dc_user_a_id c < dc_user_b_id c \<and> has_user d (dc_user_a_id c) \<and> has_user d (dc_user_b_id c)) \<and>
     (\<forall>m \<in> set (dm_messages d). dm_conversation_id m \<in> dc_id ` set (dm_conversations d)) \<and>
     sorted_wrt (<) (map dm_seq (dm_messages d)) \<and>
     (\<forall>m \<in> set (dm_messages d). 0 < dm_seq m \<and> dm_seq m < next_dm_seq d) \<and>
     0 < next_dm_seq d"

definition reads_ok :: "database \<Rightarrow> bool" where
  "reads_ok d \<longleftrightarrow>
     distinct (map (\<lambda>r. (cr_user_id r, cr_channel_id r)) (channel_read_state d)) \<and>
     distinct (map (\<lambda>r. (dr_user_id r, dr_conversation_id r)) (dm_read_state d)) \<and>
     (\<forall>r \<in> set (channel_read_state d). has_channel d (cr_channel_id r))"

definition db_ok :: "database \<Rightarrow> bool" where
  "db_ok d \<longleftrightarrow> keys_ok d \<and> refs_ok d \<and> seqs_ok d \<and> dm_ok d \<and> reads_ok d"

lemma db_ok_empty: "db_ok empty_db"
  by (simp add: db_ok_def keys_ok_def refs_ok_def seqs_ok_def dm_ok_def reads_ok_def empty_db_def)

subsection \<open>Deleting keeps integrity\<close>

lemma sorted_wrt_map_filter:
  "sorted_wrt (<) (map f xs) \<Longrightarrow> sorted_wrt (<) (map f (filter P xs))"
  for f :: "'a \<Rightarrow> 'b :: linorder"
  by (induction xs) auto

lemmas has_defs = has_user_def has_community_def has_channel_def has_member_def has_role_def

lemmas db_ok_defs = db_ok_def keys_ok_def refs_ok_def seqs_ok_def dm_ok_def reads_ok_def

lemma delete_channels_ok: "db_ok d \<Longrightarrow> db_ok (delete_channels P d)"
  unfolding db_ok_defs delete_channels_def Let_def
  by (auto simp: has_defs distinct_map_filter sorted_wrt_map_filter intro: image_keep)

lemma delete_members_ok: "db_ok d \<Longrightarrow> db_ok (delete_members P d)"
  unfolding db_ok_defs delete_members_def Let_def
  by (auto simp: has_defs distinct_map_filter intro: image_keep)

lemma delete_roles_ok: "db_ok d \<Longrightarrow> db_ok (delete_roles P d)"
  unfolding db_ok_defs delete_roles_def Let_def
  by (auto simp: has_defs distinct_map_filter intro: image_keep)

text \<open>A community goes once nothing refers to it.\<close>

lemma drop_community_ok:
  assumes "db_ok d"
    and "\<forall>x \<in> set (channels d). ch_community_id x \<noteq> c"
    and "\<forall>x \<in> set (community_members d). mem_community_id x \<noteq> c"
    and "\<forall>x \<in> set (roles d). role_community_id x \<noteq> c"
  shows "db_ok (d\<lparr>communities := filter (\<lambda>x. comm_id x \<noteq> c) (communities d)\<rparr>)"
  using assms unfolding db_ok_defs
  by (auto simp: has_defs distinct_map_filter intro: image_keep_neq)

lemma delete_community_ok: "db_ok d \<Longrightarrow> db_ok (delete_community c d)"
  unfolding delete_community_def Let_def
  by (intro drop_community_ok delete_roles_ok delete_members_ok delete_channels_ok)
     (simp_all add: delete_roles_def delete_members_def delete_channels_def Let_def)

subsection \<open>Adding and changing rows keeps integrity\<close>

lemmas has_simps =
  has_user_def has_community_def has_channel_def has_member_def has_role_def fun_eq_iff

lemma db_ok_update_communities:
  assumes "db_ok d" and "map comm_id cs = map comm_id (communities d)"
    and "map comm_owner_id cs = map comm_owner_id (communities d)"
  shows "db_ok (d\<lparr>communities := cs\<rparr>)"
proof -
  have "has_community (d\<lparr>communities := cs\<rparr>) = has_community d"
    using map_key_set [OF assms(2)] by (auto simp: has_simps)
  moreover have "has_user (d\<lparr>communities := cs\<rparr>) = has_user d"
    "has_channel (d\<lparr>communities := cs\<rparr>) = has_channel d"
    "has_member (d\<lparr>communities := cs\<rparr>) = has_member d"
    "has_role (d\<lparr>communities := cs\<rparr>) = has_role d"
    by (auto simp: has_simps)
  ultimately show ?thesis
    using assms(1,2) ball_map_key [OF assms(3), of "has_user d"]
    by (simp add: db_ok_defs)
qed

lemma db_ok_update_channels:
  assumes "db_ok d" and "map ch_id cs = map ch_id (channels d)"
    and "map ch_community_id cs = map ch_community_id (channels d)"
  shows "db_ok (d\<lparr>channels := cs\<rparr>)"
proof -
  have "has_channel (d\<lparr>channels := cs\<rparr>) = has_channel d"
    using map_key_set [OF assms(2)] by (auto simp: has_simps)
  moreover have "has_user (d\<lparr>channels := cs\<rparr>) = has_user d"
    "has_community (d\<lparr>channels := cs\<rparr>) = has_community d"
    "has_member (d\<lparr>channels := cs\<rparr>) = has_member d"
    "has_role (d\<lparr>channels := cs\<rparr>) = has_role d"
    by (auto simp: has_simps)
  ultimately show ?thesis
    using assms(1,2) ball_map_key [OF assms(3), of "has_community d"]
    by (simp add: db_ok_defs)
qed

lemma db_ok_update_messages:
  assumes "db_ok d" and "map cm_id ms = map cm_id (channel_messages d)"
    and "map cm_channel_id ms = map cm_channel_id (channel_messages d)"
    and "map cm_seq ms = map cm_seq (channel_messages d)"
  shows "db_ok (d\<lparr>channel_messages := ms\<rparr>)"
proof -
  have "has_channel (d\<lparr>channel_messages := ms\<rparr>) = has_channel d"
    "has_user (d\<lparr>channel_messages := ms\<rparr>) = has_user d"
    "has_community (d\<lparr>channel_messages := ms\<rparr>) = has_community d"
    "has_member (d\<lparr>channel_messages := ms\<rparr>) = has_member d"
    "has_role (d\<lparr>channel_messages := ms\<rparr>) = has_role d"
    by (auto simp: has_simps)
  then show ?thesis
    using assms ball_map_key [OF assms(3), of "has_channel d"]
      ball_map_key [OF assms(4), of "\<lambda>q. 0 < q \<and> q < next_message_seq d"]
    by (simp add: db_ok_defs)
qed


lemma db_ok_add_community:
  "db_ok d \<Longrightarrow> \<not> has_community d (comm_id r) \<Longrightarrow> has_user d (comm_owner_id r) \<Longrightarrow>
   db_ok (d\<lparr>communities := communities d @ [r], uuid_count := n\<rparr>)"
  unfolding db_ok_defs has_defs by simp

lemma db_ok_add_channel:
  "db_ok d \<Longrightarrow> \<not> has_channel d (ch_id r) \<Longrightarrow> has_community d (ch_community_id r) \<Longrightarrow>
   db_ok (d\<lparr>channels := channels d @ [r], uuid_count := n\<rparr>)"
  unfolding db_ok_defs has_defs by simp

lemma db_ok_add_member:
  "db_ok d \<Longrightarrow> \<not> has_member d (mem_community_id r) (mem_user_id r) \<Longrightarrow>
   has_community d (mem_community_id r) \<Longrightarrow> has_user d (mem_user_id r) \<Longrightarrow>
   db_ok (d\<lparr>community_members := community_members d @ [r]\<rparr>)"
  unfolding db_ok_defs has_defs by (auto simp: member_key_def [of r])

lemma db_ok_add_role:
  "db_ok d \<Longrightarrow> \<not> has_role d (role_id r) \<Longrightarrow> has_community d (role_community_id r) \<Longrightarrow>
   db_ok (d\<lparr>roles := roles d @ [r], uuid_count := n\<rparr>)"
  unfolding db_ok_defs has_defs by simp

lemma db_ok_add_member_role:
  "db_ok d \<Longrightarrow> has_member d (mr_community_id r) (mr_user_id r) \<Longrightarrow> has_role d (mr_role_id r) \<Longrightarrow>
   db_ok (d\<lparr>member_roles := member_roles d @ [r]\<rparr>)"
  unfolding db_ok_defs has_defs by simp

lemma db_ok_add_message:
  "db_ok d \<Longrightarrow> cm_id r \<notin> cm_id ` set (channel_messages d) \<Longrightarrow> has_channel d (cm_channel_id r) \<Longrightarrow>
   cm_seq r = next_message_seq d \<Longrightarrow> m = next_message_seq d + 1 \<Longrightarrow>
   db_ok (d\<lparr>channel_messages := channel_messages d @ [r], next_message_seq := m, uuid_count := n\<rparr>)"
  unfolding db_ok_defs has_defs by (auto simp: sorted_wrt_append)

lemma db_ok_add_attachment:
  "db_ok d \<Longrightarrow> db_ok (d\<lparr>attachments := a, uuid_count := n\<rparr>)"
  unfolding db_ok_defs has_defs by simp

lemma db_ok_drop_message:
  "db_ok d \<Longrightarrow> db_ok (d\<lparr>channel_messages := filter Q (channel_messages d)\<rparr>)"
  unfolding db_ok_defs has_defs by (auto simp: sorted_wrt_map_filter distinct_map_filter)

section \<open>Rules for the calls\<close>

text \<open>
  A predicate on the tables is kept by a call when the statement keeps it; nothing else in the
  state is read.
\<close>

lemma keeps_next_outcome:
  "(\<And>s os t. f (s\<lparr>outcomes := os, now := t\<rparr>) = f s) \<Longrightarrow> keeps f next_outcome"
  by (auto simp: keeps_def next_outcome_def split: list.split prod.split)

definition calls_safe :: "('z infra_scheme \<Rightarrow> bool) \<Rightarrow> bool" where
  "calls_safe I \<longleftrightarrow> (\<forall>s os t. I s \<longrightarrow> I (s\<lparr>outcomes := os, now := t\<rparr>))"

definition stmt_safe :: "('z infra_scheme \<Rightarrow> bool) \<Rightarrow> 'a stmt \<Rightarrow> bool" where
  "stmt_safe I stmt \<longleftrightarrow>
     calls_safe I \<and>
     (\<forall>s x d. I s \<longrightarrow> stmt (now s) (db s) = Inr (x, d) \<longrightarrow> I (s\<lparr>db := d\<rparr>))"

lemma stmt_safe_calls [intro]: "stmt_safe I stmt \<Longrightarrow> calls_safe I"
  by (simp add: stmt_safe_def)

lemma preserves_next_outcome: "calls_safe I \<Longrightarrow> preserves I next_outcome"
  by (auto simp: calls_safe_def preserves_def next_outcome_def split: list.split prod.split)

lemma preserves_pg_exec: "stmt_safe I stmt \<Longrightarrow> preserves I (pg_exec stmt)"
  unfolding pg_exec_def
proof (rule preserves_bind)
  assume safe: "stmt_safe I stmt"
  show "preserves I next_outcome" by (rule preserves_next_outcome) (rule stmt_safe_calls [OF safe])
  fix o1
  show "preserves I (State (\<lambda>s.
       case o1 of
         Done \<Rightarrow>
           (case stmt (now s) (db s) of
              Inl c \<Rightarrow> (Inl (Pg c), s)
            | Inr (x, d) \<Rightarrow> (Inr x, s\<lparr>db := d\<rparr>))
       | Lost \<Rightarrow>
           (Inl (Pg Fault),
            case stmt (now s) (db s) of Inl c \<Rightarrow> s | Inr (x, d) \<Rightarrow> s\<lparr>db := d\<rparr>)
       | _ \<Rightarrow> (Inl (Pg Fault), s)))"
    using safe by (auto simp: preserves_def stmt_safe_def split: outcome.split sum.split prod.split)
qed

lemma preserves_pg_query_row: "stmt_safe I stmt \<Longrightarrow> preserves I (pg_query_row stmt)"
  by (auto simp: pg_query_row_def intro!: preserves_intros preserves_pg_exec)

lemma preserves_pg_query: "calls_safe I \<Longrightarrow> preserves I (pg_query P sel)"
  unfolding pg_query_def
  by (intro preserves_bind preserves_next_outcome preserves_return) (simp_all add: preserves_def)

lemma preserves_nats_publish:
  "calls_safe I \<Longrightarrow> (\<And>s p. I s \<Longrightarrow> I (s\<lparr>published := p\<rparr>)) \<Longrightarrow> preserves I (nats_publish subj payload)"
  unfolding nats_publish_def
  by (intro preserves_bind preserves_next_outcome)
     (auto split: outcome.split intro!: preserves_intros preserves_modify)

text \<open>The tables stay as they are when a call only reads.\<close>

definition reads_only :: "'a stmt \<Rightarrow> bool" where
  "reads_only stmt \<longleftrightarrow> (\<forall>t d x d'. stmt t d = Inr (x, d') \<longrightarrow> d' = d)"

lemma keeps_db_pg_exec: "reads_only stmt \<Longrightarrow> keeps db (pg_exec stmt)"
  by (auto simp: keeps_def pg_exec_def next_outcome_def reads_only_def
      split: list.split prod.split outcome.split sum.split)

lemma keeps_db_pg_query_row: "reads_only stmt \<Longrightarrow> keeps db (pg_query_row stmt)"
  unfolding pg_query_row_def by (intro keeps_bind keeps_db_pg_exec keeps_return)

lemma keeps_db_pg_query: "keeps db (pg_query P sel)"
  by (auto simp: keeps_def pg_query_def next_outcome_def split: list.split prod.split)

lemma keeps_db_nats_publish [preserves_intros]: "keeps db (nats_publish subj payload)"
  by (auto simp: keeps_def nats_publish_def next_outcome_def
      split: list.split prod.split outcome.split)

text \<open>A predicate on the tables alone.\<close>

definition stmt_keeps :: "(database \<Rightarrow> bool) \<Rightarrow> 'a stmt \<Rightarrow> bool" where
  "stmt_keeps Q stmt \<longleftrightarrow> (\<forall>t d x d'. Q d \<longrightarrow> stmt t d = Inr (x, d') \<longrightarrow> Q d')"

lemma stmt_keepsI:
  "(\<And>t d x d'. Q d \<Longrightarrow> stmt t d = Inr (x, d') \<Longrightarrow> Q d') \<Longrightarrow> stmt_keeps Q stmt"
  by (auto simp: stmt_keeps_def)

lemma stmt_keeps_reads_only: "reads_only stmt \<Longrightarrow> stmt_keeps Q stmt"
  by (auto simp: stmt_keeps_def reads_only_def)

lemma reads_onlyD: "reads_only stmt \<Longrightarrow> stmt t d = Inr (x, d') \<Longrightarrow> d' = d"
  unfolding reads_only_def by blast

lemma stmt_safe_reads_only: "reads_only stmt \<Longrightarrow> calls_safe I \<Longrightarrow> stmt_safe I stmt"
  by (fastforce simp: stmt_safe_def dest: reads_onlyD)

lemma calls_safe_db [simp]: "calls_safe (\<lambda>s. Q (db s))"
  by (simp add: calls_safe_def)

lemma stmt_safe_db [simp]: "stmt_keeps Q stmt \<Longrightarrow> stmt_safe (\<lambda>s. Q (db s)) stmt"
  by (auto simp: stmt_safe_def stmt_keeps_def)

text \<open>A relation between the tables before and after, which every statement satisfies.\<close>

definition stmt_rel :: "(database \<Rightarrow> database \<Rightarrow> bool) \<Rightarrow> 'a stmt \<Rightarrow> bool" where
  "stmt_rel R stmt \<longleftrightarrow> (\<forall>t d x d'. stmt t d = Inr (x, d') \<longrightarrow> R d d')"

lemma stmt_relI: "(\<And>t d x d'. stmt t d = Inr (x, d') \<Longrightarrow> R d d') \<Longrightarrow> stmt_rel R stmt"
  by (auto simp: stmt_rel_def)

lemma stmt_rel_reads_only: "reads_only stmt \<Longrightarrow> reflp R \<Longrightarrow> stmt_rel R stmt"
  by (auto simp: stmt_rel_def dest: reads_onlyD reflpD)

text \<open>Without faults a call is its statement.\<close>

lemma run_next_outcome_calm [run_simps]:
  "outcomes s = [] \<Longrightarrow> run_state next_outcome s = (Done, s)"
  by (simp add: next_outcome_def)

lemma run_pg_exec_calm [run_simps]:
  "outcomes s = [] \<Longrightarrow> run_state (pg_exec stmt) s =
     (case stmt (now s) (db s) of Inl c \<Rightarrow> (Inl (Pg c), s) | Inr (x, d) \<Rightarrow> (Inr x, s\<lparr>db := d\<rparr>))"
  by (simp add: pg_exec_def run_next_outcome_calm)

lemma run_pg_query_row_calm [run_simps]:
  "outcomes s = [] \<Longrightarrow> run_state (pg_query_row stmt) s =
     (case stmt (now s) (db s) of
        Inl c \<Rightarrow> (Inl (Pg c), s)
      | Inr (rows, d) \<Rightarrow> (scan_one (Inr rows), s\<lparr>db := d\<rparr>))"
  by (simp add: pg_query_row_def run_pg_exec_calm scan_one_def split: sum.split prod.split)

lemma run_pg_query_calm [run_simps]:
  "outcomes s = [] \<Longrightarrow> run_state (pg_query P sel) s =
     (case sel (db s) of
        Inl c \<Rightarrow> (if early_error P then Inl (Pg c) else Inr ([], Some (Pg c)), s)
      | Inr rows \<Rightarrow> (Inr (rows, None), s))"
  by (simp add: pg_query_def run_next_outcome_calm split: sum.split)

lemma next_outcome_frame:
  assumes "run_state next_outcome s = (o1, s1)"
  shows "\<exists>os t. s1 = s\<lparr>outcomes := os, now := t\<rparr>"
proof (cases "outcomes s")
  case Nil
  with assms have "s1 = s\<lparr>outcomes := outcomes s, now := now s\<rparr>"
    by (simp add: next_outcome_def)
  then show ?thesis by blast
next
  case (Cons a os)
  with assms have "s1 = s\<lparr>outcomes := os, now := now s + int (snd a)\<rparr>"
    by (simp add: next_outcome_def split: prod.splits)
  then show ?thesis by blast
qed

text \<open>What a returned row says about the tables, whatever faults there were before.\<close>

lemma pg_exec_InrD:
  assumes "run_state (pg_exec stmt) s = (Inr x, s')"
  shows "\<exists>t os d. stmt t (db s) = Inr (x, d) \<and> s' = s\<lparr>outcomes := os, now := t, db := d\<rparr>"
proof -
  obtain o1 s1 where o1: "run_state next_outcome s = (o1, s1)" by fastforce
  obtain os t where s1: "s1 = s\<lparr>outcomes := os, now := t\<rparr>"
    using next_outcome_frame [OF o1] by blast
  from assms o1 have "o1 = Done" and "\<exists>d. stmt (now s1) (db s1) = Inr (x, d) \<and> s' = s1\<lparr>db := d\<rparr>"
    by (auto simp: pg_exec_def split: outcome.splits sum.splits)
  then show ?thesis unfolding s1 by auto
qed

lemma pg_query_row_InrD:
  assumes "run_state (pg_query_row stmt) s = (Inr x, s')"
  shows "\<exists>t os d xs. stmt t (db s) = Inr (x # xs, d) \<and> s' = s\<lparr>outcomes := os, now := t, db := d\<rparr>"
proof -
  obtain r s1 where r: "run_state (pg_exec stmt) s = (r, s1)" and "s' = s1" "scan_one r = Inr x"
    using assms by (auto simp: pg_query_row_def split: prod.splits)
  then obtain xs where "r = Inr (x # xs)"
    by (auto simp: scan_one_def split: sum.splits list.splits)
  with pg_exec_InrD [of stmt s "x # xs" s1] r \<open>s' = s1\<close> show ?thesis by auto
qed

lemma pg_query_InrD:
  assumes "run_state (pg_query P sel) s = (Inr (rows, e), s')"
  shows "(\<exists>all n. sel (db s) = Inr all \<and> rows = take n all \<and> (e = None \<longrightarrow> rows = all)) \<or>
         (\<exists>c. sel (db s) = Inl c \<and> rows = [] \<and> e = Some (Pg c))"
    and "db s' = db s"
proof -
  show "db s' = db s" using keepsD [OF keeps_db_pg_query assms] .
  show "(\<exists>all n. sel (db s) = Inr all \<and> rows = take n all \<and> (e = None \<longrightarrow> rows = all)) \<or>
         (\<exists>c. sel (db s) = Inl c \<and> rows = [] \<and> e = Some (Pg c))"
    using assms
    by (auto simp: pg_query_def next_outcome_def
        split: list.splits prod.splits outcome.splits sum.splits if_splits)
       (metis order_refl take_all)+
qed

text \<open>The same for a call whose error is only wrapped.\<close>

lemma query_row_wrapped_InrD:
  assumes "run_state (do { r \<leftarrow> pg_query_row stmt; ret (wrap_err msg r) }) s = (Inr x, s')"
  shows "\<exists>t xs. stmt t (db s) = Inr (x # xs, db s')"
proof -
  from assms have "run_state (pg_query_row stmt) s = (Inr x, s')" by (auto split: prod.splits)
  from pg_query_row_InrD [OF this] obtain u os d xs where "stmt u (db s) = Inr (x # xs, d)"
    and "s' = s\<lparr>outcomes := os, now := u, db := d\<rparr>"
    by (elim exE conjE)
  then show ?thesis by (intro exI [of _ u] exI [of _ xs]) simp
qed

lemma exec_wrapped_InrD:
  assumes "run_state (do { r \<leftarrow> pg_exec stmt; ret (wrap_err msg r) }) s = (Inr x, s')"
  shows "\<exists>t. stmt t (db s) = Inr (x, db s')"
proof -
  from assms have "run_state (pg_exec stmt) s = (Inr x, s')" by (auto split: prod.splits)
  from pg_exec_InrD [OF this] obtain u os d where "stmt u (db s) = Inr (x, d)"
    and "s' = s\<lparr>outcomes := os, now := u, db := d\<rparr>"
    by (elim exE conjE)
  then show ?thesis by (intro exI [of _ u]) simp
qed

lemma pg_exec_Inl_Pg:
  assumes "run_state (pg_exec stmt) s = (Inl e, s')"
  shows "\<exists>c. e = Pg c"
proof -
  obtain o1 s1 where "run_state next_outcome s = (o1, s1)" by fastforce
  with assms show ?thesis
    by (auto simp: pg_exec_def split: outcome.splits sum.splits prod.splits)
qed

lemma pg_query_row_NoRowsD:
  assumes "run_state (pg_query_row stmt) s = (Inl NoRows, s')"
  shows "\<exists>t. stmt t (db s) = Inr ([], db s')"
proof -
  obtain r s1 where r: "run_state (pg_exec stmt) s = (r, s1)" and "s' = s1" "scan_one r = Inl NoRows"
    using assms by (auto simp: pg_query_row_def split: prod.splits)
  then have "r = Inr []"
    using pg_exec_Inl_Pg [of stmt s _ s1]
    by (fastforce simp: scan_one_def split: sum.splits list.splits)
  with r have "run_state (pg_exec stmt) s = (Inr [], s1)" by simp
  from pg_exec_InrD [OF this] obtain u os d where "stmt u (db s) = Inr ([], d)"
    and "s1 = s\<lparr>outcomes := os, now := u, db := d\<rparr>" by (elim exE conjE)
  with \<open>s' = s1\<close> show ?thesis by (intro exI [of _ u]) simp
qed

end
