(* ===== verification/Pagination.thy ===== *)
theory Pagination
  imports Postgres
begin

text \<open>
  Keyset pagination. Every list query of the services has the same shape: rows in the order of a
  unique key, of which a page shows the first \<open>limit\<close> after the cursor; the cursor for the next
  page is the key of the last row shown, as a text. The locale states what makes this work and
  shows once what every list promises: a client that follows the cursors sees every row exactly
  once, in order. The components interpret it with their queries.
\<close>

section \<open>A client that follows the cursors\<close>

fun follow_pages ::
  "nat \<Rightarrow> (string \<Rightarrow> ('s, go_error + ('r list \<times> string)) state) \<Rightarrow> string \<Rightarrow>
   ('s, go_error + 'r list) state" where
  "follow_pages 0 f cursor = ret (Inl (Errorf ''out of pages''))"
| "follow_pages (Suc n) f cursor = do {
     r \<leftarrow> f cursor;
     case r of
       Inl e \<Rightarrow> ret (Inl e)
     | Inr (rows, next) \<Rightarrow>
         if next = [] then ret (Inr rows)
         else do {
           rest \<leftarrow> follow_pages n f next;
           ret (map_sum id (\<lambda>rs. rows @ rs) rest)
         }
   }"

section \<open>The contract\<close>

locale keyset =
  fixes valid :: "'d \<Rightarrow> bool"
    and rows :: "'d \<Rightarrow> 'r list"
    and key :: "'r \<Rightarrow> string"
    and follows :: "'d \<Rightarrow> string \<Rightarrow> 'r \<Rightarrow> bool"
  assumes key_text: "valid d \<Longrightarrow> r \<in> set (rows d) \<Longrightarrow> key r \<noteq> []"
    and first_page: "follows d [] r"
    and next_page: "valid d \<Longrightarrow> rows d = xs @ r # ys \<Longrightarrow> filter (follows d (key r)) (rows d) = ys"
begin

definition page :: "'d \<Rightarrow> int \<Rightarrow> string \<Rightarrow> 'r list \<times> string" where
  "page d limit cursor =
     cut_page key limit (take (nat (limit + 1)) (filter (follows d cursor) (rows d)))"

lemma page_cases:
  assumes limit: "0 < limit" and ys: "filter (follows d cursor) (rows d) = ys"
  shows "page d limit cursor =
    (if nat limit < length ys then (take (nat limit) ys, key (ys ! (nat limit - 1))) else (ys, []))"
proof (cases "nat limit < length ys")
  case True
  then have "limit < int (length (take (nat (limit + 1)) ys))" using limit by auto
  with True limit show ?thesis
    by (simp add: page_def cut_page_def ys min_def nat_add_distrib)
next
  case False
  then have "take (nat (limit + 1)) ys = ys" "\<not> limit < int (length ys)" using limit by auto
  with False show ?thesis by (simp add: page_def cut_page_def ys)
qed

lemma follow_pages_from:
  assumes valid: "valid d" and limit: "0 < limit"
    and run: "\<And>cur. cur = [] \<or> cur \<in> key ` set (rows d) \<Longrightarrow>
      run_state (f cur) s = (Inr (page d limit cur), s)"
  shows "rows d = xs @ ys \<Longrightarrow> filter (follows d cur) (rows d) = ys \<Longrightarrow>
    cur = [] \<or> cur \<in> key ` set (rows d) \<Longrightarrow> length ys < n \<Longrightarrow>
    run_state (follow_pages n f cur) s = (Inr ys, s)"
proof (induction n arbitrary: xs ys cur)
  case 0
  then show ?case by simp
next
  case (Suc n)
  note page = page_cases [OF limit Suc.prems(2)]
  show ?case
  proof (cases "nat limit < length ys")
    case False
    with run [OF Suc.prems(3)] page show ?thesis by simp
  next
    case True
    define r where "r = ys ! (nat limit - 1)"
    have split: "ys = take (nat limit - 1) ys @ r # drop (nat limit) ys"
      using True limit id_take_nth_drop [of "nat limit - 1" ys] by (simp add: r_def)
    then have rows: "rows d = (xs @ take (nat limit - 1) ys) @ r # drop (nat limit) ys"
      using Suc.prems(1) by simp
    have r: "r \<in> set (rows d)" using rows by simp
    have "run_state (follow_pages n f (key r)) s = (Inr (drop (nat limit) ys), s)"
    proof (rule Suc.IH)
      show "rows d = (xs @ take (nat limit - 1) ys @ [r]) @ drop (nat limit) ys" using rows by simp
      show "filter (follows d (key r)) (rows d) = drop (nat limit) ys"
        by (rule next_page [OF valid rows])
      show "key r = [] \<or> key r \<in> key ` set (rows d)" using r by simp
      show "length (drop (nat limit) ys) < n" using Suc.prems(4) True limit by auto
    qed
    with run [OF Suc.prems(3)] page True key_text [OF valid r] show ?thesis
      using r_def by simp
  qed
qed

theorem follow_pages_all:
  assumes "valid d" and "0 < limit" and "length (rows d) < n"
    and "\<And>cur. cur = [] \<or> cur \<in> key ` set (rows d) \<Longrightarrow>
      run_state (f cur) s = (Inr (page d limit cur), s)"
  shows "run_state (follow_pages n f []) s = (Inr (rows d), s)"
  using follow_pages_from [OF assms(1,2,4), where xs = "[]" and cur = "[]"] assms(3)
  by (simp add: first_page)

end

text \<open>Rows whose keys strictly increase: after a row come those with a larger key.\<close>

lemma filter_after_sorted:
  fixes f :: "'r \<Rightarrow> 'k :: linorder"
  assumes "sorted_wrt (<) (map f (xs @ r # ys))"
  shows "filter (\<lambda>x. f r < f x) (xs @ r # ys) = ys"
proof -
  have "\<forall>x \<in> set xs. f x < f r" "\<forall>y \<in> set ys. f r < f y"
    using assms by (auto simp: sorted_wrt_append)
  then have "filter (\<lambda>x. f r < f x) xs = []" "filter (\<lambda>x. f r < f x) ys = ys"
    by (auto simp: filter_empty_conv filter_id_conv dest: less_asym)
  then show ?thesis by simp
qed

lemma sorted_sort_key_distinct:
  fixes f :: "'r \<Rightarrow> 'k :: linorder"
  assumes "distinct (map f xs)"
  shows "sorted_wrt (<) (map f (sort_key f xs))"
proof -
  have "distinct (map f (sort_key f xs))"
    using assms by (metis distinct_map distinct_sort set_sort)
  moreover have "sorted (map f (sort_key f xs))" by simp
  ultimately show ?thesis by (simp add: strict_sorted_iff)
qed

section \<open>Cursors\<close>

text \<open>What a cursor says: an identifier that Postgres reads, or a sequence number in decimal.\<close>

definition uuid_after :: "pg_env \<Rightarrow> string \<Rightarrow> string \<Rightarrow> bool" where
  "uuid_after P cursor x \<longleftrightarrow> cursor = [] \<or> (\<exists>c. uuid_in P cursor = Some c \<and> c < x)"

definition seq_before :: "string \<Rightarrow> int \<Rightarrow> bool" where
  "seq_before cursor n \<longleftrightarrow> cursor = [] \<or> (\<exists>k. parse_int64 cursor = Inr k \<and> n < k)"

lemma canonical_not_Nil: "pg_env_ok P \<Longrightarrow> uuid_in P x = Some y \<Longrightarrow> x \<noteq> []"
  using pg_env_okD(2) by force

lemma uuid_after_sorted:
  assumes "sorted_wrt (<) (map f (xs @ r # ys))" and "uuid_in P (f r) = Some (f r)" and "pg_env_ok P"
  shows "filter (\<lambda>x. uuid_after P (f r) (f x)) (xs @ r # ys) = ys"
proof -
  have "f r \<noteq> []" using assms(2,3) pg_env_okD(2) by force
  then have "(\<lambda>x. uuid_after P (f r) (f x)) = (\<lambda>x. f r < f x)"
    using assms(2) by (auto simp: uuid_after_def)
  then show ?thesis using filter_after_sorted [OF assms(1)] by simp
qed

lemma filter_before_sorted:
  fixes f :: "'r \<Rightarrow> 'k :: linorder"
  assumes "sorted_wrt (<) (map f (rev (xs @ r # ys)))"
  shows "filter (\<lambda>x. f x < f r) (xs @ r # ys) = ys"
proof -
  have "\<forall>x \<in> set xs. f r < f x" "\<forall>y \<in> set ys. f y < f r"
    using assms by (auto simp: sorted_wrt_append)
  then have "filter (\<lambda>x. f x < f r) xs = []" "filter (\<lambda>x. f x < f r) ys = ys"
    by (auto simp: filter_empty_conv filter_id_conv dest: less_asym)
  then show ?thesis by simp
qed

lemma seq_before_format:
  assumes "0 < q" and "q < 2 ^ 63"
  shows "seq_before (format_int q) n \<longleftrightarrow> n < q"
  using parse_int64_format_int [of q] assms by (simp add: seq_before_def)

text \<open>Users are in the tables under the identifiers Postgres prints.\<close>

definition users_canonical :: "pg_env \<Rightarrow> database \<Rightarrow> bool" where
  "users_canonical P d \<longleftrightarrow> (\<forall>u \<in> set (users d). uuid_in P (u_id u) = Some (u_id u))"

end
