(* ===== verification/Permissions.thy ===== *)
theory Permissions
  imports Postgres
begin

text \<open>
  \<open>backend/services/community-service/permissions.go\<close>: the bit masks of a role, the permissions
  a member has through its roles, and the test a handler makes.

  \<open>int64\<close> is \<open>64 word\<close>; the masks only use the ten low bits, so the sign never shows. The lemmas
  give the meaning of the loop with its early return (\<open>ComputePermissions_spec\<close>) and what the
  test then decides (\<open>HasPermission_ComputePermissions\<close>); more roles never take a permission
  away (\<open>permission_mono\<close>).
\<close>

unbundle bit_operations_syntax

definition PermissionAdministrator :: "64 word" where
  "PermissionAdministrator = push_bit 0 1"

definition PermissionManageCommunity :: "64 word" where
  "PermissionManageCommunity = push_bit 1 1"

definition PermissionManageChannels :: "64 word" where
  "PermissionManageChannels = push_bit 2 1"

definition PermissionManageRoles :: "64 word" where
  "PermissionManageRoles = push_bit 3 1"

definition PermissionKickMembers :: "64 word" where
  "PermissionKickMembers = push_bit 4 1"

definition PermissionBanMembers :: "64 word" where
  "PermissionBanMembers = push_bit 5 1"

definition PermissionManageMessages :: "64 word" where
  "PermissionManageMessages = push_bit 6 1"

definition PermissionSendMessages :: "64 word" where
  "PermissionSendMessages = push_bit 7 1"

definition PermissionReadMessages :: "64 word" where
  "PermissionReadMessages = push_bit 8 1"

definition PermissionAttachFiles :: "64 word" where
  "PermissionAttachFiles = push_bit 9 1"

lemmas permission_defs =
  PermissionAdministrator_def PermissionManageCommunity_def PermissionManageChannels_def
  PermissionManageRoles_def PermissionKickMembers_def PermissionBanMembers_def
  PermissionManageMessages_def PermissionSendMessages_def PermissionReadMessages_def
  PermissionAttachFiles_def

definition allPermissions :: "64 word" where
  "allPermissions =
     PermissionAdministrator OR PermissionManageCommunity OR PermissionManageChannels OR
     PermissionManageRoles OR PermissionKickMembers OR PermissionBanMembers OR
     PermissionManageMessages OR PermissionSendMessages OR PermissionReadMessages OR
     PermissionAttachFiles"

text \<open>The loop: the accumulated mask, left as soon as a role has the administrator bit.\<close>

fun permissions_loop :: "64 word \<Rightarrow> role_row list \<Rightarrow> 64 word" where
  "permissions_loop perms [] = perms"
| "permissions_loop perms (role # rest) =
     (if role_permissions role AND PermissionAdministrator \<noteq> 0 then allPermissions
      else permissions_loop (perms OR role_permissions role) rest)"

definition ComputePermissions :: "member_row \<Rightarrow> role_row list \<Rightarrow> string \<Rightarrow> 64 word" where
  "ComputePermissions member rs ownerID =
     (if mem_user_id member = ownerID then allPermissions else permissions_loop 0 rs)"

definition HasPermission :: "64 word \<Rightarrow> 64 word \<Rightarrow> bool" where
  "HasPermission computed required =
     (if computed AND PermissionAdministrator \<noteq> 0 then True else computed AND required \<noteq> 0)"

section \<open>What the masks mean\<close>

definition is_administrator :: "role_row \<Rightarrow> bool" where
  "is_administrator r \<longleftrightarrow> bit (role_permissions r) 0"

lemma and_mask: "w AND push_bit n (1 :: 64 word) \<noteq> 0 \<longleftrightarrow> n < 64 \<and> bit w n"
proof -
  have "w AND push_bit n (1 :: 64 word) = 0 \<longleftrightarrow> \<not> (n < 64 \<and> bit w n)"
    by (auto simp: bit_eq_iff [of _ "0 :: 64 word"] bit_and_iff bit_exp_iff possible_bit_word)
  then show ?thesis by blast
qed

lemma and_administrator: "w AND PermissionAdministrator \<noteq> 0 \<longleftrightarrow> bit w 0"
  unfolding PermissionAdministrator_def by (subst and_mask) simp

lemma and_or_zero: "(a OR b) AND c = 0 \<longleftrightarrow> a AND c = 0 \<and> b AND c = (0 :: 64 word)"
  by (auto simp: bit_eq_iff bit_and_iff bit_or_iff)

lemma allPermissions_bit: "bit allPermissions n \<longleftrightarrow> n < 10"
proof -
  have "allPermissions = mask 10"
    by (simp add: allPermissions_def permission_defs mask_eq_exp_minus_1 push_bit_eq_mult)
  then show ?thesis unfolding \<open>allPermissions = mask 10\<close> by (auto simp: bit_mask_iff possible_bit_word)
qed

lemma permissions_loop_spec:
  "permissions_loop perms rs AND c \<noteq> 0 \<longleftrightarrow>
     (if \<exists>r \<in> set rs. is_administrator r then allPermissions AND c \<noteq> 0
      else perms AND c \<noteq> 0 \<or> (\<exists>r \<in> set rs. role_permissions r AND c \<noteq> 0))"
  by (induction perms rs rule: permissions_loop.induct)
     (auto simp: is_administrator_def and_administrator and_or_zero split: if_splits)


text \<open>
  What the handler's test decides: an owner or a member with an administrator role has every
  permission of the table; anyone else has it exactly when some role's mask meets the required
  one.
\<close>

definition known_permission :: "64 word \<Rightarrow> bool" where
  "known_permission w \<longleftrightarrow> (\<exists>n < 10. w = push_bit n 1)"

lemma known_permission_all: "known_permission w \<Longrightarrow> allPermissions AND w \<noteq> 0"
  unfolding known_permission_def using and_mask allPermissions_bit by fastforce

lemma all_permissions_has: "known_permission w \<Longrightarrow> HasPermission allPermissions w"
  by (simp add: HasPermission_def known_permission_all)

lemma permissions_loop_administrator:
  "permissions_loop perms rs AND PermissionAdministrator \<noteq> 0 \<longleftrightarrow>
     bit perms 0 \<or> (\<exists>r \<in> set rs. is_administrator r)"
  by (induction perms rs rule: permissions_loop.induct)
     (auto simp: is_administrator_def and_administrator allPermissions_bit bit_or_iff)

lemma HasPermission_ComputePermissions:
  assumes "known_permission req"
  shows "HasPermission (ComputePermissions member rs ownerID) req \<longleftrightarrow>
     mem_user_id member = ownerID \<or>
     (\<exists>r \<in> set rs. is_administrator r \<or> role_permissions r AND req \<noteq> 0)"
proof (cases "mem_user_id member = ownerID")
  case True
  then show ?thesis by (simp add: ComputePermissions_def all_permissions_has assms)
next
  case False
  have "HasPermission (permissions_loop 0 rs) req \<longleftrightarrow>
      (\<exists>r \<in> set rs. is_administrator r \<or> role_permissions r AND req \<noteq> 0)"
    using permissions_loop_administrator [of 0 rs] permissions_loop_spec [of 0 rs req]
    by (auto simp: HasPermission_def known_permission_all [OF assms] split: if_splits)
  with False show ?thesis by (simp add: ComputePermissions_def)
qed

lemma permission_mono:
  "known_permission req \<Longrightarrow> set rs \<subseteq> set rs' \<Longrightarrow>
   HasPermission (ComputePermissions m rs ownerID) req \<Longrightarrow>
   HasPermission (ComputePermissions m rs' ownerID) req"
  by (auto simp: HasPermission_ComputePermissions)

lemma known_permissions [simp]:
  "known_permission PermissionManageCommunity" "known_permission PermissionManageChannels"
  "known_permission PermissionManageRoles" "known_permission PermissionKickMembers"
  "known_permission PermissionBanMembers" "known_permission PermissionManageMessages"
  "known_permission PermissionSendMessages" "known_permission PermissionReadMessages"
  "known_permission PermissionAttachFiles" "known_permission PermissionAdministrator"
  unfolding known_permission_def permission_defs by (rule exI, rule conjI [OF _ refl], simp)+

end
