(* ===== verification/CommunityRepo.thy ===== *)
theory CommunityRepo
  imports Postgres
begin

text \<open>
  \<open>backend/services/community-service/repository.go\<close>: every statement the community service
  sends, as a function \<open>sql_\<dots>\<close> on the tables, and every method of \<open>Repository\<close>, as a
  computation \<open>repo_\<dots>\<close> that sends it and turns the error the way the code does.

  The lemmas show, per statement, that it keeps the integrity of the tables or changes nothing
  at all, and what the rows it returns are.
\<close>

section \<open>Communities\<close>

definition new_community ::
  "pg_env \<Rightarrow> string \<Rightarrow> string \<Rightarrow> string \<Rightarrow> string \<Rightarrow> int \<Rightarrow> database \<Rightarrow> community_table_row" where
  "new_community P name description iconURL owner t d =
     \<lparr>comm_id = gen_uuid P (uuid_count d), comm_name = name,
      comm_description = description, comm_icon_url = iconURL, comm_owner_id = owner,
      comm_created_at = t, comm_updated_at = t, comm_is_public = True\<rparr>"

definition sql_insert_community ::
  "pg_env \<Rightarrow> string \<Rightarrow> string \<Rightarrow> string \<Rightarrow> string \<Rightarrow> community_row list stmt" where
  "sql_insert_community P name description iconURL ownerID t d =
     uuid_param P ownerID (\<lambda>owner.
       let r = new_community P name description iconURL owner t d
       in if has_community d (comm_id r) then Inl UniqueViolation
          else if \<not> has_user d owner then Inl ForeignKeyViolation
          else Inr ([community_row.truncate r],
                    d\<lparr>communities := communities d @ [r], uuid_count := Suc (uuid_count d)\<rparr>))"

lemma new_community_simps [simp]:
  "comm_id (new_community P n ds url u t d) = gen_uuid P (uuid_count d)"
  "comm_owner_id (new_community P n ds url u t d) = u"
  "comm_name (new_community P n ds url u t d) = n"
  "comm_is_public (new_community P n ds url u t d) = True"
  by (simp_all add: new_community_def)

lemma community_truncate_simps [simp]:
  "comm_id (community_row.truncate r) = comm_id r"
  "comm_owner_id (community_row.truncate r) = comm_owner_id r"
  "comm_name (community_row.truncate r) = comm_name r"
  by (simp_all add: community_row.truncate_def)

definition repo_CreateCommunity ::
  "pg_env \<Rightarrow> string \<Rightarrow> string \<Rightarrow> string \<Rightarrow> string \<Rightarrow>
   ('z infra_scheme, go_error + community_row) state" where
  "repo_CreateCommunity P name description iconURL ownerID = do {
     r \<leftarrow> pg_query_row (sql_insert_community P name description iconURL ownerID);
     ret (wrap_err ''create community'' r)
   }"

definition sql_select_community :: "pg_env \<Rightarrow> string \<Rightarrow> community_table_row list stmt" where
  "sql_select_community P communityID t d =
     uuid_param P communityID (\<lambda>c. Inr (filter (\<lambda>r. comm_id r = c) (communities d), d))"

definition repo_IsCommunityPublic ::
  "pg_env \<Rightarrow> string \<Rightarrow> ('z infra_scheme, go_error + bool) state" where
  "repo_IsCommunityPublic P communityID = do {
     r \<leftarrow> pg_query_row (sql_select_community P communityID);
     ret (map_sum id comm_is_public r)
   }"

definition repo_GetCommunity ::
  "pg_env \<Rightarrow> string \<Rightarrow> ('z infra_scheme, go_error + community_row) state" where
  "repo_GetCommunity P communityID = do {
     r \<leftarrow> pg_query_row (sql_select_community P communityID);
     ret (case r of
            Inr s \<Rightarrow> Inr (community_row.truncate s)
          | Inl NoRows \<Rightarrow> Inl (Errorf ''community not found'')
          | Inl e \<Rightarrow> Inl (Wrap ''query community'' e))
   }"

definition sql_update_community ::
  "pg_env \<Rightarrow> string \<Rightarrow> string \<Rightarrow> string \<Rightarrow> string \<Rightarrow> community_row list stmt" where
  "sql_update_community P communityID name description iconURL t d =
     uuid_param P communityID (\<lambda>c.
       let upd = (\<lambda>r. if comm_id r = c
                      then r\<lparr>comm_name := name, comm_description := description,
                             comm_icon_url := iconURL, comm_updated_at := t\<rparr>
                      else r);
           rows = map upd (communities d)
       in Inr (map community_row.truncate (filter (\<lambda>r. comm_id r = c) rows),
               d\<lparr>communities := rows\<rparr>))"

definition repo_UpdateCommunity ::
  "pg_env \<Rightarrow> string \<Rightarrow> string \<Rightarrow> string \<Rightarrow> string \<Rightarrow>
   ('z infra_scheme, go_error + community_row) state" where
  "repo_UpdateCommunity P communityID name description iconURL = do {
     r \<leftarrow> pg_query_row (sql_update_community P communityID name description iconURL);
     ret (wrap_err ''update community'' r)
   }"

definition sql_delete_community :: "pg_env \<Rightarrow> string \<Rightarrow> unit stmt" where
  "sql_delete_community P communityID t d =
     uuid_param P communityID (\<lambda>c. Inr ((), delete_community c d))"

definition repo_DeleteCommunity ::
  "pg_env \<Rightarrow> string \<Rightarrow> ('z infra_scheme, go_error + unit) state" where
  "repo_DeleteCommunity P communityID = do {
     r \<leftarrow> pg_exec (sql_delete_community P communityID);
     ret (wrap_err ''delete community'' r)
   }"

text \<open>
  The join on the members, in the order of the identifiers. With a cursor only the identifiers
  after it; the limit is one more than the page.
\<close>

definition sql_cursor ::
  "pg_env \<Rightarrow> string \<Rightarrow> (string option \<Rightarrow> pg_cause + 'a) \<Rightarrow> pg_cause + 'a" where
  "sql_cursor P cursor k =
     (if cursor = [] then k None else uuid_param P cursor (\<lambda>c. k (Some c)))"

definition after :: "string option \<Rightarrow> string \<Rightarrow> bool" where
  "after cursor x = (case cursor of None \<Rightarrow> True | Some c \<Rightarrow> c < x)"

definition user_communities :: "database \<Rightarrow> string \<Rightarrow> community_row list" where
  "user_communities d u =
     sort_key comm_id
       [community_row.truncate c. c \<leftarrow> communities d, m \<leftarrow> community_members d,
          mem_community_id m = comm_id c \<and> mem_user_id m = u]"

definition sql_list_communities ::
  "pg_env \<Rightarrow> string \<Rightarrow> int \<Rightarrow> string \<Rightarrow> database \<Rightarrow> pg_cause + community_row list" where
  "sql_list_communities P userID limit cursor d =
     uuid_param P userID (\<lambda>u. sql_cursor P cursor (\<lambda>c.
       Inr (take (nat (limit + 1)) (filter (\<lambda>r. after c (comm_id r)) (user_communities d u)))))"

definition repo_ListCommunitiesByUser ::
  "pg_env \<Rightarrow> string \<Rightarrow> int \<Rightarrow> string \<Rightarrow>
   ('z infra_scheme, go_error + (community_row list \<times> string)) state" where
  "repo_ListCommunitiesByUser P userID limit cursor = do {
     r \<leftarrow> pg_query P (sql_list_communities P userID limit cursor);
     ret (case r of
            Inl e \<Rightarrow> Inl (Wrap ''list communities'' e)
          | Inr (rows, _) \<Rightarrow> Inr (cut_page comm_id limit rows))
   }"

section \<open>Channels\<close>

definition new_channel ::
  "pg_env \<Rightarrow> string \<Rightarrow> string \<Rightarrow> string \<Rightarrow> string \<Rightarrow> int \<Rightarrow> int \<Rightarrow> database \<Rightarrow> channel_row" where
  "new_channel P c name topic channelType position t d =
     \<lparr>ch_id = gen_uuid P (uuid_count d), ch_community_id = c, ch_name = name,
      ch_topic = topic, ch_type = channelType, ch_position = position,
      ch_created_at = t, ch_updated_at = t\<rparr>"

definition sql_insert_channel ::
  "pg_env \<Rightarrow> string \<Rightarrow> string \<Rightarrow> string \<Rightarrow> string \<Rightarrow> int \<Rightarrow> channel_row list stmt" where
  "sql_insert_channel P communityID name topic channelType position t d =
     uuid_param P communityID (\<lambda>c.
       let r = new_channel P c name topic channelType position t d
       in if channelType \<noteq> ''text'' \<and> channelType \<noteq> ''announcement'' then Inl CheckViolation
          else if has_channel d (ch_id r) then Inl UniqueViolation
          else if \<not> has_community d c then Inl ForeignKeyViolation
          else Inr ([r], d\<lparr>channels := channels d @ [r], uuid_count := Suc (uuid_count d)\<rparr>))"

lemma new_channel_simps [simp]:
  "ch_id (new_channel P c n tp ty pos t d) = gen_uuid P (uuid_count d)"
  "ch_community_id (new_channel P c n tp ty pos t d) = c"
  "ch_name (new_channel P c n tp ty pos t d) = n"
  by (simp_all add: new_channel_def)

definition repo_CreateChannel ::
  "pg_env \<Rightarrow> string \<Rightarrow> string \<Rightarrow> string \<Rightarrow> string \<Rightarrow> int \<Rightarrow>
   ('z infra_scheme, go_error + channel_row) state" where
  "repo_CreateChannel P communityID name topic channelType position = do {
     r \<leftarrow> pg_query_row (sql_insert_channel P communityID name topic channelType position);
     ret (wrap_err ''create channel'' r)
   }"

definition sql_select_channel :: "pg_env \<Rightarrow> string \<Rightarrow> channel_row list stmt" where
  "sql_select_channel P channelID t d =
     uuid_param P channelID (\<lambda>c. Inr (filter (\<lambda>r. ch_id r = c) (channels d), d))"

definition repo_GetChannel ::
  "pg_env \<Rightarrow> string \<Rightarrow> ('z infra_scheme, go_error + channel_row) state" where
  "repo_GetChannel P channelID = do {
     r \<leftarrow> pg_query_row (sql_select_channel P channelID);
     ret (case r of
            Inr c \<Rightarrow> Inr c
          | Inl NoRows \<Rightarrow> Inl (Errorf ''channel not found'')
          | Inl e \<Rightarrow> Inl (Wrap ''query channel'' e))
   }"

definition sql_update_channel ::
  "pg_env \<Rightarrow> string \<Rightarrow> string \<Rightarrow> string \<Rightarrow> string \<Rightarrow> int \<Rightarrow> channel_row list stmt" where
  "sql_update_channel P channelID name topic channelType position t d =
     uuid_param P channelID (\<lambda>c.
       let upd = (\<lambda>r. if ch_id r = c
                      then r\<lparr>ch_name := name, ch_topic := topic, ch_type := channelType,
                             ch_position := position, ch_updated_at := t\<rparr>
                      else r);
           rows = map upd (channels d)
       in if channelType \<noteq> ''text'' \<and> channelType \<noteq> ''announcement'' \<and> has_channel d c
          then Inl CheckViolation
          else Inr (filter (\<lambda>r. ch_id r = c) rows, d\<lparr>channels := rows\<rparr>))"

definition repo_UpdateChannel ::
  "pg_env \<Rightarrow> string \<Rightarrow> string \<Rightarrow> string \<Rightarrow> string \<Rightarrow> int \<Rightarrow>
   ('z infra_scheme, go_error + channel_row) state" where
  "repo_UpdateChannel P channelID name topic channelType position = do {
     r \<leftarrow> pg_query_row (sql_update_channel P channelID name topic channelType position);
     ret (wrap_err ''update channel'' r)
   }"

definition sql_delete_channel :: "pg_env \<Rightarrow> string \<Rightarrow> unit stmt" where
  "sql_delete_channel P channelID t d =
     uuid_param P channelID (\<lambda>c. Inr ((), delete_channels (\<lambda>r. ch_id r = c) d))"

definition repo_DeleteChannel ::
  "pg_env \<Rightarrow> string \<Rightarrow> ('z infra_scheme, go_error + unit) state" where
  "repo_DeleteChannel P channelID = do {
     r \<leftarrow> pg_exec (sql_delete_channel P channelID);
     ret (wrap_err ''delete channel'' r)
   }"

definition sql_list_channels ::
  "pg_env \<Rightarrow> string \<Rightarrow> database \<Rightarrow> pg_cause + channel_row list" where
  "sql_list_channels P communityID d =
     uuid_param P communityID (\<lambda>c.
       Inr (sort_key ch_position (filter (\<lambda>r. ch_community_id r = c) (channels d))))"

definition repo_ListChannelsByCommunity ::
  "pg_env \<Rightarrow> string \<Rightarrow> ('z infra_scheme, go_error + channel_row list) state" where
  "repo_ListChannelsByCommunity P communityID = do {
     r \<leftarrow> pg_query P (sql_list_channels P communityID);
     ret (case r of
            Inl e \<Rightarrow> Inl (Wrap ''list channels'' e)
          | Inr (rows, _) \<Rightarrow> Inr rows)
   }"


section \<open>Members\<close>

text \<open>
  The nickname comes from the users, both when the row is inserted and when it is read. A row
  that is there already makes \<open>ON CONFLICT DO NOTHING\<close> return no row, and \<open>AddMember\<close> then
  reads it; \<open>GetMember\<close> returns a nil row without an error when there is none.
\<close>

definition user_nickname :: "database \<Rightarrow> string \<Rightarrow> string" where
  "user_nickname d u =
     (case find (\<lambda>x. u_id x = u) (users d) of None \<Rightarrow> [] | Some x \<Rightarrow> u_nickname x)"

definition sql_insert_member :: "pg_env \<Rightarrow> string \<Rightarrow> string \<Rightarrow> member_row list stmt" where
  "sql_insert_member P communityID userID t d =
     uuid_param P communityID (\<lambda>c. uuid_param P userID (\<lambda>u.
       let r = \<lparr>mem_community_id = c, mem_user_id = u, mem_nickname = user_nickname d u,
                mem_joined_at = t\<rparr>
       in if has_member d c u then Inr ([], d)
          else if \<not> has_community d c \<or> \<not> has_user d u then Inl ForeignKeyViolation
          else Inr ([r], d\<lparr>community_members := community_members d @ [r]\<rparr>)))"

definition with_nickname :: "database \<Rightarrow> member_row \<Rightarrow> member_row" where
  "with_nickname d m = m\<lparr>mem_nickname := user_nickname d (mem_user_id m)\<rparr>"

definition sql_select_member :: "pg_env \<Rightarrow> string \<Rightarrow> string \<Rightarrow> member_row list stmt" where
  "sql_select_member P communityID userID t d =
     uuid_param P communityID (\<lambda>c. uuid_param P userID (\<lambda>u.
       Inr (map (with_nickname d) (filter (\<lambda>m. member_key m = (c, u)) (community_members d)), d)))"

definition repo_GetMember ::
  "pg_env \<Rightarrow> string \<Rightarrow> string \<Rightarrow> ('z infra_scheme, go_error + member_row option) state" where
  "repo_GetMember P communityID userID = do {
     r \<leftarrow> pg_query_row (sql_select_member P communityID userID);
     ret (case r of
            Inr m \<Rightarrow> Inr (Some m)
          | Inl NoRows \<Rightarrow> Inr None
          | Inl e \<Rightarrow> Inl (Wrap ''get member'' e))
   }"

definition repo_AddMember ::
  "pg_env \<Rightarrow> string \<Rightarrow> string \<Rightarrow> ('z infra_scheme, go_error + member_row option) state" where
  "repo_AddMember P communityID userID = do {
     r \<leftarrow> pg_query_row (sql_insert_member P communityID userID);
     (case r of
        Inr m \<Rightarrow> ret (Inr (Some m))
      | Inl e \<Rightarrow>
          if e = NoRows then repo_GetMember P communityID userID
          else ret (Inl (Wrap ''add member'' e)))
   }"

definition sql_delete_member :: "pg_env \<Rightarrow> string \<Rightarrow> string \<Rightarrow> unit stmt" where
  "sql_delete_member P communityID userID t d =
     uuid_param P communityID (\<lambda>c. uuid_param P userID (\<lambda>u.
       Inr ((), delete_members (\<lambda>m. member_key m = (c, u)) d)))"

definition repo_RemoveMember ::
  "pg_env \<Rightarrow> string \<Rightarrow> string \<Rightarrow> ('z infra_scheme, go_error + unit) state" where
  "repo_RemoveMember P communityID userID = do {
     r \<leftarrow> pg_exec (sql_delete_member P communityID userID);
     ret (wrap_err ''remove member'' r)
   }"

definition community_member_list :: "database \<Rightarrow> string \<Rightarrow> member_row list" where
  "community_member_list d c =
     sort_key mem_user_id
       (map (with_nickname d) (filter (\<lambda>m. mem_community_id m = c) (community_members d)))"

definition sql_list_members ::
  "pg_env \<Rightarrow> string \<Rightarrow> int \<Rightarrow> string \<Rightarrow> database \<Rightarrow> pg_cause + member_row list" where
  "sql_list_members P communityID limit cursor d =
     uuid_param P communityID (\<lambda>c. sql_cursor P cursor (\<lambda>k.
       Inr (take (nat (limit + 1))
              (filter (\<lambda>m. after k (mem_user_id m)) (community_member_list d c)))))"

definition repo_ListMembersByCommunity ::
  "pg_env \<Rightarrow> string \<Rightarrow> int \<Rightarrow> string \<Rightarrow>
   ('z infra_scheme, go_error + (member_row list \<times> string)) state" where
  "repo_ListMembersByCommunity P communityID limit cursor = do {
     r \<leftarrow> pg_query P (sql_list_members P communityID limit cursor);
     ret (case r of
            Inl e \<Rightarrow> Inl (Wrap ''list members'' e)
          | Inr (rows, _) \<Rightarrow> Inr (cut_page mem_user_id limit rows))
   }"

section \<open>Roles\<close>

definition new_role ::
  "pg_env \<Rightarrow> string \<Rightarrow> string \<Rightarrow> int \<Rightarrow> 64 word \<Rightarrow> int \<Rightarrow> int \<Rightarrow> database \<Rightarrow> role_row" where
  "new_role P c name color permissions position t d =
     \<lparr>role_id = gen_uuid P (uuid_count d), role_community_id = c, role_name = name,
      role_color = color, role_permissions = permissions, role_position = position,
      role_created_at = t\<rparr>"

definition sql_insert_role ::
  "pg_env \<Rightarrow> string \<Rightarrow> string \<Rightarrow> int \<Rightarrow> 64 word \<Rightarrow> int \<Rightarrow> role_row list stmt" where
  "sql_insert_role P communityID name color permissions position t d =
     uuid_param P communityID (\<lambda>c.
       let r = new_role P c name color permissions position t d
       in if has_role d (role_id r) then Inl UniqueViolation
          else if \<not> has_community d c then Inl ForeignKeyViolation
          else Inr ([r], d\<lparr>roles := roles d @ [r], uuid_count := Suc (uuid_count d)\<rparr>))"

lemma new_role_simps [simp]:
  "role_id (new_role P c n col perm pos t d) = gen_uuid P (uuid_count d)"
  "role_community_id (new_role P c n col perm pos t d) = c"
  "role_name (new_role P c n col perm pos t d) = n"
  "role_permissions (new_role P c n col perm pos t d) = perm"
  by (simp_all add: new_role_def)

definition repo_CreateRole ::
  "pg_env \<Rightarrow> string \<Rightarrow> string \<Rightarrow> int \<Rightarrow> 64 word \<Rightarrow> int \<Rightarrow>
   ('z infra_scheme, go_error + role_row) state" where
  "repo_CreateRole P communityID name color permissions position = do {
     r \<leftarrow> pg_query_row (sql_insert_role P communityID name color permissions position);
     ret (wrap_err ''create role'' r)
   }"

definition sql_insert_member_role :: "pg_env \<Rightarrow> string \<Rightarrow> string \<Rightarrow> string \<Rightarrow> unit stmt" where
  "sql_insert_member_role P communityID userID roleID t d =
     uuid_param P communityID (\<lambda>c. uuid_param P userID (\<lambda>u. uuid_param P roleID (\<lambda>k.
       let r = \<lparr>mr_community_id = c, mr_user_id = u, mr_role_id = k\<rparr>
       in if r \<in> set (member_roles d) then Inr ((), d)
          else if \<not> has_member d c u \<or> \<not> has_role d k then Inl ForeignKeyViolation
          else Inr ((), d\<lparr>member_roles := member_roles d @ [r]\<rparr>))))"

definition repo_AssignRole ::
  "pg_env \<Rightarrow> string \<Rightarrow> string \<Rightarrow> string \<Rightarrow> ('z infra_scheme, go_error + unit) state" where
  "repo_AssignRole P communityID userID roleID = do {
     r \<leftarrow> pg_exec (sql_insert_member_role P communityID userID roleID);
     ret (wrap_err ''assign role'' r)
   }"

definition sql_select_default_role :: "pg_env \<Rightarrow> string \<Rightarrow> role_row list stmt" where
  "sql_select_default_role P communityID t d =
     uuid_param P communityID (\<lambda>c.
       Inr (filter (\<lambda>r. role_community_id r = c \<and> role_name r = ''@everyone'') (roles d), d))"

definition repo_GetDefaultRole ::
  "pg_env \<Rightarrow> string \<Rightarrow> ('z infra_scheme, go_error + role_row) state" where
  "repo_GetDefaultRole P communityID = do {
     r \<leftarrow> pg_query_row (sql_select_default_role P communityID);
     ret (wrap_err ''get default role'' r)
   }"

definition sql_list_roles :: "pg_env \<Rightarrow> string \<Rightarrow> database \<Rightarrow> pg_cause + role_row list" where
  "sql_list_roles P communityID d =
     uuid_param P communityID (\<lambda>c.
       Inr (sort_key role_position (filter (\<lambda>r. role_community_id r = c) (roles d))))"

definition repo_ListRolesByCommunity ::
  "pg_env \<Rightarrow> string \<Rightarrow> ('z infra_scheme, go_error + role_row list) state" where
  "repo_ListRolesByCommunity P communityID = do {
     r \<leftarrow> pg_query P (sql_list_roles P communityID);
     ret (case r of
            Inl e \<Rightarrow> Inl (Wrap ''list roles'' e)
          | Inr (rows, _) \<Rightarrow> Inr rows)
   }"

definition roles_of_member :: "database \<Rightarrow> string \<Rightarrow> string \<Rightarrow> role_row list" where
  "roles_of_member d c u =
     sort_key role_position
       [r. r \<leftarrow> roles d, mr \<leftarrow> member_roles d,
          mr_role_id mr = role_id r \<and> mr_community_id mr = c \<and> mr_user_id mr = u]"

definition sql_list_member_roles ::
  "pg_env \<Rightarrow> string \<Rightarrow> string \<Rightarrow> database \<Rightarrow> pg_cause + role_row list" where
  "sql_list_member_roles P communityID userID d =
     uuid_param P communityID (\<lambda>c. uuid_param P userID (\<lambda>u. Inr (roles_of_member d c u)))"

definition repo_ListMemberRoles ::
  "pg_env \<Rightarrow> string \<Rightarrow> string \<Rightarrow> ('z infra_scheme, go_error + role_row list) state" where
  "repo_ListMemberRoles P communityID userID = do {
     r \<leftarrow> pg_query P (sql_list_member_roles P communityID userID);
     ret (case r of
            Inl e \<Rightarrow> Inl (Wrap ''list member roles'' e)
          | Inr (rows, _) \<Rightarrow> Inr rows)
   }"

section \<open>Messages\<close>

text \<open>The identity column numbers the messages of all channels in the order of their insertion.\<close>

definition new_message ::
  "pg_env \<Rightarrow> string \<Rightarrow> string \<Rightarrow> string \<Rightarrow> int \<Rightarrow> database \<Rightarrow> channel_message_row" where
  "new_message P c a content t d =
     \<lparr>cm_id = gen_uuid P (uuid_count d), cm_channel_id = c, cm_author_id = a,
      cm_content = content, cm_created_at = t, cm_updated_at = t, cm_seq = next_message_seq d\<rparr>"

definition sql_insert_channel_message ::
  "pg_env \<Rightarrow> string \<Rightarrow> string \<Rightarrow> string \<Rightarrow> channel_message_row list stmt" where
  "sql_insert_channel_message P channelID authorID content t d =
     uuid_param P channelID (\<lambda>c. uuid_param P authorID (\<lambda>a.
       let r = new_message P c a content t d
       in if cm_id r \<in> cm_id ` set (channel_messages d) then Inl UniqueViolation
          else if \<not> has_channel d c \<or> \<not> has_user d a then Inl ForeignKeyViolation
          else Inr ([r], d\<lparr>channel_messages := channel_messages d @ [r],
                            next_message_seq := next_message_seq d + 1,
                            uuid_count := Suc (uuid_count d)\<rparr>)))"

lemma new_message_simps [simp]:
  "cm_id (new_message P c a content t d) = gen_uuid P (uuid_count d)"
  "cm_channel_id (new_message P c a content t d) = c"
  "cm_author_id (new_message P c a content t d) = a"
  "cm_content (new_message P c a content t d) = content"
  "cm_created_at (new_message P c a content t d) = t"
  "cm_updated_at (new_message P c a content t d) = t"
  "cm_seq (new_message P c a content t d) = next_message_seq d"
  by (simp_all add: new_message_def)

definition repo_InsertChannelMessage ::
  "pg_env \<Rightarrow> string \<Rightarrow> string \<Rightarrow> string \<Rightarrow>
   ('z infra_scheme, go_error + channel_message_row) state" where
  "repo_InsertChannelMessage P channelID authorID content = do {
     r \<leftarrow> pg_query_row (sql_insert_channel_message P channelID authorID content);
     ret (wrap_err ''insert channel message'' r)
   }"

definition sql_select_message_author :: "pg_env \<Rightarrow> string \<Rightarrow> string list stmt" where
  "sql_select_message_author P messageID t d =
     uuid_param P messageID (\<lambda>m.
       Inr (map cm_author_id (filter (\<lambda>r. cm_id r = m) (channel_messages d)), d))"

definition repo_GetChannelMessageAuthor ::
  "pg_env \<Rightarrow> string \<Rightarrow> ('z infra_scheme, go_error + string) state" where
  "repo_GetChannelMessageAuthor P messageID = do {
     r \<leftarrow> pg_query_row (sql_select_message_author P messageID);
     ret (wrap_err ''get channel message author'' r)
   }"

text \<open>\<open>Exec\<close> returns how many rows the statement deleted.\<close>

definition sql_delete_channel_message :: "pg_env \<Rightarrow> string \<Rightarrow> nat stmt" where
  "sql_delete_channel_message P messageID t d =
     uuid_param P messageID (\<lambda>m.
       Inr (length (filter (\<lambda>r. cm_id r = m) (channel_messages d)),
            d\<lparr>channel_messages := filter (\<lambda>r. cm_id r \<noteq> m) (channel_messages d)\<rparr>))"

definition repo_DeleteChannelMessage ::
  "pg_env \<Rightarrow> string \<Rightarrow> ('z infra_scheme, go_error + unit) state" where
  "repo_DeleteChannelMessage P messageID = do {
     r \<leftarrow> pg_exec (sql_delete_channel_message P messageID);
     ret (case r of
            Inl e \<Rightarrow> Inl (Wrap ''delete channel message'' e)
          | Inr n \<Rightarrow> if n = 0 then Inl (Errorf ''message not found'') else Inr ())
   }"

definition sql_update_channel_message ::
  "pg_env \<Rightarrow> string \<Rightarrow> string \<Rightarrow> channel_message_row list stmt" where
  "sql_update_channel_message P messageID content t d =
     uuid_param P messageID (\<lambda>m.
       let upd = (\<lambda>r. if cm_id r = m
                      then r\<lparr>cm_content := content,
                             cm_updated_at := max t (cm_created_at r + 1000000)\<rparr>
                      else r);
           rows = map upd (channel_messages d)
       in Inr (filter (\<lambda>r. cm_id r = m) rows, d\<lparr>channel_messages := rows\<rparr>))"

definition repo_UpdateChannelMessage ::
  "pg_env \<Rightarrow> string \<Rightarrow> string \<Rightarrow> ('z infra_scheme, go_error + channel_message_row) state" where
  "repo_UpdateChannelMessage P messageID content = do {
     r \<leftarrow> pg_query_row (sql_update_channel_message P messageID content);
     ret (wrap_err ''update channel message'' r)
   }"

definition messages_of_channel :: "database \<Rightarrow> string \<Rightarrow> channel_message_row list" where
  "messages_of_channel d c =
     sort_key cm_seq (filter (\<lambda>m. cm_channel_id m = c) (channel_messages d))"

text \<open>The history, newest first: the page before the sequence number in the cursor.\<close>

definition before :: "int option \<Rightarrow> int \<Rightarrow> bool" where
  "before cursor n = (case cursor of None \<Rightarrow> True | Some k \<Rightarrow> n < k)"

definition sql_channel_messages ::
  "pg_env \<Rightarrow> string \<Rightarrow> int \<Rightarrow> int option \<Rightarrow> database \<Rightarrow> pg_cause + channel_message_row list" where
  "sql_channel_messages P channelID limit cursor d =
     uuid_param P channelID (\<lambda>c.
       Inr (take (nat (limit + 1))
              (filter (\<lambda>m. before cursor (cm_seq m)) (rev (messages_of_channel d c)))))"

definition repo_GetChannelMessages ::
  "pg_env \<Rightarrow> string \<Rightarrow> int \<Rightarrow> string \<Rightarrow>
   ('z infra_scheme, go_error + (channel_message_row list \<times> string)) state" where
  "repo_GetChannelMessages P channelID limit cursor =
     (case (if cursor = [] then Inr None else map_sum id Some (parse_int64 cursor)) of
        Inl e \<Rightarrow> ret (Inl (Wrap ''invalid cursor'' e))
      | Inr k \<Rightarrow> do {
          r \<leftarrow> pg_query P (sql_channel_messages P channelID limit k);
          ret (case r of
                 Inl e \<Rightarrow> Inl (Wrap ''get channel messages'' e)
               | Inr (rows, _) \<Rightarrow> Inr (cut_page (\<lambda>m. format_int (cm_seq m)) limit rows))
        })"

text \<open>The messages after a sequence number, oldest first.\<close>

definition sql_channel_messages_since ::
  "pg_env \<Rightarrow> string \<Rightarrow> int \<Rightarrow> int \<Rightarrow> database \<Rightarrow> pg_cause + channel_message_row list" where
  "sql_channel_messages_since P channelID sinceSeq limit d =
     uuid_param P channelID (\<lambda>c.
       Inr (take (nat limit) (filter (\<lambda>m. cm_seq m > sinceSeq) (messages_of_channel d c))))"

definition repo_GetChannelMessagesSince ::
  "pg_env \<Rightarrow> string \<Rightarrow> int \<Rightarrow> int \<Rightarrow>
   ('z infra_scheme, go_error + channel_message_row list) state" where
  "repo_GetChannelMessagesSince P channelID sinceSeq limit0 =
     (let limit = (if limit0 \<le> 0 then 200 else limit0) in do {
        r \<leftarrow> pg_query P (sql_channel_messages_since P channelID sinceSeq limit);
        ret (case r of
               Inl e \<Rightarrow> Inl (Wrap ''get channel messages since'' e)
             | Inr (rows, _) \<Rightarrow> Inr rows)
      })"

section \<open>Attachments\<close>

definition sql_list_attachments ::
  "pg_env \<Rightarrow> string \<Rightarrow> string \<Rightarrow> database \<Rightarrow> pg_cause + attachment_row list" where
  "sql_list_attachments P messageType messageID d =
     uuid_param P messageID (\<lambda>m.
       Inr (map (\<lambda>a. case find (\<lambda>f. fm_id f = att_file_id a) (file_metadata d) of
                       None \<Rightarrow> a\<lparr>att_filename := [], att_content_type := [], att_size := 0\<rparr>
                     | Some f \<Rightarrow> a\<lparr>att_filename := fm_filename f,
                                   att_content_type := fm_content_type f, att_size := fm_size f\<rparr>)
              (filter (\<lambda>a. att_message_type a = messageType \<and> att_message_id a = m)
                 (attachments d))))"

definition repo_GetAttachmentsByMessage ::
  "pg_env \<Rightarrow> string \<Rightarrow> string \<Rightarrow> ('z infra_scheme, go_error + attachment_row list) state" where
  "repo_GetAttachmentsByMessage P messageType messageID = do {
     r \<leftarrow> pg_query P (sql_list_attachments P messageType messageID);
     ret (case r of
            Inl e \<Rightarrow> Inl (Wrap ''get attachments'' e)
          | Inr (rows, _) \<Rightarrow> Inr rows)
   }"

definition sql_insert_attachment :: "pg_env \<Rightarrow> attachment_row \<Rightarrow> unit stmt" where
  "sql_insert_attachment P a t d =
     uuid_param P (att_message_id a) (\<lambda>m. uuid_param P (att_file_id a) (\<lambda>f.
       let r = a\<lparr>att_id := gen_uuid P (uuid_count d), att_message_id := m, att_file_id := f\<rparr>
       in if att_id r \<in> att_id ` set (attachments d) then Inl UniqueViolation
          else if f \<notin> fm_id ` set (file_metadata d) then Inl ForeignKeyViolation
          else Inr ((), d\<lparr>attachments := attachments d @ [r], uuid_count := Suc (uuid_count d)\<rparr>)))"

text \<open>One statement per attachment; the first that fails ends the loop.\<close>

fun repo_InsertAttachments ::
  "pg_env \<Rightarrow> attachment_row list \<Rightarrow> ('z infra_scheme, go_error + unit) state" where
  "repo_InsertAttachments P [] = ret (Inr ())"
| "repo_InsertAttachments P (a # as) = do {
     r \<leftarrow> pg_exec (sql_insert_attachment P a);
     (case r of
        Inl e \<Rightarrow> ret (Inl (Wrap ''insert attachment'' e))
      | Inr _ \<Rightarrow> repo_InsertAttachments P as)
   }"

section \<open>Cached values\<close>

text \<open>
  \<open>json.Marshal\<close> of the rows and back. The structs have no tags, so a key is the name of its
  field; a nil slice is written as \<open>null\<close>.
\<close>

definition json_of_list :: "('a \<Rightarrow> json) \<Rightarrow> 'a list \<Rightarrow> json" where
  "json_of_list f xs = (if xs = [] then JNull else JArr (map f xs))"

definition MarshalCommunity :: "community_row \<Rightarrow> json" where
  "MarshalCommunity c =
     JObj [(''ID'', JStr (comm_id c)), (''Name'', JStr (comm_name c)),
           (''Description'', JStr (comm_description c)), (''IconURL'', JStr (comm_icon_url c)),
           (''OwnerID'', JStr (comm_owner_id c)), (''CreatedAt'', JTime (comm_created_at c)),
           (''UpdatedAt'', JTime (comm_updated_at c))]"

definition UnmarshalCommunity :: "json \<Rightarrow> go_error + community_row" where
  "UnmarshalCommunity j =
     (if \<not> json_is_object j then Inl JsonError else
      sum_bind (json_str (json_field j ''ID'')) (\<lambda>i.
      sum_bind (json_str (json_field j ''Name'')) (\<lambda>n.
      sum_bind (json_str (json_field j ''Description'')) (\<lambda>ds.
      sum_bind (json_str (json_field j ''IconURL'')) (\<lambda>url.
      sum_bind (json_str (json_field j ''OwnerID'')) (\<lambda>own.
      sum_bind (json_time (json_field j ''CreatedAt'')) (\<lambda>cr.
      sum_bind (json_time (json_field j ''UpdatedAt'')) (\<lambda>up.
        Inr \<lparr>comm_id = i, comm_name = n, comm_description = ds, comm_icon_url = url,
             comm_owner_id = own, comm_created_at = cr, comm_updated_at = up\<rparr>))))))))"

definition marshal_member :: "member_row \<Rightarrow> json" where
  "marshal_member m =
     JObj [(''CommunityID'', JStr (mem_community_id m)), (''UserID'', JStr (mem_user_id m)),
           (''Nickname'', JStr (mem_nickname m)), (''JoinedAt'', JTime (mem_joined_at m))]"

definition unmarshal_member :: "json \<Rightarrow> go_error + member_row" where
  "unmarshal_member j =
     (if \<not> json_is_object j then Inl JsonError else
      sum_bind (json_str (json_field j ''CommunityID'')) (\<lambda>c.
      sum_bind (json_str (json_field j ''UserID'')) (\<lambda>u.
      sum_bind (json_str (json_field j ''Nickname'')) (\<lambda>n.
      sum_bind (json_time (json_field j ''JoinedAt'')) (\<lambda>t.
        Inr \<lparr>mem_community_id = c, mem_user_id = u, mem_nickname = n, mem_joined_at = t\<rparr>)))))"

definition MarshalMembers :: "member_row list \<Rightarrow> json" where
  "MarshalMembers = json_of_list marshal_member"

definition UnmarshalMembers :: "json \<Rightarrow> go_error + member_row list" where
  "UnmarshalMembers = json_arr unmarshal_member"

text \<open>The permissions are an \<open>int64\<close>, written as a signed number.\<close>

definition marshal_role :: "role_row \<Rightarrow> json" where
  "marshal_role r =
     JObj [(''ID'', JStr (role_id r)), (''CommunityID'', JStr (role_community_id r)),
           (''Name'', JStr (role_name r)), (''Color'', JNum (role_color r)),
           (''Permissions'', JNum (sint (role_permissions r))),
           (''Position'', JNum (role_position r)), (''CreatedAt'', JTime (role_created_at r))]"

definition unmarshal_role :: "json \<Rightarrow> go_error + role_row" where
  "unmarshal_role j =
     (if \<not> json_is_object j then Inl JsonError else
      sum_bind (json_str (json_field j ''ID'')) (\<lambda>i.
      sum_bind (json_str (json_field j ''CommunityID'')) (\<lambda>c.
      sum_bind (json_str (json_field j ''Name'')) (\<lambda>n.
      sum_bind (json_int (json_field j ''Color'')) (\<lambda>col.
      sum_bind (json_int (json_field j ''Permissions'')) (\<lambda>perms.
      sum_bind (json_int (json_field j ''Position'')) (\<lambda>pos.
      sum_bind (json_time (json_field j ''CreatedAt'')) (\<lambda>t.
        Inr \<lparr>role_id = i, role_community_id = c, role_name = n, role_color = col,
             role_permissions = word_of_int perms, role_position = pos,
             role_created_at = t\<rparr>))))))))"

definition MarshalRoles :: "role_row list \<Rightarrow> json" where
  "MarshalRoles = json_of_list marshal_role"

definition UnmarshalRoles :: "json \<Rightarrow> go_error + role_row list" where
  "UnmarshalRoles = json_arr unmarshal_role"

lemmas marshal_defs = json_field_def json_is_object_def json_of_list_def

lemma UnmarshalCommunity_MarshalCommunity [simp]:
  "UnmarshalCommunity (MarshalCommunity c) = Inr c"
  by (simp add: UnmarshalCommunity_def MarshalCommunity_def marshal_defs)

lemma json_arr_json_of_list [simp]:
  "(\<And>x. f (g x) = Inr x) \<Longrightarrow> json_arr f (json_of_list g xs) = Inr xs"
  by (simp add: json_of_list_def)

lemma UnmarshalMembers_MarshalMembers [simp]: "UnmarshalMembers (MarshalMembers ms) = Inr ms"
proof -
  have "unmarshal_member (marshal_member m) = Inr m" for m
    by (simp add: unmarshal_member_def marshal_member_def marshal_defs)
  then show ?thesis by (simp add: UnmarshalMembers_def MarshalMembers_def)
qed

lemma UnmarshalRoles_MarshalRoles [simp]: "UnmarshalRoles (MarshalRoles rs) = Inr rs"
proof -
  have "unmarshal_role (marshal_role r) = Inr r" for r
    by (simp add: unmarshal_role_def marshal_role_def marshal_defs)
  then show ?thesis by (simp add: UnmarshalRoles_def MarshalRoles_def)
qed

section \<open>What the statements keep\<close>

named_theorems community_reads "statements that change nothing"
named_theorems community_keeps "statements that keep integrity"
named_theorems community_owners "statements that let owners evolve"

text \<open>Every statement takes its UUID parameters apart first.\<close>

lemma uuid_param_Inr: "uuid_param P s k = Inr x \<longleftrightarrow> (\<exists>c. uuid_in P s = Some c \<and> k c = Inr x)"
  by (simp add: uuid_param_def split: option.splits)

lemmas stmt_cases = uuid_param_Inr Let_def

lemma sql_insert_community_InrD:
  "sql_insert_community P n ds url u t d = Inr (xs, d') \<Longrightarrow>
   \<exists>owner. uuid_in P u = Some owner \<and> has_user d owner \<and>
     \<not> has_community d (gen_uuid P (uuid_count d)) \<and>
     xs = [community_row.truncate (new_community P n ds url owner t d)] \<and>
     d' = d\<lparr>communities := communities d @ [new_community P n ds url owner t d],
            uuid_count := Suc (uuid_count d)\<rparr>"
  by (auto simp: sql_insert_community_def stmt_cases split: if_splits)

lemma sql_insert_channel_InrD:
  "sql_insert_channel P communityID n tp ty pos t d = Inr (xs, d') \<Longrightarrow>
   \<exists>c. uuid_in P communityID = Some c \<and> has_community d c \<and>
     \<not> has_channel d (gen_uuid P (uuid_count d)) \<and> xs = [new_channel P c n tp ty pos t d] \<and>
     d' = d\<lparr>channels := channels d @ [new_channel P c n tp ty pos t d],
            uuid_count := Suc (uuid_count d)\<rparr>"
  by (auto simp: sql_insert_channel_def stmt_cases split: if_splits)

lemma sql_insert_role_InrD:
  "sql_insert_role P communityID n col perm pos t d = Inr (xs, d') \<Longrightarrow>
   \<exists>c. uuid_in P communityID = Some c \<and> has_community d c \<and>
     \<not> has_role d (gen_uuid P (uuid_count d)) \<and> xs = [new_role P c n col perm pos t d] \<and>
     d' = d\<lparr>roles := roles d @ [new_role P c n col perm pos t d],
            uuid_count := Suc (uuid_count d)\<rparr>"
  by (auto simp: sql_insert_role_def stmt_cases split: if_splits)

lemma sql_insert_channel_message_InrD:
  "sql_insert_channel_message P channelID authorID content t d = Inr (xs, d') \<Longrightarrow>
   \<exists>c a. uuid_in P channelID = Some c \<and> uuid_in P authorID = Some a \<and> has_channel d c \<and>
     has_user d a \<and> xs = [new_message P c a content t d] \<and>
     d' = d\<lparr>channel_messages := channel_messages d @ [new_message P c a content t d],
            next_message_seq := next_message_seq d + 1, uuid_count := Suc (uuid_count d)\<rparr>"
  by (auto simp: sql_insert_channel_message_def stmt_cases split: if_splits)

lemma sql_insert_member_InrD:
  "sql_insert_member P communityID userID t d = Inr (xs, d') \<Longrightarrow>
   \<exists>c u. uuid_in P communityID = Some c \<and> uuid_in P userID = Some u \<and> has_member d' c u \<and>
     (xs = [] \<and> d' = d \<or>
      (\<exists>m. xs = [m] \<and> member_key m = (c, u) \<and>
         d' = d\<lparr>community_members := community_members d @ [m]\<rparr>))"
  by (auto simp: sql_insert_member_def stmt_cases has_member_def member_key_def split: if_splits)

lemma sql_insert_member_role_InrD:
  "sql_insert_member_role P communityID userID roleID t d = Inr (x, d') \<Longrightarrow>
   \<exists>c u k. uuid_in P communityID = Some c \<and> uuid_in P userID = Some u \<and> uuid_in P roleID = Some k \<and>
     (\<lparr>mr_community_id = c, mr_user_id = u, mr_role_id = k\<rparr> \<in> set (member_roles d) \<and> d' = d \<or>
      d' = d\<lparr>member_roles :=
        member_roles d @ [\<lparr>mr_community_id = c, mr_user_id = u, mr_role_id = k\<rparr>]\<rparr>)"
  by (auto simp: sql_insert_member_role_def stmt_cases split: if_splits)

lemma sql_delete_member_InrD:
  "sql_delete_member P communityID userID t d = Inr (x, d') \<Longrightarrow>
   \<exists>c u. uuid_in P communityID = Some c \<and> uuid_in P userID = Some u \<and>
     d' = delete_members (\<lambda>m. member_key m = (c, u)) d"
  by (auto simp: sql_delete_member_def stmt_cases)

lemma sql_select_community_reads [community_reads]: "reads_only (sql_select_community P c)"
  by (auto simp: reads_only_def sql_select_community_def stmt_cases)

lemma sql_select_channel_reads [community_reads]: "reads_only (sql_select_channel P c)"
  by (auto simp: reads_only_def sql_select_channel_def stmt_cases)

lemma sql_select_member_reads [community_reads]: "reads_only (sql_select_member P c u)"
  by (auto simp: reads_only_def sql_select_member_def stmt_cases)

lemma sql_select_default_role_reads [community_reads]: "reads_only (sql_select_default_role P c)"
  by (auto simp: reads_only_def sql_select_default_role_def stmt_cases)

lemma sql_select_message_author_reads [community_reads]: "reads_only (sql_select_message_author P m)"
  by (auto simp: reads_only_def sql_select_message_author_def stmt_cases)

lemma sql_insert_community_keeps [community_keeps]:
  "stmt_keeps db_ok (sql_insert_community P n ds url u)"
  by (rule stmt_keepsI)
     (auto simp: sql_insert_community_def stmt_cases split: if_splits intro!: db_ok_add_community)

lemma sql_update_community_keeps [community_keeps]:
  "stmt_keeps db_ok (sql_update_community P c n ds url)"
  by (rule stmt_keepsI)
     (auto simp: sql_update_community_def stmt_cases map_if_key simp del: map_map
       intro!: db_ok_update_communities)

lemma sql_delete_community_keeps [community_keeps]:
  "stmt_keeps db_ok (sql_delete_community P c)"
  by (rule stmt_keepsI) (auto simp: sql_delete_community_def stmt_cases intro!: delete_community_ok)

lemma sql_insert_channel_keeps [community_keeps]:
  "stmt_keeps db_ok (sql_insert_channel P c n tp ty pos)"
  by (rule stmt_keepsI)
     (auto simp: sql_insert_channel_def stmt_cases split: if_splits intro!: db_ok_add_channel)

lemma sql_update_channel_keeps [community_keeps]:
  "stmt_keeps db_ok (sql_update_channel P c n tp ty pos)"
  by (rule stmt_keepsI)
     (auto simp: sql_update_channel_def stmt_cases map_if_key simp del: map_map split: if_splits
       intro!: db_ok_update_channels)

lemma sql_delete_channel_keeps [community_keeps]: "stmt_keeps db_ok (sql_delete_channel P c)"
  by (rule stmt_keepsI) (auto simp: sql_delete_channel_def stmt_cases intro!: delete_channels_ok)

lemma sql_insert_member_keeps [community_keeps]: "stmt_keeps db_ok (sql_insert_member P c u)"
  by (rule stmt_keepsI)
     (auto simp: sql_insert_member_def stmt_cases split: if_splits intro!: db_ok_add_member)

lemma sql_delete_member_keeps [community_keeps]: "stmt_keeps db_ok (sql_delete_member P c u)"
  by (rule stmt_keepsI) (auto simp: sql_delete_member_def stmt_cases intro!: delete_members_ok)

lemma sql_insert_role_keeps [community_keeps]:
  "stmt_keeps db_ok (sql_insert_role P c n col perm pos)"
  by (rule stmt_keepsI)
     (auto simp: sql_insert_role_def stmt_cases split: if_splits intro!: db_ok_add_role)

lemma sql_insert_member_role_keeps [community_keeps]:
  "stmt_keeps db_ok (sql_insert_member_role P c u r)"
  by (rule stmt_keepsI)
     (auto simp: sql_insert_member_role_def stmt_cases split: if_splits
       intro!: db_ok_add_member_role)

lemma sql_insert_channel_message_keeps [community_keeps]:
  "stmt_keeps db_ok (sql_insert_channel_message P c a m)"
  by (rule stmt_keepsI)
     (auto simp: sql_insert_channel_message_def stmt_cases split: if_splits
       intro!: db_ok_add_message)

lemma sql_delete_channel_message_keeps [community_keeps]:
  "stmt_keeps db_ok (sql_delete_channel_message P m)"
  by (rule stmt_keepsI)
     (auto simp: sql_delete_channel_message_def stmt_cases intro!: db_ok_drop_message)

lemma sql_update_channel_message_keeps [community_keeps]:
  "stmt_keeps db_ok (sql_update_channel_message P m c)"
  by (rule stmt_keepsI)
     (auto simp: sql_update_channel_message_def stmt_cases map_if_key simp del: map_map
       intro!: db_ok_update_messages)

lemma sql_insert_attachment_keeps [community_keeps]: "stmt_keeps db_ok (sql_insert_attachment P a)"
  by (rule stmt_keepsI)
     (auto simp: sql_insert_attachment_def stmt_cases split: if_splits intro!: db_ok_add_attachment)

text \<open>
  The owner of a community never changes; a community with an owner it did not have before is a
  new one, under an identifier \<open>gen_random_uuid\<close> has returned in between.
\<close>

definition owner_of :: "database \<Rightarrow> string \<Rightarrow> string option" where
  "owner_of d c = map_option comm_owner_id (find (\<lambda>r. comm_id r = c) (communities d))"

definition owners_evolve :: "pg_env \<Rightarrow> database \<Rightarrow> database \<Rightarrow> bool" where
  "owners_evolve P d d' \<longleftrightarrow>
     uuid_count d \<le> uuid_count d' \<and>
     (\<forall>c u. owner_of d' c = Some u \<longrightarrow>
        owner_of d c = Some u \<or>
        (\<exists>n. uuid_count d \<le> n \<and> n < uuid_count d' \<and> c = gen_uuid P n))"

lemma owners_evolve_refl [simp]: "owners_evolve P d d"
  by (simp add: owners_evolve_def)

lemma owners_evolve_trans:
  assumes "owners_evolve P a b" and "owners_evolve P b c"
  shows "owners_evolve P a c"
  unfolding owners_evolve_def
proof (intro conjI allI impI)
  have le: "uuid_count a \<le> uuid_count b" "uuid_count b \<le> uuid_count c"
    using assms by (auto simp: owners_evolve_def)
  then show "uuid_count a \<le> uuid_count c" by simp
  fix x u assume "owner_of c x = Some u"
  then consider "owner_of b x = Some u" |
    n where "uuid_count b \<le> n" "n < uuid_count c" "x = gen_uuid P n"
    using assms(2) by (auto simp: owners_evolve_def)
  then show "owner_of a x = Some u \<or>
      (\<exists>n. uuid_count a \<le> n \<and> n < uuid_count c \<and> x = gen_uuid P n)"
  proof cases
    case 1
    then consider "owner_of a x = Some u" |
      n where "uuid_count a \<le> n" "n < uuid_count b" "x = gen_uuid P n"
      using assms(1) by (auto simp: owners_evolve_def)
    then show ?thesis using le by cases (auto intro: less_le_trans)
  next
    case (2 n)
    then have "uuid_count a \<le> n" using le by simp
    with 2 show ?thesis by blast
  qed
qed

lemma owners_evolve_same:
  "communities d' = communities d \<Longrightarrow> uuid_count d \<le> uuid_count d' \<Longrightarrow> owners_evolve P d d'"
  by (simp add: owners_evolve_def owner_of_def)

lemma find_append: "find Q (xs @ ys) = (case find Q xs of None \<Rightarrow> find Q ys | Some x \<Rightarrow> Some x)"
  by (induction xs) auto

lemma find_map_if:
  "(\<And>x. f (g x) = f x) \<Longrightarrow> (\<And>x. h (g x) = h x) \<Longrightarrow>
   map_option h (find (\<lambda>x. f x = c) (map (\<lambda>x. if Q x then g x else x) xs)) =
   map_option h (find (\<lambda>x. f x = c) xs)"
  by (induction xs) auto

lemma find_filter_neq:
  "find (\<lambda>x. f x = c) (filter (\<lambda>x. f x \<noteq> b) xs) = (if c = b then None else find (\<lambda>x. f x = c) xs)"
  by (induction xs) auto

lemma owner_of_add:
  "owner_of (d\<lparr>communities := communities d @ [r], uuid_count := n\<rparr>) c =
   (case owner_of d c of
      None \<Rightarrow> if comm_id r = c then Some (comm_owner_id r) else None | Some u \<Rightarrow> Some u)"
  by (simp add: owner_of_def find_append split: option.split)

lemma delete_community_communities [simp]:
  "communities (delete_community c d) = filter (\<lambda>x. comm_id x \<noteq> c) (communities d)"
  "uuid_count (delete_community c d) = uuid_count d"
  by (simp_all add: delete_community_def delete_channels_def delete_members_def delete_roles_def Let_def)

lemma owner_of_delete: "owner_of (delete_community b d) c = (if c = b then None else owner_of d c)"
  by (simp add: owner_of_def find_filter_neq)

lemma sql_insert_community_owners [community_owners]:
  "stmt_rel (owners_evolve P) (sql_insert_community P n ds url u)"
  by (rule stmt_relI)
     (auto simp: sql_insert_community_def stmt_cases owners_evolve_def owner_of_add
       split: if_splits option.splits)

lemma owner_of_update:
  "(\<And>r. comm_id (g r) = comm_id r) \<Longrightarrow> (\<And>r. comm_owner_id (g r) = comm_owner_id r) \<Longrightarrow>
   owner_of (d\<lparr>communities := map (\<lambda>r. if Q r then g r else r) (communities d)\<rparr>) = owner_of d"
  by (simp add: owner_of_def find_map_if fun_eq_iff)

lemma sql_update_community_owners [community_owners]:
  "stmt_rel (owners_evolve P) (sql_update_community P c n ds url)"
  by (rule stmt_relI)
     (auto simp: sql_update_community_def stmt_cases owners_evolve_def owner_of_update)

lemma sql_delete_community_owners [community_owners]:
  "stmt_rel (owners_evolve P) (sql_delete_community P c)"
  by (rule stmt_relI)
     (auto simp: sql_delete_community_def stmt_cases owners_evolve_def owner_of_delete
       split: if_splits)

lemma delete_channels_communities [simp]:
  "communities (delete_channels Q d) = communities d"
  "uuid_count (delete_channels Q d) = uuid_count d"
  by (simp_all add: delete_channels_def Let_def)

lemma delete_members_communities [simp]:
  "communities (delete_members Q d) = communities d"
  "uuid_count (delete_members Q d) = uuid_count d"
  by (simp_all add: delete_members_def Let_def)

lemma other_stmts_owners [community_owners]:
  "stmt_rel (owners_evolve P) (sql_insert_channel P c n tp ty pos)"
  "stmt_rel (owners_evolve P) (sql_update_channel P c n tp ty pos)"
  "stmt_rel (owners_evolve P) (sql_delete_channel P c)"
  "stmt_rel (owners_evolve P) (sql_insert_member P c u)"
  "stmt_rel (owners_evolve P) (sql_delete_member P c u)"
  "stmt_rel (owners_evolve P) (sql_insert_role P c n col perm pos)"
  "stmt_rel (owners_evolve P) (sql_insert_member_role P c u r)"
  "stmt_rel (owners_evolve P) (sql_insert_channel_message P c u content)"
  "stmt_rel (owners_evolve P) (sql_delete_channel_message P m)"
  "stmt_rel (owners_evolve P) (sql_update_channel_message P m content)"
  "stmt_rel (owners_evolve P) (sql_insert_attachment P a)"
  unfolding sql_insert_channel_def sql_update_channel_def sql_delete_channel_def
    sql_insert_member_def sql_delete_member_def sql_insert_role_def sql_insert_member_role_def
    sql_insert_channel_message_def sql_delete_channel_message_def sql_update_channel_message_def
    sql_insert_attachment_def
  by (rule stmt_relI; auto simp: stmt_cases split: if_splits intro!: owners_evolve_same)+

text \<open>
  Accounts, relations and files are other services' tables: what stays of them is stated once for
  all the statements that can run beside each other, with the one reference into them, from
  attachments to files.
\<close>

definition accounts_stay :: "database \<Rightarrow> database \<Rightarrow> bool" where
  "accounts_stay d d' \<longleftrightarrow>
     map u_id (users d') = map u_id (users d) \<and> map u_email (users d') = map u_email (users d) \<and>
     user_relations d' = user_relations d \<and> file_metadata d' = file_metadata d \<and>
     (\<forall>a \<in> set (attachments d'). a \<in> set (attachments d) \<or> att_file_id a \<in> fm_id ` set (file_metadata d))"

named_theorems accounts_stays "statements that leave accounts, relations and files alone"

lemma accounts_stay_same:
  "users d' = users d \<Longrightarrow> user_relations d' = user_relations d \<Longrightarrow> file_metadata d' = file_metadata d \<Longrightarrow>
   attachments d' = attachments d \<Longrightarrow> accounts_stay d d'"
  by (simp add: accounts_stay_def)

lemma accounts_stay_refl [simp]: "accounts_stay d d"
  by (simp add: accounts_stay_same)

lemma sql_insert_attachment_accounts [accounts_stays]: "stmt_rel accounts_stay (sql_insert_attachment P a)"
  by (rule stmt_relI) (auto simp: sql_insert_attachment_def stmt_cases accounts_stay_def split: if_splits)

lemma delete_tables [simp]:
  "users (delete_community c d) = users d" "user_relations (delete_community c d) = user_relations d"
  "file_metadata (delete_community c d) = file_metadata d" "attachments (delete_community c d) = attachments d"
  "users (delete_channels Q d) = users d" "user_relations (delete_channels Q d) = user_relations d"
  "file_metadata (delete_channels Q d) = file_metadata d" "attachments (delete_channels Q d) = attachments d"
  "users (delete_members R d) = users d" "user_relations (delete_members R d) = user_relations d"
  "file_metadata (delete_members R d) = file_metadata d" "attachments (delete_members R d) = attachments d"
  by (simp_all add: delete_community_def delete_channels_def delete_members_def delete_roles_def Let_def)

lemma community_stmts_accounts [accounts_stays]:
  "stmt_rel accounts_stay (sql_insert_community P n ds url u)"
  "stmt_rel accounts_stay (sql_update_community P c n ds url)"
  "stmt_rel accounts_stay (sql_delete_community P c)"
  "stmt_rel accounts_stay (sql_insert_channel P c n tp ty pos)"
  "stmt_rel accounts_stay (sql_update_channel P c n tp ty pos)"
  "stmt_rel accounts_stay (sql_delete_channel P c)"
  "stmt_rel accounts_stay (sql_insert_member P c u)"
  "stmt_rel accounts_stay (sql_delete_member P c u)"
  "stmt_rel accounts_stay (sql_insert_role P c n col perm pos)"
  "stmt_rel accounts_stay (sql_insert_member_role P c u r)"
  "stmt_rel accounts_stay (sql_insert_channel_message P c u content)"
  "stmt_rel accounts_stay (sql_delete_channel_message P m)"
  "stmt_rel accounts_stay (sql_update_channel_message P m content)"
  unfolding sql_insert_community_def sql_update_community_def sql_delete_community_def
    sql_insert_channel_def sql_update_channel_def sql_delete_channel_def
    sql_insert_member_def sql_delete_member_def sql_insert_role_def sql_insert_member_role_def
    sql_insert_channel_message_def sql_delete_channel_message_def sql_update_channel_message_def
  by (rule stmt_relI; auto simp: stmt_cases split: if_splits intro!: accounts_stay_same)+

subsection \<open>The methods\<close>

text \<open>
  A method that only reads keeps whatever does not look at the time or the pending outcomes; a
  method that writes keeps what its statement keeps.
\<close>

lemma preserves_repo_reads:
  assumes safe: "calls_safe I"
  shows "preserves I (repo_IsCommunityPublic P c)"
    and "preserves I (repo_GetCommunity P c)"
    and "preserves I (repo_ListCommunitiesByUser P u lim cur)"
    and "preserves I (repo_GetChannel P c)"
    and "preserves I (repo_ListChannelsByCommunity P c)"
    and "preserves I (repo_GetMember P c u)"
    and "preserves I (repo_ListMembersByCommunity P c lim cur)"
    and "preserves I (repo_GetDefaultRole P c)"
    and "preserves I (repo_ListRolesByCommunity P c)"
    and "preserves I (repo_ListMemberRoles P c u)"
    and "preserves I (repo_GetChannelMessageAuthor P m)"
    and "preserves I (repo_GetChannelMessages P c lim cur)"
    and "preserves I (repo_GetChannelMessagesSince P c since lim)"
    and "preserves I (repo_GetAttachmentsByMessage P ty m)"
  unfolding repo_IsCommunityPublic_def repo_GetCommunity_def repo_ListCommunitiesByUser_def
    repo_GetChannel_def repo_ListChannelsByCommunity_def repo_GetMember_def
    repo_ListMembersByCommunity_def repo_GetDefaultRole_def repo_ListRolesByCommunity_def
    repo_ListMemberRoles_def repo_GetChannelMessageAuthor_def repo_GetChannelMessages_def
    repo_GetChannelMessagesSince_def repo_GetAttachmentsByMessage_def Let_def
  by (intro preserves_intros preserves_pg_query_row preserves_pg_query stmt_safe_reads_only
        community_reads safe)+

lemma preserves_repo_CreateCommunity:
  "stmt_safe I (sql_insert_community P n ds url u) \<Longrightarrow>
   preserves I (repo_CreateCommunity P n ds url u)"
  unfolding repo_CreateCommunity_def by (intro preserves_intros preserves_pg_query_row)

lemma preserves_repo_UpdateCommunity:
  "stmt_safe I (sql_update_community P c n ds url) \<Longrightarrow>
   preserves I (repo_UpdateCommunity P c n ds url)"
  unfolding repo_UpdateCommunity_def by (intro preserves_intros preserves_pg_query_row)

lemma preserves_repo_DeleteCommunity:
  "stmt_safe I (sql_delete_community P c) \<Longrightarrow> preserves I (repo_DeleteCommunity P c)"
  unfolding repo_DeleteCommunity_def by (intro preserves_intros preserves_pg_exec)

lemma preserves_repo_CreateChannel:
  "stmt_safe I (sql_insert_channel P c n tp ty pos) \<Longrightarrow>
   preserves I (repo_CreateChannel P c n tp ty pos)"
  unfolding repo_CreateChannel_def by (intro preserves_intros preserves_pg_query_row)

lemma preserves_repo_UpdateChannel:
  "stmt_safe I (sql_update_channel P c n tp ty pos) \<Longrightarrow>
   preserves I (repo_UpdateChannel P c n tp ty pos)"
  unfolding repo_UpdateChannel_def by (intro preserves_intros preserves_pg_query_row)

lemma preserves_repo_DeleteChannel:
  "stmt_safe I (sql_delete_channel P c) \<Longrightarrow> preserves I (repo_DeleteChannel P c)"
  unfolding repo_DeleteChannel_def by (intro preserves_intros preserves_pg_exec)

lemma preserves_repo_AddMember:
  "stmt_safe I (sql_insert_member P c u) \<Longrightarrow> preserves I (repo_AddMember P c u)"
  unfolding repo_AddMember_def
  by (intro preserves_intros preserves_pg_query_row preserves_repo_reads) auto

lemma preserves_repo_RemoveMember:
  "stmt_safe I (sql_delete_member P c u) \<Longrightarrow> preserves I (repo_RemoveMember P c u)"
  unfolding repo_RemoveMember_def by (intro preserves_intros preserves_pg_exec)

lemma preserves_repo_CreateRole:
  "stmt_safe I (sql_insert_role P c n col perm pos) \<Longrightarrow>
   preserves I (repo_CreateRole P c n col perm pos)"
  unfolding repo_CreateRole_def by (intro preserves_intros preserves_pg_query_row)

lemma preserves_repo_AssignRole:
  "stmt_safe I (sql_insert_member_role P c u r) \<Longrightarrow> preserves I (repo_AssignRole P c u r)"
  unfolding repo_AssignRole_def by (intro preserves_intros preserves_pg_exec)

lemma preserves_repo_InsertChannelMessage:
  "stmt_safe I (sql_insert_channel_message P c u content) \<Longrightarrow>
   preserves I (repo_InsertChannelMessage P c u content)"
  unfolding repo_InsertChannelMessage_def by (intro preserves_intros preserves_pg_query_row)

lemma preserves_repo_DeleteChannelMessage:
  "stmt_safe I (sql_delete_channel_message P m) \<Longrightarrow> preserves I (repo_DeleteChannelMessage P m)"
  unfolding repo_DeleteChannelMessage_def by (intro preserves_intros preserves_pg_exec)

lemma preserves_repo_UpdateChannelMessage:
  "stmt_safe I (sql_update_channel_message P m content) \<Longrightarrow>
   preserves I (repo_UpdateChannelMessage P m content)"
  unfolding repo_UpdateChannelMessage_def by (intro preserves_intros preserves_pg_query_row)

lemma preserves_repo_InsertAttachments:
  "calls_safe I \<Longrightarrow> (\<And>a. stmt_safe I (sql_insert_attachment P a)) \<Longrightarrow>
   preserves I (repo_InsertAttachments P as)"
  by (induction as) (auto intro!: preserves_intros preserves_pg_exec)

lemmas preserves_repo_writes =
  preserves_repo_CreateCommunity preserves_repo_UpdateCommunity preserves_repo_DeleteCommunity
  preserves_repo_CreateChannel preserves_repo_UpdateChannel preserves_repo_DeleteChannel
  preserves_repo_AddMember preserves_repo_RemoveMember preserves_repo_CreateRole
  preserves_repo_AssignRole preserves_repo_InsertChannelMessage
  preserves_repo_DeleteChannelMessage preserves_repo_UpdateChannelMessage
  preserves_repo_InsertAttachments

lemma repo_AddMember_InrD:
  assumes run: "run_state (repo_AddMember P communityID userID) s = (Inr x, s')"
  shows "\<exists>c u. uuid_in P communityID = Some c \<and> uuid_in P userID = Some u \<and>
    has_member (db s') c u \<and>
    (db s' = db s \<or> (\<exists>m. member_key m = (c, u) \<and>
       db s' = (db s)\<lparr>community_members := community_members (db s) @ [m]\<rparr>))"
proof -
  obtain r s1 where r: "run_state (pg_query_row (sql_insert_member P communityID userID)) s = (r, s1)"
    by fastforce
  have "\<exists>t xs. sql_insert_member P communityID userID t (db s) = Inr (xs, db s')"
  proof (cases r)
    case (Inr m)
    with r run have "s' = s1" by (auto simp: repo_AddMember_def)
    from pg_query_row_InrD [OF r [unfolded Inr]] obtain u os d xs where
      "sql_insert_member P communityID userID u (db s) = Inr (m # xs, d)"
      "s1 = s\<lparr>outcomes := os, now := u, db := d\<rparr>" by (elim exE conjE)
    with \<open>s' = s1\<close> show ?thesis by auto
  next
    case (Inl e)
    with r run have e: "e = NoRows" and get: "run_state (repo_GetMember P communityID userID) s1 = (Inr x, s')"
      by (auto simp: repo_AddMember_def split: if_splits)
    have "preserves (\<lambda>q. db q = db s1) (repo_GetMember P communityID userID)"
      by (rule preserves_repo_reads) (simp add: calls_safe_def)
    from preservesD [OF this get] have "db s' = db s1" by simp
    with pg_query_row_NoRowsD [OF r [unfolded Inl e]] show ?thesis by auto
  qed
  then show ?thesis by (auto dest!: sql_insert_member_InrD)
qed

end
