(* ===== verification/CommunityCache.thy ===== *)
theory CommunityCache
  imports CommunityRepo GroupCache Permissions
begin

text \<open>
  \<open>backend/services/community-service/cache.go\<close> and the state of the service: the three caches of
  \<open>CommunityService\<close> beside what it talks to. The fillers are the closures that the constructors
  pass to \<open>groupcache\<close>; they cut the prefix off the key again.

  A cached community may be older than the row (another instance may have changed it, an
  invalidation may have hit another spelling of the identifier), but the identifier and the
  owner in it are right for as long as the community exists: that is \<open>community_entry\<close>, and
  \<open>svc_ok\<close> is the invariant of the service built on it.
\<close>

record community_svc = infra +
  communityCache :: "json cache"
  membersCache :: "json cache"
  rolesCache :: "json cache"

type_synonym 'a community_call = "(community_svc, go_error + 'a) state"

definition put_communityCache :: "json cache \<Rightarrow> community_svc \<Rightarrow> community_svc" where
  "put_communityCache c s = s\<lparr>communityCache := c\<rparr>"

definition put_membersCache :: "json cache \<Rightarrow> community_svc \<Rightarrow> community_svc" where
  "put_membersCache c s = s\<lparr>membersCache := c\<rparr>"

definition put_rolesCache :: "json cache \<Rightarrow> community_svc \<Rightarrow> community_svc" where
  "put_rolesCache c s = s\<lparr>rolesCache := c\<rparr>"

lemmas put_defs = put_communityCache_def put_membersCache_def put_rolesCache_def

text \<open>The keys: \<open>fmt.Sprintf("community:%s", communityID)\<close> and the like.\<close>

definition community_prefix :: string where
  "community_prefix = ''community:''"

definition community_key :: "string \<Rightarrow> string" where
  "community_key communityID = community_prefix @ communityID"

definition members_prefix :: string where
  "members_prefix = ''members:''"

definition members_key :: "string \<Rightarrow> string" where
  "members_key communityID = members_prefix @ communityID"

definition roles_prefix :: string where
  "roles_prefix = ''roles:''"

definition roles_key :: "string \<Rightarrow> string" where
  "roles_key communityID = roles_prefix @ communityID"

lemma key_inject [simp]:
  "community_key a = community_key b \<longleftrightarrow> a = b" "members_key a = members_key b \<longleftrightarrow> a = b"
  "roles_key a = roles_key b \<longleftrightarrow> a = b"
  by (simp_all add: community_key_def members_key_def roles_key_def)

lemma drop_key [simp]:
  "drop (length community_prefix) (community_key a) = a"
  "drop (length members_prefix) (members_key a) = a"
  "drop (length roles_prefix) (roles_key a) = a"
  by (simp_all add: community_key_def members_key_def roles_key_def)

section \<open>CommunityCache\<close>

text \<open>
  The constructors give \<open>groupcache\<close> a capacity of 10000; the peers are the ones given, or those
  a registry returns later.
\<close>

definition NewCommunityCache :: "string list \<Rightarrow> json cache" where
  "NewCommunityCache ps = NewCache 10000 ps"

definition community_filler :: "pg_env \<Rightarrow> string \<Rightarrow> json community_call" where
  "community_filler P key = do {
     let communityID = drop (length community_prefix) key;
     r \<leftarrow> repo_GetCommunity P communityID;
     ret (case r of Inl err \<Rightarrow> Inl err | Inr community \<Rightarrow> Inr (MarshalCommunity community))
   }"

definition CommunityCache_Get :: "pg_env \<Rightarrow> string \<Rightarrow> community_row community_call" where
  "CommunityCache_Get P communityID = do {
     let key = community_key communityID;
     data \<leftarrow> Cache_Get communityCache put_communityCache (Some (community_filler P)) key;
     ret (case data of Inl err \<Rightarrow> Inl err | Inr j \<Rightarrow> UnmarshalCommunity j)
   }"

definition CommunityCache_Set :: "community_row \<Rightarrow> (community_svc, unit) state" where
  "CommunityCache_Set community =
     modify (\<lambda>s. put_communityCache
       (Cache_Set (community_key (comm_id community)) (MarshalCommunity community)
          (communityCache s)) s)"

definition CommunityCache_Invalidate :: "string \<Rightarrow> (community_svc, unit) state" where
  "CommunityCache_Invalidate communityID =
     modify (\<lambda>s. put_communityCache
       (Cache_Remove (community_key communityID) (communityCache s)) s)"

section \<open>MembersCache\<close>

definition NewMembersCache :: "string list \<Rightarrow> json cache" where
  "NewMembersCache ps = NewCache 10000 ps"

definition members_filler :: "pg_env \<Rightarrow> string \<Rightarrow> json community_call" where
  "members_filler P key = do {
     let communityID = drop (length members_prefix) key;
     r \<leftarrow> repo_ListMembersByCommunity P communityID 1000 [];
     ret (case r of Inl err \<Rightarrow> Inl err | Inr (members, _) \<Rightarrow> Inr (MarshalMembers members))
   }"

definition MembersCache_Get :: "pg_env \<Rightarrow> string \<Rightarrow> member_row list community_call" where
  "MembersCache_Get P communityID = do {
     let key = members_key communityID;
     data \<leftarrow> Cache_Get membersCache put_membersCache (Some (members_filler P)) key;
     ret (case data of Inl err \<Rightarrow> Inl err | Inr j \<Rightarrow> UnmarshalMembers j)
   }"

definition MembersCache_Invalidate :: "string \<Rightarrow> (community_svc, unit) state" where
  "MembersCache_Invalidate communityID =
     modify (\<lambda>s. put_membersCache
       (Cache_Remove (members_key communityID) (membersCache s)) s)"

section \<open>RolesCache\<close>

definition NewRolesCache :: "string list \<Rightarrow> json cache" where
  "NewRolesCache ps = NewCache 10000 ps"

definition roles_filler :: "pg_env \<Rightarrow> string \<Rightarrow> json community_call" where
  "roles_filler P key = do {
     let communityID = drop (length roles_prefix) key;
     r \<leftarrow> repo_ListRolesByCommunity P communityID;
     ret (case r of Inl err \<Rightarrow> Inl err | Inr rs \<Rightarrow> Inr (MarshalRoles rs))
   }"

definition RolesCache_Get :: "pg_env \<Rightarrow> string \<Rightarrow> role_row list community_call" where
  "RolesCache_Get P communityID = do {
     let key = roles_key communityID;
     data \<leftarrow> Cache_Get rolesCache put_rolesCache (Some (roles_filler P)) key;
     ret (case data of Inl err \<Rightarrow> Inl err | Inr j \<Rightarrow> UnmarshalRoles j)
   }"

definition RolesCache_Invalidate :: "string \<Rightarrow> (community_svc, unit) state" where
  "RolesCache_Invalidate communityID =
     modify (\<lambda>s. put_rolesCache (Cache_Remove (roles_key communityID) (rolesCache s)) s)"

definition cachedMembersSet :: "member_row list \<Rightarrow> string \<Rightarrow> bool" where
  "cachedMembersSet members u \<longleftrightarrow> u \<in> mem_user_id ` set members"

section \<open>The invariant\<close>

definition community_entry :: "pg_env \<Rightarrow> database \<Rightarrow> string \<Rightarrow> json \<Rightarrow> bool" where
  "community_entry P d key j \<longleftrightarrow>
     (\<exists>raw row. key = community_key raw \<and> UnmarshalCommunity j = Inr row \<and>
        uuid_in P raw = Some (comm_id row) \<and>
        (\<forall>u. owner_of d (comm_id row) = Some u \<longrightarrow> u = comm_owner_id row) \<and>
        (\<forall>n \<ge> uuid_count d. comm_id row \<noteq> gen_uuid P n))"

text \<open>
  The identifiers of the communities are in the form Postgres prints, and none is one that
  \<open>gen_random_uuid\<close> has yet to return.
\<close>

definition ids_used :: "pg_env \<Rightarrow> database \<Rightarrow> bool" where
  "ids_used P d \<longleftrightarrow>
     (\<forall>n \<ge> uuid_count d. owner_of d (gen_uuid P n) = None) \<and>
     (\<forall>c u. owner_of d c = Some u \<longrightarrow> uuid_in P c = Some c)"

definition svc_ok :: "pg_env \<Rightarrow> community_svc \<Rightarrow> bool" where
  "svc_ok P s \<longleftrightarrow>
     db_ok (db s) \<and> ids_used P (db s) \<and>
     lru.agrees (community_entry P (db s)) (lru (communityCache s)) \<and>
     lru_inv (lru (membersCache s)) \<and> lru_inv (lru (rolesCache s))"

lemma owners_evolve_old:
  "owners_evolve P d d' \<Longrightarrow> owner_of d' c = Some u \<Longrightarrow>
   \<forall>n \<ge> uuid_count d. c \<noteq> gen_uuid P n \<Longrightarrow> owner_of d c = Some u"
  by (auto simp: owners_evolve_def)

lemma owner_of_row:
  "db_ok d \<Longrightarrow> r \<in> set (communities d) \<Longrightarrow> owner_of d (comm_id r) = Some (comm_owner_id r)"
proof -
  assume ok: "db_ok d" and r: "r \<in> set (communities d)"
  then have "distinct (map comm_id (communities d))" by (simp add: db_ok_def keys_ok_def)
  from filter_single_key [OF this r] show ?thesis by (simp add: owner_of_def find_filter_hd)
qed

lemma owner_of_None: "owner_of d c = None \<longleftrightarrow> \<not> has_community d c"
  by (auto simp: owner_of_def find_None_iff has_community_def)

lemma ids_used_evolve:
  assumes P: "pg_env_ok P" and used: "ids_used P d" and ev: "owners_evolve P d d'"
  shows "ids_used P d'"
  unfolding ids_used_def
proof (intro conjI allI impI)
  fix n assume n: "uuid_count d' \<le> n"
  show "owner_of d' (gen_uuid P n) = None"
  proof (rule ccontr)
    assume "owner_of d' (gen_uuid P n) \<noteq> None"
    then obtain u where "owner_of d' (gen_uuid P n) = Some u" by auto
    then consider "owner_of d (gen_uuid P n) = Some u" |
      k where "k < uuid_count d'" "gen_uuid P n = gen_uuid P k"
      using ev by (auto simp: owners_evolve_def)
    then show False
    proof cases
      case 1
      with used n ev show False by (auto simp: ids_used_def owners_evolve_def)
    next
      case 2
      then show False using n pg_env_ok_gen_inj [OF P] by auto
    qed
  qed
next
  fix c u assume "owner_of d' c = Some u"
  with ev have "owner_of d c = Some u \<or> (\<exists>n. c = gen_uuid P n)"
    by (auto simp: owners_evolve_def)
  with used show "uuid_in P c = Some c"
    using pg_env_okD(3) [OF P] by (auto simp: ids_used_def)
qed

lemma community_entry_evolve:
  assumes "owners_evolve P d d'" and "community_entry P d k j"
  shows "community_entry P d' k j"
proof -
  from assms(2) obtain raw row where row: "k = community_key raw"
      "UnmarshalCommunity j = Inr row" "uuid_in P raw = Some (comm_id row)"
      "\<forall>u. owner_of d (comm_id row) = Some u \<longrightarrow> u = comm_owner_id row"
      "\<forall>n \<ge> uuid_count d. comm_id row \<noteq> gen_uuid P n"
    by (auto simp: community_entry_def)
  moreover have "u = comm_owner_id row" if "owner_of d' (comm_id row) = Some u" for u
    using owners_evolve_old [OF assms(1) that row(5)] row(4) by blast
  moreover have "comm_id row \<noteq> gen_uuid P n" if "uuid_count d' \<le> n" for n
    using that assms(1) row(5) by (auto simp: owners_evolve_def)
  ultimately show ?thesis by (auto simp: community_entry_def)
qed

lemma svc_ok_db:
  assumes "pg_env_ok P" and "svc_ok P s" and "db_ok d" and "owners_evolve P (db s) d"
  shows "svc_ok P (s\<lparr>db := d\<rparr>)"
  using assms lru.agrees_weaken [of "community_entry P (db s)" "lru (communityCache s)"
      "community_entry P d"]
  by (auto simp: svc_ok_def intro: ids_used_evolve community_entry_evolve)

lemma calls_safe_svc_ok [simp, intro]: "calls_safe (svc_ok P)"
  by (simp add: calls_safe_def svc_ok_def)

lemma stmt_safe_svc_ok:
  "pg_env_ok P \<Longrightarrow> stmt_keeps db_ok stmt \<Longrightarrow> stmt_rel (owners_evolve P) stmt \<Longrightarrow>
   stmt_safe (svc_ok P) stmt"
  unfolding stmt_safe_def stmt_keeps_def stmt_rel_def
  by (auto intro!: svc_ok_db) (auto simp: svc_ok_def)

section \<open>What the caches do\<close>

lemma put_simps [simp]:
  "db (put_communityCache c s) = db s" "db (put_membersCache c s) = db s"
  "db (put_rolesCache c s) = db s"
  by (simp_all add: put_defs)

lemma preserves_Cache_Get:
  assumes "\<And>s. I s \<Longrightarrow> I (put_c (lru_touched key (get_c s)) s)"
    and "\<And>s v. I s \<Longrightarrow> I (put_c (Cache_Set key v (get_c s)) s)" and "preserves I (f key)"
  shows "preserves I (Cache_Get get_c put_c (Some f) key)"
proof -
  have "triple I (f key) (\<lambda>r s. case r of Inl e \<Rightarrow> I s
      | Inr v \<Rightarrow> I (put_c (Cache_Set key v (get_c s)) s) \<and> True)"
    by (rule triple_weaken [OF assms(3) [folded triple_preserves]])
       (auto intro: assms(2) split: sum.split)
  then have "triple I (Cache_Get get_c put_c (Some f) key)
      (\<lambda>r s. I s \<and> (case r of Inl _ \<Rightarrow> True | Inr _ \<Rightarrow> True))"
    by (intro triple_Cache_Get assms(1) TrueI)
  then show ?thesis
    by (auto simp: triple_preserves [symmetric] elim: triple_weaken)
qed

lemma preserves_caches_db [preserves_intros]:
  "preserves (\<lambda>s. Q (db s)) (CommunityCache_Get P c)"
  "preserves (\<lambda>s. Q (db s)) (MembersCache_Get P c)"
  "preserves (\<lambda>s. Q (db s)) (RolesCache_Get P c)"
  "preserves (\<lambda>s. Q (db s)) (CommunityCache_Set row)"
  "preserves (\<lambda>s. Q (db s)) (CommunityCache_Invalidate c)"
  "preserves (\<lambda>s. Q (db s)) (MembersCache_Invalidate c)"
  "preserves (\<lambda>s. Q (db s)) (RolesCache_Invalidate c)"
  unfolding CommunityCache_Get_def MembersCache_Get_def RolesCache_Get_def community_filler_def
    members_filler_def roles_filler_def CommunityCache_Set_def CommunityCache_Invalidate_def
    MembersCache_Invalidate_def RolesCache_Invalidate_def Let_def
  by (intro preserves_intros preserves_Cache_Get preserves_repo_reads preserves_modify
      calls_safe_db | simp)+

lemma svc_ok_touch:
  "svc_ok P s \<Longrightarrow> svc_ok P (put_communityCache (lru_touched k (communityCache s)) s)"
  "svc_ok P s \<Longrightarrow> svc_ok P (put_membersCache (lru_touched k (membersCache s)) s)"
  "svc_ok P s \<Longrightarrow> svc_ok P (put_rolesCache (lru_touched k (rolesCache s)) s)"
  by (simp_all add: svc_ok_def put_defs lru.agrees_get lru_Get_inv)

lemma svc_ok_set:
  "svc_ok P s \<Longrightarrow> community_entry P (db s) k j \<Longrightarrow>
   svc_ok P (put_communityCache (Cache_Set k j (communityCache s)) s)"
  "svc_ok P s \<Longrightarrow> svc_ok P (put_membersCache (Cache_Set k j (membersCache s)) s)"
  "svc_ok P s \<Longrightarrow> svc_ok P (put_rolesCache (Cache_Set k j (rolesCache s)) s)"
  by (simp_all add: svc_ok_def put_defs Cache_Set_def lru.agrees_add lru_Add_inv)

lemma svc_ok_remove:
  "svc_ok P s \<Longrightarrow> svc_ok P (put_communityCache (Cache_Remove k (communityCache s)) s)"
  "svc_ok P s \<Longrightarrow> svc_ok P (put_membersCache (Cache_Remove k (membersCache s)) s)"
  "svc_ok P s \<Longrightarrow> svc_ok P (put_rolesCache (Cache_Remove k (rolesCache s)) s)"
  by (auto simp: svc_ok_def put_defs Cache_Remove_def lru_Remove_inv elim: lru.agrees_remove)

lemma preserves_svc_ok_caches [preserves_intros]:
  "preserves (svc_ok P) (CommunityCache_Invalidate c)"
  "preserves (svc_ok P) (MembersCache_Invalidate c)"
  "preserves (svc_ok P) (RolesCache_Invalidate c)"
  unfolding CommunityCache_Invalidate_def MembersCache_Invalidate_def RolesCache_Invalidate_def
  by (auto intro!: preserves_modify svc_ok_remove)


text \<open>The community a handler works with: the right one, with its owner.\<close>

definition is_community :: "pg_env \<Rightarrow> string \<Rightarrow> community_row \<Rightarrow> database \<Rightarrow> bool" where
  "is_community P raw row d \<longleftrightarrow>
     uuid_in P raw = Some (comm_id row) \<and>
     (\<forall>u. owner_of d (comm_id row) = Some u \<longrightarrow> u = comm_owner_id row)"

lemma community_entryD:
  "community_entry P d (community_key raw) j \<Longrightarrow>
   \<exists>row. UnmarshalCommunity j = Inr row \<and> is_community P raw row d"
  by (auto simp: community_entry_def is_community_def)

lemma owner_in_use: "ids_used P d \<Longrightarrow> owner_of d c = Some u \<Longrightarrow> uuid_count d \<le> n \<Longrightarrow> c \<noteq> gen_uuid P n"
  by (auto simp: ids_used_def)

lemma community_entry_row:
  assumes "db_ok d" "ids_used P d" and r: "r \<in> set (communities d)"
    and "uuid_in P raw = Some (comm_id r)"
  shows "community_entry P d (community_key raw) (MarshalCommunity (community_row.truncate r))"
proof -
  have "owner_of d (comm_id r) = Some (comm_owner_id r)" using assms(1) r by (rule owner_of_row)
  with assms show ?thesis
    by (auto simp: community_entry_def community_row.truncate_def owner_in_use)
qed

lemma triple_community_filler:
  "triple (svc_ok P) (community_filler P (community_key raw))
     (\<lambda>r s. svc_ok P s \<and> (case r of Inl _ \<Rightarrow> True
        | Inr j \<Rightarrow> community_entry P (db s) (community_key raw) j))"
proof (rule tripleI)
  fix s r s' assume ok: "svc_ok P s"
    and run: "run_state (community_filler P (community_key raw)) s = (r, s')"
  have "preserves (svc_ok P) (community_filler P (community_key raw))"
    unfolding community_filler_def Let_def
    by (intro preserves_intros preserves_repo_reads calls_safe_svc_ok)
  then have ok': "svc_ok P s'" using run ok by (rule preservesD)
  moreover have "community_entry P (db s') (community_key raw) j" if "r = Inr j" for j
  proof -
    obtain q s1 where q: "run_state (pg_query_row (sql_select_community P raw)) s = (q, s1)"
      by fastforce
    with run that obtain row where row: "q = Inr row" "s' = s1"
        "j = MarshalCommunity (community_row.truncate row)"
      by (auto simp: community_filler_def repo_GetCommunity_def split: sum.splits go_error.splits)
    from pg_query_row_InrD [OF q [unfolded row(1)]] row(2)
    obtain xs t d where "sql_select_community P raw t (db s) = Inr (row # xs, d)" "db s' = d"
      by auto
    then have "row \<in> set (communities (db s'))" "uuid_in P raw = Some (comm_id row)"
      by (auto simp: sql_select_community_def stmt_cases filter_eq_Cons_iff)
    with ok' row(3) show ?thesis by (simp add: svc_ok_def community_entry_row)
  qed
  ultimately show "svc_ok P s' \<and> (case r of Inl _ \<Rightarrow> True
        | Inr j \<Rightarrow> community_entry P (db s') (community_key raw) j)"
    by (simp split: sum.split)
qed

lemma triple_CommunityCache_Get:
  "triple (svc_ok P) (CommunityCache_Get P raw)
     (\<lambda>r s. svc_ok P s \<and> (case r of Inl _ \<Rightarrow> True | Inr row \<Rightarrow> is_community P raw row (db s)))"
proof -
  let ?k = "community_key raw"
  have "triple (svc_ok P)
      (Cache_Get communityCache put_communityCache (Some (community_filler P)) ?k)
      (\<lambda>r s. svc_ok P s \<and> (case r of Inl _ \<Rightarrow> True | Inr j \<Rightarrow> community_entry P (db s) ?k j))"
  proof (rule triple_Cache_Get)
    fix s assume "svc_ok P s"
    then show "svc_ok P (put_communityCache (lru_touched ?k (communityCache s)) s)"
      by (rule svc_ok_touch)
  next
    fix s v assume "svc_ok P s" and "fst (lru_Get ?k (lru (communityCache s))) = Some v"
    then show "community_entry P (db (put_communityCache (lru_touched ?k (communityCache s)) s)) ?k v"
      by (auto simp: svc_ok_def dest: lru.agrees_value)
  next
    show "triple (svc_ok P) (community_filler P ?k) (\<lambda>r s. case r of
        Inl e \<Rightarrow> svc_ok P s
      | Inr v \<Rightarrow> svc_ok P (put_communityCache (Cache_Set ?k v (communityCache s)) s) \<and>
          community_entry P (db (put_communityCache (Cache_Set ?k v (communityCache s)) s)) ?k v)"
      by (rule triple_weaken [OF triple_community_filler])
         (auto split: sum.splits intro: svc_ok_set)
  qed
  then show ?thesis
    unfolding CommunityCache_Get_def Let_def
    by (rule triple_bind)
       (auto simp: triple_def split: sum.splits dest!: community_entryD)
qed

lemma preserves_svc_ok_Get [preserves_intros]:
  "preserves (svc_ok P) (CommunityCache_Get P raw)"
  "preserves (svc_ok P) (MembersCache_Get P raw)"
  "preserves (svc_ok P) (RolesCache_Get P raw)"
proof -
  show "preserves (svc_ok P) (CommunityCache_Get P raw)"
    using triple_CommunityCache_Get [of P raw]
    by (auto simp: triple_preserves [symmetric] elim: triple_weaken)
  have "preserves (svc_ok P) (members_filler P k)" and "preserves (svc_ok P) (roles_filler P k)"
    for k
    unfolding members_filler_def roles_filler_def Let_def
    by (intro preserves_intros preserves_repo_reads calls_safe_svc_ok)+
  note members = preserves_Cache_Get [OF svc_ok_touch(2) svc_ok_set(2) this(1)]
    and roles = preserves_Cache_Get [OF svc_ok_touch(3) svc_ok_set(3) this(2)]
  show "preserves (svc_ok P) (MembersCache_Get P raw)"
    unfolding MembersCache_Get_def Let_def by (rule preserves_bind [OF members preserves_return])
  show "preserves (svc_ok P) (RolesCache_Get P raw)"
    unfolding RolesCache_Get_def Let_def by (rule preserves_bind [OF roles preserves_return])
qed

end
