(* ===== verification/CommunityService.thy ===== *)
theory CommunityService
  imports CommunityCache
begin

text \<open>
  \<open>backend/services/community-service/service.go\<close>: one definition per handler, in the order of
  the file. A handler takes the caller's identifier (\<open>middleware.UserIDFromContext\<close>, empty for an
  unauthenticated call) and the fields of the request it reads, and returns the response or a
  Connect error. The calls to \<open>slog\<close> are left out; \<open>json.Marshal\<close> of a map cannot fail here.
\<close>

section \<open>Messages\<close>

text \<open>\<open>community.v1.ChannelType\<close>; an enum of protobuf is open, the code only asks for one value.\<close>

datatype channel_type =
    CHANNEL_TYPE_UNSPECIFIED | CHANNEL_TYPE_TEXT | CHANNEL_TYPE_ANNOUNCEMENT | CHANNEL_TYPE_OTHER int

record pb_community =
  pbc_id :: string
  pbc_name :: string
  pbc_description :: string
  pbc_icon_url :: string
  pbc_owner_id :: string
  pbc_created_at :: int
  pbc_updated_at :: int

record pb_channel =
  pbh_id :: string
  pbh_community_id :: string
  pbh_name :: string
  pbh_topic :: string
  pbh_type :: channel_type
  pbh_position :: int
  pbh_created_at :: int
  pbh_updated_at :: int

record pb_member =
  pbm_community_id :: string
  pbm_user_id :: string
  pbm_nickname :: string
  pbm_joined_at :: int

record pb_channel_message =
  pbg_id :: string
  pbg_channel_id :: string
  pbg_author_id :: string
  pbg_content :: string
  pbg_created_at :: int
  pbg_updated_at :: int
  pbg_seq :: int
  pbg_attachments :: "attachment list"

definition toPBCommunity :: "community_row \<Rightarrow> pb_community" where
  "toPBCommunity s =
     \<lparr>pbc_id = comm_id s, pbc_name = comm_name s, pbc_description = comm_description s,
      pbc_icon_url = comm_icon_url s, pbc_owner_id = comm_owner_id s,
      pbc_created_at = unix (comm_created_at s), pbc_updated_at = unix (comm_updated_at s)\<rparr>"

definition toPBChannel :: "channel_row \<Rightarrow> pb_channel" where
  "toPBChannel c =
     \<lparr>pbh_id = ch_id c, pbh_community_id = ch_community_id c, pbh_name = ch_name c,
      pbh_topic = ch_topic c,
      pbh_type = (if ch_type c = ''announcement'' then CHANNEL_TYPE_ANNOUNCEMENT
                  else CHANNEL_TYPE_TEXT),
      pbh_position = ch_position c, pbh_created_at = unix (ch_created_at c),
      pbh_updated_at = unix (ch_updated_at c)\<rparr>"

definition pb_member_of :: "member_row \<Rightarrow> pb_member" where
  "pb_member_of m =
     \<lparr>pbm_community_id = mem_community_id m, pbm_user_id = mem_user_id m,
      pbm_nickname = mem_nickname m, pbm_joined_at = unix (mem_joined_at m)\<rparr>"

definition pb_attachment_of :: "attachment_row \<Rightarrow> attachment" where
  "pb_attachment_of a =
     \<lparr>at_id = att_id a, at_file_id = att_file_id a, at_filename = att_filename a,
      at_content_type = att_content_type a, at_size = att_size a\<rparr>"

definition pb_message_of :: "channel_message_row \<Rightarrow> attachment list \<Rightarrow> pb_channel_message" where
  "pb_message_of m atts =
     \<lparr>pbg_id = cm_id m, pbg_channel_id = cm_channel_id m, pbg_author_id = cm_author_id m,
      pbg_content = cm_content m, pbg_created_at = unix (cm_created_at m),
      pbg_updated_at = unix (cm_updated_at m), pbg_seq = cm_seq m, pbg_attachments = atts\<rparr>"

text \<open>The type a channel gets from a request.\<close>

definition request_channel_type :: "channel_type \<Rightarrow> string" where
  "request_channel_type t =
     (if t = CHANNEL_TYPE_ANNOUNCEMENT then ''announcement'' else ''text'')"

section \<open>Permissions and events\<close>

definition checkPermission ::
  "pg_env \<Rightarrow> string \<Rightarrow> string \<Rightarrow> 64 word \<Rightarrow> (community_svc, unit) handler" where
  "checkPermission P communityID userID required =
     try_call (replaced CodeNotFound ''community not found'') (CommunityCache_Get P communityID)
       (\<lambda>community.
     if comm_owner_id community = userID then ok ()
     else
     try_call (wrapped CodeInternal ''failed to get member roles'')
       (repo_ListMemberRoles P communityID userID) (\<lambda>rs.
     let member = \<lparr>mem_community_id = communityID, mem_user_id = userID,
                   mem_nickname = [], mem_joined_at = 0\<rparr>;
         perms = ComputePermissions member rs (comm_owner_id community)
     in guard_that (HasPermission perms required) CodePermissionDenied ''insufficient permissions''
          (ok ())))"

definition publishMessageCreated ::
  "string \<Rightarrow> string \<Rightarrow> string \<Rightarrow> string \<Rightarrow> string \<Rightarrow> int \<Rightarrow> int \<Rightarrow> string list \<Rightarrow>
   (community_svc, unit) state" where
  "publishMessageCreated messageID channelID communityID senderID content createdAt seq memberIDs =
   do {
     connected \<leftarrow> gets nats_connected;
     if \<not> connected then ret ()
     else do {
       let payload = JObj
         [(''message_id'', JStr messageID), (''channel_id'', JStr channelID),
          (''community_id'', JStr communityID), (''sender_id'', JStr senderID),
          (''content'', JStr content), (''member_ids'', JArr (map JStr memberIDs)),
          (''created_at'', JNum createdAt), (''seq'', JNum seq)];
       _ \<leftarrow> nats_publish ''constell.message.created'' payload;
       ret ()
     }
   }"

definition publishMemberJoined ::
  "pg_env \<Rightarrow> string \<Rightarrow> string \<Rightarrow> string \<Rightarrow> (community_svc, unit) state" where
  "publishMemberJoined P communityID userID nickname = do {
     connected \<leftarrow> gets nats_connected;
     if \<not> connected then ret ()
     else do {
       r \<leftarrow> repo_ListChannelsByCommunity P communityID;
       case r of
         Inl err \<Rightarrow> ret ()
       | Inr chs \<Rightarrow> do {
           let payload = JObj
             [(''community_id'', JStr communityID), (''user_id'', JStr userID),
              (''nickname'', JStr nickname),
              (''channel_ids'', JArr (map (\<lambda>c. JStr (ch_id c)) chs))];
           _ \<leftarrow> nats_publish ''constell.member.joined'' payload;
           ret ()
         }
     }
   }"

definition publishMemberLeft ::
  "pg_env \<Rightarrow> string \<Rightarrow> string \<Rightarrow> (community_svc, unit) state" where
  "publishMemberLeft P communityID userID = do {
     connected \<leftarrow> gets nats_connected;
     if \<not> connected then ret ()
     else do {
       r \<leftarrow> repo_ListChannelsByCommunity P communityID;
       case r of
         Inl err \<Rightarrow> ret ()
       | Inr chs \<Rightarrow> do {
           let payload = JObj
             [(''community_id'', JStr communityID), (''user_id'', JStr userID),
              (''channel_ids'', JArr (map (\<lambda>c. JStr (ch_id c)) chs))];
           _ \<leftarrow> nats_publish ''constell.member.left'' payload;
           ret ()
         }
     }
   }"

section \<open>Communities\<close>

definition authenticated :: "string \<Rightarrow> ('s, 'a) handler \<Rightarrow> ('s, 'a) handler" where
  "authenticated callerID m = guard_that (callerID \<noteq> []) CodeUnauthenticated ''not authenticated'' m"

definition CreateCommunity ::
  "pg_env \<Rightarrow> string \<Rightarrow> string \<Rightarrow> string \<Rightarrow> string \<Rightarrow> (community_svc, pb_community) handler" where
  "CreateCommunity P callerID rName rDescription rIconUrl =
     authenticated callerID (
     let name = trim_space rName in
     guard_that (name \<noteq> []) CodeInvalidArgument ''name is required'' (
     try_call (wrapped CodeInternal ''failed to create community'')
       (repo_CreateCommunity P name (trim_space rDescription) (trim_space rIconUrl) callerID)
       (\<lambda>community.
     try_call (wrapped CodeInternal ''failed to add owner as member'')
       (repo_AddMember P (comm_id community) callerID) (\<lambda>_.
     try_call (wrapped CodeInternal ''failed to create default role'')
       (repo_CreateRole P (comm_id community) ''@everyone'' 0
          (PermissionReadMessages OR PermissionSendMessages) 0) (\<lambda>defaultRole. do {
     repo_AssignRole P (comm_id community) callerID (role_id defaultRole);
     try_call (wrapped CodeInternal ''failed to create default channel'')
       (repo_CreateChannel P (comm_id community) ''general'' [] ''text'' 0) (\<lambda>_. do {
         CommunityCache_Set community;
         ok (toPBCommunity community)
       })
     })))))"

definition GetCommunity :: "pg_env \<Rightarrow> string \<Rightarrow> (community_svc, pb_community) handler" where
  "GetCommunity P rCommunityId =
     (let communityID = trim_space rCommunityId in
      guard_that (communityID \<noteq> []) CodeInvalidArgument ''community_id is required'' (
      try_call (wrapped CodeNotFound ''community not found'') (CommunityCache_Get P communityID)
        (\<lambda>community. ok (toPBCommunity community))))"

definition UpdateCommunity ::
  "pg_env \<Rightarrow> string \<Rightarrow> string \<Rightarrow> string \<Rightarrow> string \<Rightarrow> string \<Rightarrow>
   (community_svc, pb_community) handler" where
  "UpdateCommunity P callerID rCommunityId rName rDescription rIconUrl =
     authenticated callerID (
     let communityID = trim_space rCommunityId in
     guard_that (communityID \<noteq> []) CodeInvalidArgument ''community_id is required'' (
     try_conn (checkPermission P communityID callerID PermissionManageCommunity) (\<lambda>_.
     try_call (wrapped CodeInternal ''failed to update community'')
       (repo_UpdateCommunity P communityID (trim_space rName) (trim_space rDescription)
          (trim_space rIconUrl)) (\<lambda>community. do {
     CommunityCache_Invalidate communityID;
     ok (toPBCommunity community)
     }))))"

definition DeleteCommunity :: "pg_env \<Rightarrow> string \<Rightarrow> string \<Rightarrow> (community_svc, unit) handler" where
  "DeleteCommunity P callerID rCommunityId =
     authenticated callerID (
     let communityID = trim_space rCommunityId in
     guard_that (communityID \<noteq> []) CodeInvalidArgument ''community_id is required'' (
     try_call (replaced CodeNotFound ''community not found'') (CommunityCache_Get P communityID)
       (\<lambda>community.
     guard_that (comm_owner_id community = callerID) CodePermissionDenied
       ''only the community owner can delete the community'' (
     try_call (wrapped CodeInternal ''failed to delete community'')
       (repo_DeleteCommunity P communityID) (\<lambda>_. do {
     CommunityCache_Invalidate communityID;
     MembersCache_Invalidate communityID;
     RolesCache_Invalidate communityID;
     ok ()
     })))))"

definition ListCommunities ::
  "pg_env \<Rightarrow> string \<Rightarrow> pagination_request option \<Rightarrow>
   (community_svc, pb_community list \<times> pagination_response) handler" where
  "ListCommunities P callerID rPagination =
     authenticated callerID (
     let (limit, cursor) = page_args rPagination in
     try_call (wrapped CodeInternal ''failed to list communities'')
       (repo_ListCommunitiesByUser P callerID limit cursor) (\<lambda>(rows, nextCursor).
     ok (map toPBCommunity rows, page_response nextCursor)))"

section \<open>Channels\<close>

definition CreateChannel ::
  "pg_env \<Rightarrow> string \<Rightarrow> string \<Rightarrow> string \<Rightarrow> string \<Rightarrow> channel_type \<Rightarrow> int \<Rightarrow>
   (community_svc, pb_channel) handler" where
  "CreateChannel P callerID rCommunityId rName rTopic rType rPosition =
     authenticated callerID (
     let communityID = trim_space rCommunityId; name = trim_space rName in
     guard_that (communityID \<noteq> [] \<and> name \<noteq> []) CodeInvalidArgument
       ''community_id and name are required'' (
     try_conn (checkPermission P communityID callerID PermissionManageChannels) (\<lambda>_.
     try_call (wrapped CodeInternal ''failed to create channel'')
       (repo_CreateChannel P communityID name (trim_space rTopic) (request_channel_type rType)
          rPosition) (\<lambda>ch.
     ok (toPBChannel ch)))))"

definition GetChannel :: "pg_env \<Rightarrow> string \<Rightarrow> (community_svc, pb_channel) handler" where
  "GetChannel P rChannelId =
     (let channelID = trim_space rChannelId in
      guard_that (channelID \<noteq> []) CodeInvalidArgument ''channel_id is required'' (
      try_call (wrapped CodeNotFound ''channel not found'') (repo_GetChannel P channelID)
        (\<lambda>ch. ok (toPBChannel ch))))"

definition UpdateChannel ::
  "pg_env \<Rightarrow> string \<Rightarrow> string \<Rightarrow> string \<Rightarrow> string \<Rightarrow> channel_type \<Rightarrow> int \<Rightarrow>
   (community_svc, pb_channel) handler" where
  "UpdateChannel P callerID rChannelId rName rTopic rType rPosition =
     authenticated callerID (
     let channelID = trim_space rChannelId in
     guard_that (channelID \<noteq> []) CodeInvalidArgument ''channel_id is required'' (
     try_call (replaced CodeNotFound ''channel not found'') (repo_GetChannel P channelID) (\<lambda>ch.
     try_conn (checkPermission P (ch_community_id ch) callerID PermissionManageChannels) (\<lambda>_.
     try_call (wrapped CodeInternal ''failed to update channel'')
       (repo_UpdateChannel P channelID (trim_space rName) (trim_space rTopic)
          (request_channel_type rType) rPosition) (\<lambda>updated.
     ok (toPBChannel updated))))))"

definition DeleteChannel :: "pg_env \<Rightarrow> string \<Rightarrow> string \<Rightarrow> (community_svc, unit) handler" where
  "DeleteChannel P callerID rChannelId =
     authenticated callerID (
     let channelID = trim_space rChannelId in
     guard_that (channelID \<noteq> []) CodeInvalidArgument ''channel_id is required'' (
     try_call (replaced CodeNotFound ''channel not found'') (repo_GetChannel P channelID) (\<lambda>ch.
     try_conn (checkPermission P (ch_community_id ch) callerID PermissionManageChannels) (\<lambda>_.
     try_call (wrapped CodeInternal ''failed to delete channel'')
       (repo_DeleteChannel P channelID) (\<lambda>_.
     ok ())))))"

definition ListChannels :: "pg_env \<Rightarrow> string \<Rightarrow> (community_svc, pb_channel list) handler" where
  "ListChannels P rCommunityId =
     (let communityID = trim_space rCommunityId in
      guard_that (communityID \<noteq> []) CodeInvalidArgument ''community_id is required'' (
      try_call (wrapped CodeInternal ''failed to list channels'')
        (repo_ListChannelsByCommunity P communityID) (\<lambda>chs.
      ok (map toPBChannel chs))))"

section \<open>Members\<close>

text \<open>
  \<open>AddMember\<close> returns a nil row when the conflicting row has gone again before it is read; the
  handler then reads the nickname of a nil pointer.
\<close>

definition JoinCommunity :: "pg_env \<Rightarrow> string \<Rightarrow> string \<Rightarrow> (community_svc, pb_member) handler" where
  "JoinCommunity P callerID rCommunityId =
     authenticated callerID (
     let communityID = trim_space rCommunityId in
     guard_that (communityID \<noteq> []) CodeInvalidArgument ''community_id is required'' (
     try_call (replaced CodeNotFound ''community not found'') (CommunityCache_Get P communityID)
       (\<lambda>_.
     try_call (replaced CodeNotFound ''community not found'')
       (repo_IsCommunityPublic P communityID) (\<lambda>public.
     guard_that public CodeNotFound ''community not found'' (
     try_call (wrapped CodeInternal ''failed to join community'')
       (repo_AddMember P communityID callerID) (\<lambda>member. do {
     MembersCache_Invalidate communityID;
     rerr \<leftarrow> repo_GetDefaultRole P communityID;
     (case rerr of
        Inl e \<Rightarrow> ret ()
      | Inr defaultRole \<Rightarrow> do {
          repo_AssignRole P communityID callerID (role_id defaultRole);
          ret ()
        });
     case member of
       None \<Rightarrow> ret (Inl Panic)
     | Some m \<Rightarrow> do {
         publishMemberJoined P communityID callerID (mem_nickname m);
         ok (pb_member_of m)
       }
     }))))))"

definition LeaveCommunity :: "pg_env \<Rightarrow> string \<Rightarrow> string \<Rightarrow> (community_svc, unit) handler" where
  "LeaveCommunity P callerID rCommunityId =
     authenticated callerID (
     let communityID = trim_space rCommunityId in
     guard_that (communityID \<noteq> []) CodeInvalidArgument ''community_id is required'' (
     try_call (replaced CodeNotFound ''community not found'') (CommunityCache_Get P communityID)
       (\<lambda>community.
     guard_that (comm_owner_id community \<noteq> callerID) CodeFailedPrecondition
       ''community owner cannot leave; transfer ownership or delete'' (
     try_call (wrapped CodeInternal ''failed to leave community'')
       (repo_RemoveMember P communityID callerID) (\<lambda>_. do {
     MembersCache_Invalidate communityID;
     publishMemberLeft P communityID callerID;
     ok ()
     })))))"

text \<open>The checks of \<open>KickMember\<close> on who removes whom, then the removal.\<close>

definition kick_allowed ::
  "pg_env \<Rightarrow> string \<Rightarrow> string \<Rightarrow> string \<Rightarrow> community_row \<Rightarrow> (community_svc, unit) handler" where
  "kick_allowed P callerID communityID targetUserID community =
     (if targetUserID = callerID
      then guard_that (comm_owner_id community \<noteq> callerID) CodeFailedPrecondition
             ''community owner cannot leave; transfer ownership or delete'' (ok ())
      else
        try_conn (if comm_owner_id community \<noteq> callerID
                  then checkPermission P communityID callerID PermissionKickMembers
                  else ok ()) (\<lambda>_.
        guard_that (targetUserID \<noteq> comm_owner_id community) CodeFailedPrecondition
          ''cannot kick the community owner'' (ok ())))"

definition KickMember ::
  "pg_env \<Rightarrow> string \<Rightarrow> string \<Rightarrow> string \<Rightarrow> (community_svc, unit) handler" where
  "KickMember P callerID rCommunityId rUserId =
     authenticated callerID (
     let communityID = trim_space rCommunityId; targetUserID = trim_space rUserId in
     guard_that (communityID \<noteq> [] \<and> targetUserID \<noteq> []) CodeInvalidArgument
       ''community_id and user_id are required'' (
     try_call (replaced CodeNotFound ''community not found'') (CommunityCache_Get P communityID)
       (\<lambda>community.
     try_conn (kick_allowed P callerID communityID targetUserID community) (\<lambda>_.
     try_call (wrapped CodeInternal ''failed to kick member'')
       (repo_RemoveMember P communityID targetUserID) (\<lambda>_. do {
     MembersCache_Invalidate communityID;
     publishMemberLeft P communityID targetUserID;
     ok ()
     })))))"

definition ListMembers ::
  "pg_env \<Rightarrow> string \<Rightarrow> pagination_request option \<Rightarrow>
   (community_svc, pb_member list \<times> pagination_response) handler" where
  "ListMembers P rCommunityId rPagination =
     (let communityID = trim_space rCommunityId in
      guard_that (communityID \<noteq> []) CodeInvalidArgument ''community_id is required'' (
      let (limit, cursor) = page_args rPagination in
      try_call (wrapped CodeInternal ''failed to list members'')
        (repo_ListMembersByCommunity P communityID limit cursor) (\<lambda>(rows, nextCursor).
      ok (map pb_member_of rows, page_response nextCursor))))"

section \<open>Messages of a channel\<close>

definition file_attachment :: "string \<Rightarrow> string \<Rightarrow> attachment_row" where
  "file_attachment messageID fileID =
     \<lparr>att_id = [], att_message_type = ''channel'', att_message_id = messageID,
      att_file_id = fileID, att_filename = [], att_content_type = [], att_size = 0\<rparr>"

definition SendMessage ::
  "pg_env \<Rightarrow> string \<Rightarrow> string \<Rightarrow> string \<Rightarrow> string list \<Rightarrow>
   (community_svc, pb_channel_message) handler" where
  "SendMessage P callerID rChannelId rContent rFileIds =
     authenticated callerID (
     let channelID = trim_space rChannelId; content = trim_space rContent in
     guard_that (channelID \<noteq> [] \<and> content \<noteq> []) CodeInvalidArgument
       ''channel_id and content are required'' (
     try_call (replaced CodeNotFound ''channel not found'') (repo_GetChannel P channelID) (\<lambda>ch.
     try_call (wrapped CodeInternal ''failed to check membership'')
       (MembersCache_Get P (ch_community_id ch)) (\<lambda>members.
     guard_that (cachedMembersSet members callerID) CodePermissionDenied
       ''not a member of this community'' (
     try_conn (checkPermission P (ch_community_id ch) callerID PermissionSendMessages) (\<lambda>_.
     try_call (wrapped CodeInternal ''failed to send message'')
       (repo_InsertChannelMessage P channelID callerID content) (\<lambda>msg. do {
     (if rFileIds \<noteq> []
      then do { repo_InsertAttachments P (map (file_attachment (cm_id msg)) rFileIds); ret () }
      else ret ());
     publishMessageCreated (cm_id msg) channelID (ch_community_id ch) callerID content
       (unix (cm_created_at msg)) (cm_seq msg) (map mem_user_id members);
     dbAttachments \<leftarrow> repo_GetAttachmentsByMessage P ''channel'' (cm_id msg);
     let atts = (case dbAttachments of Inl aerr \<Rightarrow> [] | Inr as \<Rightarrow> map pb_attachment_of as);
     ok (pb_message_of msg atts)
     })))))))"

definition DeleteMessage :: "pg_env \<Rightarrow> string \<Rightarrow> string \<Rightarrow> (community_svc, unit) handler" where
  "DeleteMessage P callerID rMessageId =
     authenticated callerID (
     let messageID = trim_space rMessageId in
     guard_that (messageID \<noteq> []) CodeInvalidArgument ''message_id is required'' (
     try_call (replaced CodeNotFound ''message not found'')
       (repo_GetChannelMessageAuthor P messageID) (\<lambda>authorID.
     guard_that (authorID = callerID) CodePermissionDenied ''can only delete your own messages'' (
     try_call (wrapped CodeInternal ''failed to delete message'')
       (repo_DeleteChannelMessage P messageID) (\<lambda>_.
     ok ())))))"

definition EditMessage ::
  "pg_env \<Rightarrow> string \<Rightarrow> string \<Rightarrow> string \<Rightarrow> (community_svc, pb_channel_message) handler" where
  "EditMessage P callerID rMessageId rContent =
     authenticated callerID (
     let messageID = trim_space rMessageId; content = trim_space rContent in
     guard_that (messageID \<noteq> [] \<and> content \<noteq> []) CodeInvalidArgument
       ''message_id and content are required'' (
     try_call (replaced CodeNotFound ''message not found'')
       (repo_GetChannelMessageAuthor P messageID) (\<lambda>authorID.
     guard_that (authorID = callerID) CodePermissionDenied ''can only edit your own messages'' (
     try_call (wrapped CodeInternal ''failed to edit message'')
       (repo_UpdateChannelMessage P messageID content) (\<lambda>updated.
     ok (pb_message_of updated []))))))"

definition channelMessageWithAttachments ::
  "pg_env \<Rightarrow> channel_message_row \<Rightarrow> (community_svc, pb_channel_message) state" where
  "channelMessageWithAttachments P m = do {
     r \<leftarrow> repo_GetAttachmentsByMessage P ''channel'' (cm_id m);
     ret (case r of
            Inl err \<Rightarrow> pb_message_of m []
          | Inr as \<Rightarrow> pb_message_of m (map pb_attachment_of as))
   }"

fun messages_with_attachments ::
  "pg_env \<Rightarrow> channel_message_row list \<Rightarrow> (community_svc, pb_channel_message list) state" where
  "messages_with_attachments P [] = ret []"
| "messages_with_attachments P (m # ms) = do {
     pb \<leftarrow> channelMessageWithAttachments P m;
     pbs \<leftarrow> messages_with_attachments P ms;
     ret (pb # pbs)
   }"

definition GetMessages ::
  "pg_env \<Rightarrow> string \<Rightarrow> string \<Rightarrow> pagination_request option \<Rightarrow> int \<Rightarrow>
   (community_svc, pb_channel_message list \<times> pagination_response) handler" where
  "GetMessages P callerID rChannelId rPagination rSinceSeq =
     authenticated callerID (
     let channelID = trim_space rChannelId in
     guard_that (channelID \<noteq> []) CodeInvalidArgument ''channel_id is required'' (
     try_call (replaced CodeNotFound ''channel not found'') (repo_GetChannel P channelID) (\<lambda>ch.
     try_call (wrapped CodeInternal ''failed to check membership'')
       (MembersCache_Get P (ch_community_id ch)) (\<lambda>members.
     guard_that (cachedMembersSet members callerID) CodePermissionDenied
       ''not a member of this community'' (
     try_conn (checkPermission P (ch_community_id ch) callerID PermissionReadMessages) (\<lambda>_.
     let (limit, cursor) = page_args rPagination in
     if rSinceSeq > 0
     then
       try_call (wrapped CodeInternal ''failed to get messages since'')
         (repo_GetChannelMessagesSince P channelID rSinceSeq limit) (\<lambda>rows. do {
       pbs \<leftarrow> messages_with_attachments P rows;
       ok (pbs, page_response [])
       })
     else
       try_call (wrapped CodeInternal ''failed to get messages'')
         (repo_GetChannelMessages P channelID limit cursor) (\<lambda>(rows, nextCursor). do {
       pbs \<leftarrow> messages_with_attachments P rows;
       ok (pbs, page_response nextCursor)
       })))))))"

section \<open>The invariant is kept\<close>

text \<open>
  A predicate that survives every statement of the repository: it implies the integrity of the
  tables and does not look further into them than the owners. With it go the calls that change
  no table at all.
\<close>

definition evolving :: "pg_env \<Rightarrow> ('z infra_scheme \<Rightarrow> bool) \<Rightarrow> bool" where
  "evolving P I \<longleftrightarrow>
     calls_safe I \<and>
     (\<forall>s d. I s \<longrightarrow> db_ok d \<longrightarrow> owners_evolve P (db s) d \<longrightarrow> accounts_stay (db s) d \<longrightarrow> I (s\<lparr>db := d\<rparr>)) \<and>
     (\<forall>s. I s \<longrightarrow> db_ok (db s)) \<and>
     (\<forall>s p. I s \<longrightarrow> I (s\<lparr>published := p\<rparr>))"

lemma stmt_safe_evolving:
  assumes "evolving P I" and "stmt_keeps db_ok stmt" and "stmt_rel (owners_evolve P) stmt"
    and "stmt_rel accounts_stay stmt"
  shows "stmt_safe I stmt"
  unfolding stmt_safe_def
proof (intro conjI allI impI)
  show "calls_safe I" using assms(1) by (simp add: evolving_def)
  fix s x d assume I: "I s" and run: "stmt (now s) (db s) = Inr (x, d)"
  have "db_ok d" using assms(1,2) I run by (auto simp: evolving_def stmt_keeps_def)
  moreover have "owners_evolve P (db s) d" using assms(3) run by (auto simp: stmt_rel_def)
  moreover have "accounts_stay (db s) d" using assms(4) run by (auto simp: stmt_rel_def)
  ultimately show "I (s\<lparr>db := d\<rparr>)" using assms(1) I by (auto simp: evolving_def)
qed

lemma preserves_repo_evolving:
  assumes I: "evolving P I"
  shows "preserves I (repo_CreateCommunity P n ds url u)"
    and "preserves I (repo_UpdateCommunity P c n ds url)"
    and "preserves I (repo_DeleteCommunity P c)"
    and "preserves I (repo_CreateChannel P c n tp ty pos)"
    and "preserves I (repo_UpdateChannel P c n tp ty pos)"
    and "preserves I (repo_DeleteChannel P c)"
    and "preserves I (repo_AddMember P c u)"
    and "preserves I (repo_RemoveMember P c u)"
    and "preserves I (repo_CreateRole P c n col perm pos)"
    and "preserves I (repo_AssignRole P c u k)"
    and "preserves I (repo_InsertChannelMessage P c u content)"
    and "preserves I (repo_DeleteChannelMessage P m)"
    and "preserves I (repo_UpdateChannelMessage P m content)"
    and "preserves I (repo_InsertAttachments P as)"
  by (intro preserves_repo_writes stmt_safe_evolving [OF I] community_keeps community_owners accounts_stays
      | use I in \<open>simp add: evolving_def\<close>)+

lemma calls_safe_evolving: "evolving P I \<Longrightarrow> calls_safe I"
  by (simp add: evolving_def)

lemma preserves_publish_evolving:
  assumes I: "evolving P I"
  shows "preserves I (nats_publish subj payload)"
  using I by (intro preserves_nats_publish) (auto simp: evolving_def)

lemma preserves_events:
  assumes I: "evolving P I"
  shows "preserves I (publishMessageCreated mid ch c u content t q ms)"
    and "preserves I (publishMemberJoined P c u n)"
    and "preserves I (publishMemberLeft P c u)"
  unfolding publishMessageCreated_def publishMemberJoined_def publishMemberLeft_def Let_def
  by (intro preserves_intros preserves_repo_reads preserves_publish_evolving [OF I]
      calls_safe_evolving [OF I])+

lemma evolving_svc_ok: "pg_env_ok P \<Longrightarrow> evolving P (svc_ok P)"
  unfolding evolving_def by (auto intro: svc_ok_db) (auto simp: svc_ok_def)

lemma evolving_entry:
  "pg_env_ok P \<Longrightarrow> evolving P (\<lambda>s. svc_ok P s \<and> community_entry P (db s) k j)"
  unfolding evolving_def
  by (auto intro: svc_ok_db community_entry_evolve simp: calls_safe_def) (auto simp: svc_ok_def)

lemma preserves_checkPermission:
  "calls_safe I \<Longrightarrow> preserves I (CommunityCache_Get P c) \<Longrightarrow> preserves I (checkPermission P c u req)"
  unfolding checkPermission_def Let_def by (intro preserves_intros preserves_repo_reads)

lemma preserves_messages_with_attachments:
  "calls_safe I \<Longrightarrow> preserves I (messages_with_attachments P ms)"
  by (induction ms)
     (auto simp: channelMessageWithAttachments_def intro!: preserves_intros preserves_repo_reads)

text \<open>A predicate that survives the caches too.\<close>

definition handler_safe :: "pg_env \<Rightarrow> (community_svc \<Rightarrow> bool) \<Rightarrow> bool" where
  "handler_safe P I \<longleftrightarrow>
     evolving P I \<and>
     (\<forall>c. preserves I (CommunityCache_Get P c)) \<and> (\<forall>c. preserves I (MembersCache_Get P c)) \<and>
     (\<forall>c. preserves I (CommunityCache_Invalidate c)) \<and>
     (\<forall>c. preserves I (MembersCache_Invalidate c)) \<and>
     (\<forall>c. preserves I (RolesCache_Invalidate c))"

lemma handler_safeD:
  assumes "handler_safe P I"
  shows "evolving P I" and "preserves I (CommunityCache_Get P c)"
    and "preserves I (MembersCache_Get P c)" and "preserves I (CommunityCache_Invalidate c)"
    and "preserves I (MembersCache_Invalidate c)" and "preserves I (RolesCache_Invalidate c)"
    and "calls_safe I"
  using assms by (auto simp: handler_safe_def evolving_def)

lemma handler_safe_svc_ok: "pg_env_ok P \<Longrightarrow> handler_safe P (svc_ok P)"
  unfolding handler_safe_def by (intro conjI allI evolving_svc_ok preserves_intros)

lemma handler_safe_db: "evolving P (\<lambda>s :: community_svc. Q (db s)) \<Longrightarrow> handler_safe P (\<lambda>s. Q (db s))"
  unfolding handler_safe_def by (intro conjI allI preserves_caches_db) simp_all

lemma preserves_community_handlers:
  assumes I: "handler_safe P I"
  shows "preserves I (GetCommunity P c)"
    and "preserves I (UpdateCommunity P u c n ds url)"
    and "preserves I (DeleteCommunity P u c)"
    and "preserves I (ListCommunities P u pg)"
    and "preserves I (CreateChannel P u c n tp ty pos)"
    and "preserves I (GetChannel P ch)"
    and "preserves I (UpdateChannel P u ch n tp ty pos)"
    and "preserves I (DeleteChannel P u ch)"
    and "preserves I (ListChannels P c)"
    and "preserves I (JoinCommunity P u c)"
    and "preserves I (LeaveCommunity P u c)"
    and "preserves I (KickMember P u c target)"
    and "preserves I (ListMembers P c pg)"
    and "preserves I (SendMessage P u ch content files)"
    and "preserves I (DeleteMessage P u m)"
    and "preserves I (EditMessage P u m content)"
    and "preserves I (GetMessages P u ch pg since)"
  unfolding GetCommunity_def UpdateCommunity_def DeleteCommunity_def ListCommunities_def
    CreateChannel_def GetChannel_def UpdateChannel_def DeleteChannel_def ListChannels_def
    JoinCommunity_def LeaveCommunity_def KickMember_def kick_allowed_def ListMembers_def
    SendMessage_def DeleteMessage_def EditMessage_def GetMessages_def authenticated_def Let_def
  by (intro preserves_intros handler_safeD [OF I] preserves_repo_reads preserves_checkPermission
      preserves_messages_with_attachments preserves_repo_evolving [OF handler_safeD(1) [OF I]]
      preserves_events [OF handler_safeD(1) [OF I]])+

lemma preserves_db_CreateCommunity:
  assumes I: "evolving P (\<lambda>s :: community_svc. Q (db s))"
  shows "preserves (\<lambda>s. Q (db s)) (CreateCommunity P u n ds url)"
  unfolding CreateCommunity_def authenticated_def Let_def
  by (intro preserves_intros preserves_repo_evolving [OF I])

subsection \<open>A new community and its cache entry\<close>

lemma triple_repo_CreateCommunity:
  assumes P: "pg_env_ok P"
  shows "triple (svc_ok P) (repo_CreateCommunity P n ds url u)
    (\<lambda>r s. svc_ok P s \<and> (case r of Inl _ \<Rightarrow> True
       | Inr c \<Rightarrow> community_entry P (db s) (community_key (comm_id c)) (MarshalCommunity c)))"
proof (rule tripleI)
  fix s r s' assume inv: "svc_ok P s" and run: "run_state (repo_CreateCommunity P n ds url u) s = (r, s')"
  have inv': "svc_ok P s'"
    using preservesD [OF preserves_repo_evolving(1) [OF evolving_svc_ok [OF P]] run inv] .
  have "community_entry P (db s') (community_key (comm_id c)) (MarshalCommunity c)" if "r = Inr c" for c
  proof -
    obtain q s1 where q: "run_state (pg_query_row (sql_insert_community P n ds url u)) s = (q, s1)"
      by fastforce
    with run that have "q = Inr c" "s1 = s'"
      by (auto simp: repo_CreateCommunity_def)
    with pg_query_row_InrD [of "sql_insert_community P n ds url u" s c s'] q
    obtain t d xs where ins: "sql_insert_community P n ds url u t (db s) = Inr (c # xs, d)"
      and "db s' = d" by auto
    obtain owner where r: "c = community_row.truncate (new_community P n ds url owner t (db s))"
      "new_community P n ds url owner t (db s) \<in> set (communities (db s'))"
      using sql_insert_community_InrD [OF ins] \<open>db s' = d\<close> by auto
    then have "uuid_in P (comm_id c) = Some (comm_id (new_community P n ds url owner t (db s)))"
      using pg_env_okD(3) [OF P] by simp
    with inv' r(2) have "community_entry P (db s') (community_key (comm_id c))
        (MarshalCommunity (community_row.truncate (new_community P n ds url owner t (db s))))"
      by (intro community_entry_row) (auto simp: svc_ok_def)
    with r(1) show ?thesis by simp
  qed
  with inv' show "svc_ok P s' \<and> (case r of Inl _ \<Rightarrow> True
       | Inr c \<Rightarrow> community_entry P (db s') (community_key (comm_id c)) (MarshalCommunity c))"
    by (simp split: sum.split)
qed

lemma preserves_entry_Set:
  "triple (\<lambda>s. svc_ok P s \<and> community_entry P (db s) (community_key (comm_id c)) (MarshalCommunity c))
     (CommunityCache_Set c) (\<lambda>_. svc_ok P)"
  by (auto simp: triple_def CommunityCache_Set_def intro: svc_ok_set)

lemma preserves_svc_ok_CreateCommunity:
  assumes P: "pg_env_ok P"
  shows "preserves (svc_ok P) (CreateCommunity P u n ds url)"
proof -
  let ?I = "\<lambda>c s. svc_ok P s \<and> community_entry P (db s) (community_key (comm_id c)) (MarshalCommunity c)"
  let ?rest = "\<lambda>community.
     try_call (wrapped CodeInternal ''failed to add owner as member'')
       (repo_AddMember P (comm_id community) u) (\<lambda>_.
     try_call (wrapped CodeInternal ''failed to create default role'')
       (repo_CreateRole P (comm_id community) ''@everyone'' 0
          (PermissionReadMessages OR PermissionSendMessages) 0) (\<lambda>defaultRole. do {
     repo_AssignRole P (comm_id community) u (role_id defaultRole);
     try_call (wrapped CodeInternal ''failed to create default channel'')
       (repo_CreateChannel P (comm_id community) ''general'' [] ''text'' 0) (\<lambda>_. do {
         CommunityCache_Set community;
         ok (toPBCommunity community)
       })
     }))"
  have weak: "preserves (?I c) m \<Longrightarrow> triple (?I c) m (\<lambda>r. ?I c)" for c and m :: "(community_svc, 'a) state"
    by (simp add: triple_preserves)
  note writes = weak [OF preserves_repo_evolving(7) [OF evolving_entry [OF P]]]
    weak [OF preserves_repo_evolving(9) [OF evolving_entry [OF P]]]
    weak [OF preserves_repo_evolving(10) [OF evolving_entry [OF P]]]
    weak [OF preserves_repo_evolving(4) [OF evolving_entry [OF P]]]
  have call: "triple (?I c) m (\<lambda>r. ?I c) \<Longrightarrow> (\<And>x. triple (?I c) (k x) (\<lambda>_. svc_ok P)) \<Longrightarrow>
      triple (?I c) (try_call f m k) (\<lambda>_. svc_ok P)"
    for c f and m :: "(community_svc, go_error + 'a) state" and k :: "'a \<Rightarrow> (community_svc, 'b) handler"
    unfolding try_call_def by (erule triple_bind) (auto simp: triple_def split: sum.split)
  have rest: "triple (?I c) (?rest c) (\<lambda>_. svc_ok P)" for c
    by (intro call writes triple_bind [OF writes(3)] triple_bind [OF preserves_entry_Set])
       (simp add: ok_def triple_def)
  have "triple (svc_ok P) (CreateCommunity P u n ds url) (\<lambda>_. svc_ok P)"
    unfolding CreateCommunity_def authenticated_def guard_that_def Let_def fail_def
    apply (simp add: triple_return del: List.append.simps)
    apply (unfold try_call_def [of "wrapped CodeInternal ''failed to create community''"])
    apply (intro conjI impI)
    apply (rule triple_bind [OF triple_repo_CreateCommunity [OF P]])
    apply (case_tac x)
    apply (simp add: triple_return)
    using rest apply simp
    done
  then show ?thesis by (simp add: triple_preserves)
qed

end
