(* ===== verification/CommunityAuth.thy ===== *)
theory CommunityAuth
  imports CommunityService
begin

text \<open>
  Who may change what. \<open>permitted\<close> is the specification of the permission model on the tables:
  the owner of a community, or a user with a role of the community that has the administrator
  bit or a bit of the required mask. The lemmas show that \<open>checkPermission\<close>, which looks into a
  cache for the owner and may see only some of the roles, never lets anyone else through, and
  that no handler changes a table for a caller without the authority, whatever errors the
  database returns and however old the cached values are.
\<close>

section \<open>The permission model\<close>

definition permitted :: "pg_env \<Rightarrow> database \<Rightarrow> string \<Rightarrow> string \<Rightarrow> 64 word \<Rightarrow> bool" where
  "permitted P d c user required \<longleftrightarrow>
     owner_of d c = Some user \<or>
     (\<exists>u. uuid_in P user = Some u \<and>
        (\<exists>r \<in> set (roles_of_member d c u).
           is_administrator r \<or> role_permissions r AND required \<noteq> 0))"

text \<open>
  A cached owner still passes the test after the community is gone; there is nothing left to
  change then.
\<close>

definition allowed :: "pg_env \<Rightarrow> database \<Rightarrow> string \<Rightarrow> string \<Rightarrow> 64 word \<Rightarrow> bool" where
  "allowed P d raw user required \<longleftrightarrow>
     (\<exists>c. uuid_in P raw = Some c \<and> (has_community d c \<longrightarrow> permitted P d c user required))"

definition at_db :: "pg_env \<Rightarrow> database \<Rightarrow> community_svc \<Rightarrow> bool" where
  "at_db P d s \<longleftrightarrow> svc_ok P s \<and> db s = d"

lemma calls_safe_at_db [simp, intro]: "calls_safe (at_db P d)"
  using calls_safe_svc_ok [of P] by (auto simp: calls_safe_def at_db_def)

lemma preserves_at_db:
  "preserves (svc_ok P) m \<Longrightarrow> preserves (\<lambda>s. db s = d) m \<Longrightarrow> preserves (at_db P d) m"
  by (auto simp: preserves_def at_db_def)

lemma preserves_at_db_caches [preserves_intros]:
  "preserves (at_db P d) (CommunityCache_Get P c)"
  "preserves (at_db P d) (MembersCache_Get P c)"
  "preserves (at_db P d) (CommunityCache_Invalidate c)"
  "preserves (at_db P d) (MembersCache_Invalidate c)"
  "preserves (at_db P d) (RolesCache_Invalidate c)"
  by (intro preserves_at_db preserves_intros)+

lemma repo_ListMemberRoles_InrD:
  assumes "run_state (repo_ListMemberRoles P c u) s = (Inr rs, s')"
  shows "rs = [] \<or> (\<exists>c' u'. uuid_in P c = Some c' \<and> uuid_in P u = Some u' \<and>
    set rs \<subseteq> set (roles_of_member (db s) c' u'))"
proof -
  from assms obtain e where "run_state (pg_query P (sql_list_member_roles P c u)) s = (Inr (rs, e), s')"
    by (auto simp: repo_ListMemberRoles_def split: prod.splits sum.splits)
  from pg_query_InrD(1) [OF this] show ?thesis
    by (auto simp: sql_list_member_roles_def stmt_cases dest: in_set_takeD)
qed

lemma checkPermission_sound:
  assumes req: "known_permission req"
  shows "triple (at_db P d) (checkPermission P raw user req)
    (\<lambda>r s. at_db P d s \<and> (r = Inr () \<longrightarrow> allowed P d raw user req))"
proof (rule tripleI)
  fix s r s' assume at: "at_db P d s" and run: "run_state (checkPermission P raw user req) s = (r, s')"
  have at': "at_db P d s'"
    by (rule preservesD [where I = "at_db P d", OF _ run at])
       (intro preserves_checkPermission calls_safe_at_db preserves_intros)
  have "allowed P d raw user req" if r: "r = Inr ()"
  proof -
    from run [unfolded r checkPermission_def] obtain row s1 where
      get: "run_state (CommunityCache_Get P raw) s = (Inr row, s1)" and
      rest: "run_state (if comm_owner_id row = user then ok () else
        try_call (wrapped CodeInternal ''failed to get member roles'')
          (repo_ListMemberRoles P raw user) (\<lambda>rs.
        let member = \<lparr>mem_community_id = raw, mem_user_id = user, mem_nickname = [], mem_joined_at = 0\<rparr>;
            perms = ComputePermissions member rs (comm_owner_id row)
        in guard_that (HasPermission perms req) CodePermissionDenied ''insufficient permissions''
          (ok ()))) s1 = (Inr (), s')"
      by (elim try_call_InrE)
    have "at_db P d s1" by (rule preservesD [where I = "at_db P d", OF _ get at])
        (rule preserves_at_db_caches)
    then have c: "is_community P raw row d"
      using tripleD [OF triple_CommunityCache_Get get] at by (simp add: at_db_def)
    have "permitted P d (comm_id row) user req" if "has_community d (comm_id row)"
    proof (cases "comm_owner_id row = user")
      case True
      with c that show ?thesis
        using owner_of_None [of d "comm_id row"] by (auto simp: is_community_def permitted_def)
    next
      case False
      with rest obtain rs s2 where rs: "run_state (repo_ListMemberRoles P raw user) s1 = (Inr rs, s2)"
        and has: "HasPermission (ComputePermissions \<lparr>mem_community_id = raw, mem_user_id = user,
          mem_nickname = [], mem_joined_at = 0\<rparr> rs (comm_owner_id row)) req"
        by (auto elim!: try_call_InrE guard_that_InrE simp: Let_def)
      from has False obtain k where k: "k \<in> set rs" "is_administrator k \<or> role_permissions k AND req \<noteq> 0"
        by (auto simp: HasPermission_ComputePermissions [OF req])
      with repo_ListMemberRoles_InrD [OF rs] \<open>at_db P d s1\<close> c show ?thesis
        by (auto simp: permitted_def is_community_def at_db_def)
    qed
    with c show ?thesis by (auto simp: allowed_def is_community_def)
  qed
  with at' show "at_db P d s' \<and> (r = Inr () \<longrightarrow> allowed P d raw user req)" by blast
qed

section \<open>Changes need authority\<close>

text \<open>
  From tables \<open>d\<close> a computation leaves them as they are, or the condition \<open>A\<close> holds. The
  conclusion is about every run, also one that returns an error after the fact.
\<close>

definition changes_only ::
  "pg_env \<Rightarrow> database \<Rightarrow> bool \<Rightarrow> (community_svc, 'a) state \<Rightarrow> bool" where
  "changes_only P d A m \<longleftrightarrow> triple (at_db P d) m (\<lambda>_ s. db s = d \<or> A)"

lemma changes_only_granted: "A \<Longrightarrow> changes_only P d A m"
  by (auto simp: changes_only_def triple_def split: prod.split)

lemma changes_only_none: "preserves (at_db P d) m \<Longrightarrow> changes_only P d A m"
  unfolding changes_only_def triple_preserves [symmetric]
  by (erule triple_weaken) (auto simp: at_db_def)

lemma changes_only_bind:
  assumes "triple (at_db P d) m (\<lambda>r s. at_db P d s \<and> C r)"
    and "\<And>r. C r \<Longrightarrow> changes_only P d A (k r)"
  shows "changes_only P d A (State_Monad.bind m k)"
  unfolding changes_only_def
  by (rule triple_bind [OF assms(1)]) (use assms(2) in \<open>auto simp: changes_only_def triple_def\<close>)

lemma changes_only_after:
  "preserves (at_db P d) m \<Longrightarrow> (\<And>r. changes_only P d A (k r)) \<Longrightarrow>
   changes_only P d A (State_Monad.bind m k)"
  by (rule changes_only_bind [where C = "\<lambda>_. True"]) (simp_all add: triple_preserves)

lemma changes_only_guard:
  "(b \<Longrightarrow> changes_only P d A m) \<Longrightarrow> changes_only P d A (guard_that b c msg m)"
  unfolding guard_that_def by (auto intro!: changes_only_none preserves_handlers)

lemma changes_only_try:
  assumes "triple (at_db P d) m (\<lambda>r s. at_db P d s \<and> (\<forall>x. r = Inr x \<longrightarrow> C x))"
    and "\<And>x. C x \<Longrightarrow> changes_only P d A (k x)"
  shows "changes_only P d A (try_call f m k)"
  unfolding try_call_def
  by (rule changes_only_bind [OF assms(1)])
     (use assms(2) in \<open>auto split: sum.split intro!: changes_only_none preserves_return\<close>)

lemma changes_only_conn:
  assumes "triple (at_db P d) m (\<lambda>r s. at_db P d s \<and> (\<forall>x. r = Inr x \<longrightarrow> C x))"
    and "\<And>x. C x \<Longrightarrow> changes_only P d A (k x)"
  shows "changes_only P d A (try_conn m k)"
  unfolding try_conn_def
  by (rule changes_only_bind [OF assms(1)])
     (use assms(2) in \<open>auto split: sum.split intro!: changes_only_none preserves_return\<close>)

lemma changes_only_try_reads:
  "preserves (at_db P d) m \<Longrightarrow> (\<And>x. changes_only P d A (k x)) \<Longrightarrow>
   changes_only P d A (try_call f m k)"
  by (rule changes_only_try [where C = "\<lambda>_. True"]) (simp_all add: triple_preserves)

lemma changes_only_permission:
  assumes "known_permission req"
    and "allowed P d raw user req \<Longrightarrow> changes_only P d A (k ())"
  shows "changes_only P d A (try_conn (checkPermission P raw user req) k)"
  by (rule changes_only_conn [where C = "\<lambda>_. allowed P d raw user req"])
     (use assms checkPermission_sound [OF assms(1)] in \<open>auto elim: triple_weaken\<close>)

text \<open>What the reads before a check tell.\<close>

lemma triple_at_db_query_row:
  assumes "\<And>x xs t. stmt t d = Inr (x # xs, d) \<Longrightarrow> C x" and "reads_only stmt"
  shows "triple (at_db P d) (pg_query_row stmt) (\<lambda>r s. at_db P d s \<and> (\<forall>x. r = Inr x \<longrightarrow> C x))"
proof (rule tripleI, intro conjI allI impI)
  fix s r s' x assume at: "at_db P d s" and run: "run_state (pg_query_row stmt) s = (r, s')"
  show "at_db P d s'"
    by (rule preservesD [where I = "at_db P d", OF _ run at])
       (intro preserves_pg_query_row stmt_safe_reads_only assms(2) calls_safe_at_db)
  assume "r = Inr x"
  with pg_query_row_InrD [of stmt s x s'] run obtain t d1 xs where
    "stmt t (db s) = Inr (x # xs, d1)" by auto
  with reads_onlyD [OF assms(2) this] assms(1) at show "C x" by (auto simp: at_db_def)
qed

lemma triple_repo_GetChannel:
  "triple (at_db P d) (repo_GetChannel P raw) (\<lambda>r s. at_db P d s \<and>
     (\<forall>ch. r = Inr ch \<longrightarrow> ch \<in> set (channels d) \<and> uuid_in P raw = Some (ch_id ch)))"
  unfolding repo_GetChannel_def
  by (rule triple_bind [OF triple_at_db_query_row
        [where C = "\<lambda>ch. ch \<in> set (channels d) \<and> uuid_in P raw = Some (ch_id ch)"]])
     (auto simp: sql_select_channel_def stmt_cases filter_eq_Cons_iff triple_def
       intro: community_reads split: sum.splits go_error.splits)

lemma triple_repo_GetChannelMessageAuthor:
  "triple (at_db P d) (repo_GetChannelMessageAuthor P raw) (\<lambda>r s. at_db P d s \<and>
     (\<forall>a. r = Inr a \<longrightarrow>
        (\<exists>m \<in> set (channel_messages d). uuid_in P raw = Some (cm_id m) \<and> cm_author_id m = a)))"
  unfolding repo_GetChannelMessageAuthor_def
  by (rule triple_bind [OF triple_at_db_query_row
        [where C = "\<lambda>a. \<exists>m \<in> set (channel_messages d).
           uuid_in P raw = Some (cm_id m) \<and> cm_author_id m = a"]])
     (auto simp: sql_select_message_author_def stmt_cases map_eq_Cons_conv filter_eq_Cons_iff
       triple_def intro: community_reads)

lemma triple_repo_IsCommunityPublic:
  "triple (at_db P d) (repo_IsCommunityPublic P raw) (\<lambda>r s. at_db P d s \<and>
     (\<forall>b. r = Inr b \<longrightarrow>
        (\<exists>c \<in> set (communities d). uuid_in P raw = Some (comm_id c) \<and> comm_is_public c = b)))"
  unfolding repo_IsCommunityPublic_def
  by (rule triple_bind [OF triple_at_db_query_row
        [where C = "\<lambda>c. c \<in> set (communities d) \<and> uuid_in P raw = Some (comm_id c)"]])
     (auto simp: sql_select_community_def stmt_cases filter_eq_Cons_iff triple_def
       map_sum_def intro: community_reads split: sum.splits)

lemma triple_at_db_CommunityCache_Get:
  "triple (at_db P d) (CommunityCache_Get P raw) (\<lambda>r s. at_db P d s \<and>
     (\<forall>row. r = Inr row \<longrightarrow> is_community P raw row d))"
proof (rule tripleI, intro conjI allI impI)
  fix s r s' row assume at: "at_db P d s" and run: "run_state (CommunityCache_Get P raw) s = (r, s')"
  show at': "at_db P d s'"
    by (rule preservesD [where I = "at_db P d", OF _ run at]) (rule preserves_at_db_caches)
  assume "r = Inr row"
  with tripleD [OF triple_CommunityCache_Get run] at at' show "is_community P raw row d"
    by (simp add: at_db_def)
qed

text \<open>A statement that finds nothing to change.\<close>

lemma stmt_safe_noop:
  "(\<And>t x d'. stmt t d = Inr (x, d') \<Longrightarrow> d' = d) \<Longrightarrow> stmt_safe (at_db P d) stmt"
  by (fastforce simp: stmt_safe_def at_db_def)

lemma delete_nothing:
  "\<forall>x \<in> set (channels d). \<not> Q x \<Longrightarrow> delete_channels Q d = d"
  "\<forall>x \<in> set (community_members d). \<not> R x \<Longrightarrow> delete_members R d = d"
  "\<forall>x \<in> set (roles d). \<not> T x \<Longrightarrow> delete_roles T d = d"
  by (simp_all add: delete_channels_def delete_members_def delete_roles_def)

lemma absent_community:
  assumes "db_ok d" and "\<not> has_community d c"
  shows "delete_community c d = d" and "delete_members (\<lambda>m. member_key m = (c, u)) d = d"
proof -
  have "\<forall>x \<in> set (channels d). ch_community_id x \<noteq> c"
    "\<forall>x \<in> set (community_members d). mem_community_id x \<noteq> c"
    "\<forall>x \<in> set (roles d). role_community_id x \<noteq> c" "\<forall>x \<in> set (communities d). comm_id x \<noteq> c"
    using assms by (auto simp: db_ok_def refs_ok_def has_community_def)
  then show "delete_community c d = d" "delete_members (\<lambda>m. member_key m = (c, u)) d = d"
    by (simp_all add: delete_community_def delete_nothing member_key_def)
qed

subsection \<open>The handlers\<close>

lemma at_db_D: "at_db P d s \<Longrightarrow> db_ok d \<and> ids_used P d"
  by (auto simp: at_db_def svc_ok_def)

lemma channel_community:
  "db_ok d \<Longrightarrow> ids_used P d \<Longrightarrow> ch \<in> set (channels d) \<Longrightarrow>
   has_community d (ch_community_id ch) \<and>
   uuid_in P (ch_community_id ch) = Some (ch_community_id ch)"
  using owner_of_None [of d "ch_community_id ch"]
  by (auto simp: db_ok_def refs_ok_def ids_used_def)

lemma allowed_channel:
  "db_ok d \<Longrightarrow> ids_used P d \<Longrightarrow> ch \<in> set (channels d) \<Longrightarrow>
   allowed P d (ch_community_id ch) user req \<Longrightarrow> permitted P d (ch_community_id ch) user req"
  using channel_community by (fastforce simp: allowed_def)

lemma UpdateCommunity_authority:
  assumes "db_ok d"
  shows "changes_only P d
    (\<exists>c. uuid_in P (trim_space rId) = Some c \<and> permitted P d c user PermissionManageCommunity)
    (UpdateCommunity P user rId n ds url)"
  unfolding UpdateCommunity_def authenticated_def Let_def
proof (intro changes_only_guard changes_only_permission known_permissions)
  assume al: "allowed P d (trim_space rId) user PermissionManageCommunity"
  then obtain c where c: "uuid_in P (trim_space rId) = Some c"
    and "has_community d c \<longrightarrow> permitted P d c user PermissionManageCommunity"
    by (auto simp: allowed_def)
  then consider "permitted P d c user PermissionManageCommunity" | "\<not> has_community d c" by blast
  then show "changes_only P d
    (\<exists>c. uuid_in P (trim_space rId) = Some c \<and> permitted P d c user PermissionManageCommunity)
    (try_call (wrapped CodeInternal ''failed to update community'')
       (repo_UpdateCommunity P (trim_space rId) (trim_space n) (trim_space ds) (trim_space url))
       (\<lambda>community. do { CommunityCache_Invalidate (trim_space rId); ok (toPBCommunity community) }))"
  proof cases
    case 1
    with c show ?thesis by (intro changes_only_granted) blast
  next
    case 2
    then have "\<forall>r \<in> set (communities d). comm_id r \<noteq> c" by (auto simp: has_community_def)
    then have "stmt_safe (at_db P d)
        (sql_update_community P (trim_space rId) (trim_space n) (trim_space ds) (trim_space url))"
      using c by (intro stmt_safe_noop) (auto simp: sql_update_community_def stmt_cases map_if_none)
    then show ?thesis
      by (intro changes_only_none preserves_intros preserves_repo_UpdateCommunity)
  qed
qed

lemma DeleteCommunity_authority:
  assumes ok: "db_ok d"
  shows "changes_only P d
    (\<exists>c. uuid_in P (trim_space rId) = Some c \<and> owner_of d c = Some user)
    (DeleteCommunity P user rId)"
  unfolding DeleteCommunity_def authenticated_def Let_def
proof (intro changes_only_guard changes_only_try [OF triple_at_db_CommunityCache_Get])
  fix row assume c: "is_community P (trim_space rId) row d" and own: "comm_owner_id row = user"
  show "changes_only P d (\<exists>c. uuid_in P (trim_space rId) = Some c \<and> owner_of d c = Some user)
    (try_call (wrapped CodeInternal ''failed to delete community'')
       (repo_DeleteCommunity P (trim_space rId)) (\<lambda>_. do {
     CommunityCache_Invalidate (trim_space rId);
     MembersCache_Invalidate (trim_space rId);
     RolesCache_Invalidate (trim_space rId);
     ok ()
     }))"
  proof (cases "has_community d (comm_id row)")
    case True
    with c own have "owner_of d (comm_id row) = Some user"
      using owner_of_None [of d "comm_id row"] by (auto simp: is_community_def)
    with c show ?thesis by (intro changes_only_granted) (auto simp: is_community_def)
  next
    case False
    then have "stmt_safe (at_db P d) (sql_delete_community P (trim_space rId))"
      using c by (intro stmt_safe_noop)
        (auto simp: sql_delete_community_def stmt_cases is_community_def absent_community [OF ok])
    then show ?thesis
      by (intro changes_only_none preserves_intros preserves_repo_DeleteCommunity)
  qed
qed

lemma CreateChannel_authority:
  "changes_only P d
    (\<exists>c. uuid_in P (trim_space rId) = Some c \<and> permitted P d c user PermissionManageChannels)
    (CreateChannel P user rId n tp ty pos)"
  unfolding CreateChannel_def authenticated_def Let_def
proof (intro changes_only_guard changes_only_permission known_permissions)
  assume "allowed P d (trim_space rId) user PermissionManageChannels"
  then obtain c where c: "uuid_in P (trim_space rId) = Some c"
    and "has_community d c \<longrightarrow> permitted P d c user PermissionManageChannels"
    by (auto simp: allowed_def)
  then consider "permitted P d c user PermissionManageChannels" | "\<not> has_community d c" by blast
  then show "changes_only P d
    (\<exists>c. uuid_in P (trim_space rId) = Some c \<and> permitted P d c user PermissionManageChannels)
    (try_call (wrapped CodeInternal ''failed to create channel'')
       (repo_CreateChannel P (trim_space rId) (trim_space n) (trim_space tp)
          (request_channel_type ty) pos) (\<lambda>ch. ok (toPBChannel ch)))"
  proof cases
    case 1
    with c show ?thesis by (intro changes_only_granted) blast
  next
    case 2
    then have "stmt_safe (at_db P d) (sql_insert_channel P (trim_space rId) (trim_space n)
        (trim_space tp) (request_channel_type ty) pos)"
      using c by (intro stmt_safe_noop)
        (auto simp: sql_insert_channel_def stmt_cases split: if_splits)
    then show ?thesis
      by (intro changes_only_none preserves_intros preserves_repo_CreateChannel)
  qed
qed

lemma UpdateChannel_authority:
  assumes "db_ok d" and "ids_used P d"
  shows "changes_only P d
    (\<exists>ch \<in> set (channels d). uuid_in P (trim_space rId) = Some (ch_id ch) \<and>
       permitted P d (ch_community_id ch) user PermissionManageChannels)
    (UpdateChannel P user rId n tp ty pos)"
  unfolding UpdateChannel_def authenticated_def Let_def
  by (intro changes_only_guard changes_only_try [OF triple_repo_GetChannel]
      changes_only_permission known_permissions changes_only_granted)
     (use allowed_channel assms in blast)

lemma DeleteChannel_authority:
  assumes "db_ok d" and "ids_used P d"
  shows "changes_only P d
    (\<exists>ch \<in> set (channels d). uuid_in P (trim_space rId) = Some (ch_id ch) \<and>
       permitted P d (ch_community_id ch) user PermissionManageChannels)
    (DeleteChannel P user rId)"
  unfolding DeleteChannel_def authenticated_def Let_def
  by (intro changes_only_guard changes_only_try [OF triple_repo_GetChannel]
      changes_only_permission known_permissions changes_only_granted)
     (use allowed_channel assms in blast)

lemma SendMessage_authority:
  assumes "db_ok d" and "ids_used P d"
  shows "changes_only P d
    (\<exists>ch \<in> set (channels d). uuid_in P (trim_space rId) = Some (ch_id ch) \<and>
       permitted P d (ch_community_id ch) user PermissionSendMessages)
    (SendMessage P user rId content files)"
  unfolding SendMessage_def authenticated_def Let_def
  by (intro changes_only_guard changes_only_try [OF triple_repo_GetChannel]
      changes_only_try_reads preserves_at_db_caches changes_only_permission known_permissions
      changes_only_granted)
     (use allowed_channel assms in blast)

lemma DeleteMessage_authority:
  "changes_only P d
    (\<exists>m \<in> set (channel_messages d). uuid_in P (trim_space rId) = Some (cm_id m) \<and>
       cm_author_id m = user)
    (DeleteMessage P user rId)"
  unfolding DeleteMessage_def authenticated_def Let_def
  by (intro changes_only_guard changes_only_try [OF triple_repo_GetChannelMessageAuthor]
      changes_only_granted) blast

lemma EditMessage_authority:
  "changes_only P d
    (\<exists>m \<in> set (channel_messages d). uuid_in P (trim_space rId) = Some (cm_id m) \<and>
       cm_author_id m = user)
    (EditMessage P user rId content)"
  unfolding EditMessage_def authenticated_def Let_def
  by (intro changes_only_guard changes_only_try [OF triple_repo_GetChannelMessageAuthor]
      changes_only_granted) blast

lemma JoinCommunity_authority:
  "changes_only P d
    (user \<noteq> [] \<and> (\<exists>c \<in> set (communities d). uuid_in P (trim_space rId) = Some (comm_id c) \<and>
       comm_is_public c))
    (JoinCommunity P user rId)"
  unfolding JoinCommunity_def authenticated_def Let_def
  by (intro changes_only_guard changes_only_try_reads preserves_at_db_caches
      changes_only_try [OF triple_repo_IsCommunityPublic] changes_only_granted) blast

lemma CreateCommunity_authority:
  "changes_only P d (user \<noteq> [] \<and> trim_space n \<noteq> []) (CreateCommunity P user n ds url)"
  unfolding CreateCommunity_def authenticated_def Let_def
  by (intro changes_only_guard changes_only_granted) blast

text \<open>Removing a member: nobody removes the owner under the identifier the tables have.\<close>

lemma remove_member_authority:
  assumes ok: "db_ok d" and c: "uuid_in P raw = Some c" and A: "has_community d c \<Longrightarrow> A"
    and k: "\<And>x. preserves (at_db P d) (k x)"
  shows "changes_only P d A (try_call f (repo_RemoveMember P raw target) k)"
proof (cases "has_community d c")
  case True
  then show ?thesis by (intro changes_only_granted A)
next
  case False
  then have "stmt_safe (at_db P d) (sql_delete_member P raw target)"
    using c by (intro stmt_safe_noop)
      (auto simp: sql_delete_member_def stmt_cases absent_community [OF ok])
  then show ?thesis
    by (intro changes_only_none preserves_intros preserves_repo_RemoveMember k)
qed

lemma preserves_publishMemberLeft_at_db:
  "preserves (at_db P d) (publishMemberLeft P c u)"
  unfolding publishMemberLeft_def Let_def
  by (intro preserves_intros preserves_repo_reads preserves_nats_publish calls_safe_at_db)
     (auto simp: at_db_def svc_ok_def)

lemma LeaveCommunity_authority:
  assumes ok: "db_ok d"
  shows "changes_only P d
    (\<exists>c. uuid_in P (trim_space rId) = Some c \<and> has_community d c \<and> owner_of d c \<noteq> Some user)
    (LeaveCommunity P user rId)"
  unfolding LeaveCommunity_def authenticated_def Let_def
  by (intro changes_only_guard changes_only_try [OF triple_at_db_CommunityCache_Get]
      remove_member_authority [OF ok, where c = "comm_id row" for row]
      preserves_intros preserves_publishMemberLeft_at_db)
     (auto simp: is_community_def)

lemma kick_allowed_sound:
  "triple (at_db P d) (kick_allowed P user raw target row)
    (\<lambda>r s. at_db P d s \<and> (\<forall>x. r = Inr x \<longrightarrow> target \<noteq> comm_owner_id row \<and>
       (target = user \<or> comm_owner_id row = user \<or> allowed P d raw user PermissionKickMembers)))"
proof (rule tripleI, intro conjI allI impI)
  fix s r s' assume at: "at_db P d s" and run: "run_state (kick_allowed P user raw target row) s = (r, s')"
  show "at_db P d s'"
    by (rule preservesD [where I = "at_db P d", OF _ run at])
       (auto simp: kick_allowed_def intro!: preserves_intros preserves_checkPermission)
  fix x assume r: "r = Inr x"
  note chk = tripleD [OF checkPermission_sound [OF known_permissions(4)] _ at]
  from run r show "target \<noteq> comm_owner_id row"
    by (auto simp: kick_allowed_def split: if_splits elim!: handler_InrE)
  from run r show "target = user \<or> comm_owner_id row = user \<or> allowed P d raw user PermissionKickMembers"
    by (auto simp: kick_allowed_def split: if_splits elim!: try_conn_InrE dest: chk)
qed

lemma KickMember_authority:
  assumes ok: "db_ok d"
  shows "changes_only P d
    (\<exists>c. uuid_in P (trim_space rId) = Some c \<and> owner_of d c \<noteq> Some (trim_space rUser) \<and>
       (trim_space rUser = user \<or> permitted P d c user PermissionKickMembers))
    (KickMember P user rId rUser)"
  unfolding KickMember_def authenticated_def Let_def
proof (intro changes_only_guard changes_only_try [OF triple_at_db_CommunityCache_Get]
    changes_only_conn [OF kick_allowed_sound])
  fix row x
  assume c: "is_community P (trim_space rId) row d"
    and chk: "trim_space rUser \<noteq> comm_owner_id row \<and> (trim_space rUser = user \<or>
      comm_owner_id row = user \<or> allowed P d (trim_space rId) user PermissionKickMembers)"
  have own: "owner_of d (comm_id row) = Some (comm_owner_id row)" if "has_community d (comm_id row)"
    using c that owner_of_None [of d "comm_id row"] by (auto simp: is_community_def)
  have uuid: "uuid_in P (trim_space rId) = Some (comm_id row)" using c by (simp add: is_community_def)
  have "permitted P d (comm_id row) user PermissionKickMembers"
    if "has_community d (comm_id row)" "trim_space rUser \<noteq> user"
    using chk own [OF that(1)] that uuid by (auto simp: allowed_def) (auto simp: permitted_def)
  with own uuid chk have A: "has_community d (comm_id row) \<Longrightarrow>
      \<exists>c. uuid_in P (trim_space rId) = Some c \<and> owner_of d c \<noteq> Some (trim_space rUser) \<and>
        (trim_space rUser = user \<or> permitted P d c user PermissionKickMembers)"
    by (metis option.inject)
  show "changes_only P d (\<exists>c. uuid_in P (trim_space rId) = Some c \<and>
      owner_of d c \<noteq> Some (trim_space rUser) \<and>
      (trim_space rUser = user \<or> permitted P d c user PermissionKickMembers))
    (try_call (wrapped CodeInternal ''failed to kick member'')
       (repo_RemoveMember P (trim_space rId) (trim_space rUser)) (\<lambda>_. do {
     MembersCache_Invalidate (trim_space rId);
     publishMemberLeft P (trim_space rId) (trim_space rUser);
     ok ()
     }))"
    by (intro remove_member_authority [OF ok uuid A] preserves_intros
        preserves_publishMemberLeft_at_db)
qed

end
