(* ===== verification/CommunityCluster.thy ===== *)
theory CommunityCluster
  imports CommunityAuth
begin

text \<open>
  The community service as it runs: any number of instances, each with its own caches, over one
  set of tables. A step is one request served by one instance (with whatever errors the
  database and NATS return on the way), the restart of an instance, or a change that another
  service makes to the tables. Handlers run one after the other here: two requests never
  interleave their statements.

  \<open>cluster_ok\<close> is the inductive invariant over all reachable states; with it the authority of
  every request (\<open>authority\<close>) is checked against the tables and not against a cache.
\<close>

section \<open>Requests\<close>

datatype community_request =
    ReqCreateCommunity string string string string
  | ReqGetCommunity string
  | ReqUpdateCommunity string string string string string
  | ReqDeleteCommunity string string
  | ReqListCommunities string "pagination_request option"
  | ReqCreateChannel string string string string channel_type int
  | ReqGetChannel string
  | ReqUpdateChannel string string string string channel_type int
  | ReqDeleteChannel string string
  | ReqListChannels string
  | ReqJoinCommunity string string
  | ReqLeaveCommunity string string
  | ReqKickMember string string string
  | ReqListMembers string "pagination_request option"
  | ReqSendMessage string string string "string list"
  | ReqDeleteMessage string string
  | ReqEditMessage string string string
  | ReqGetMessages string string "pagination_request option" int

text \<open>The handler of a request, with the response left out.\<close>

fun serve :: "pg_env \<Rightarrow> community_request \<Rightarrow> (community_svc, unit) state" where
  "serve P (ReqCreateCommunity u n ds url) = do { CreateCommunity P u n ds url; ret () }"
| "serve P (ReqGetCommunity c) = do { GetCommunity P c; ret () }"
| "serve P (ReqUpdateCommunity u c n ds url) = do { UpdateCommunity P u c n ds url; ret () }"
| "serve P (ReqDeleteCommunity u c) = do { DeleteCommunity P u c; ret () }"
| "serve P (ReqListCommunities u pg) = do { ListCommunities P u pg; ret () }"
| "serve P (ReqCreateChannel u c n tp ty pos) = do { CreateChannel P u c n tp ty pos; ret () }"
| "serve P (ReqGetChannel c) = do { GetChannel P c; ret () }"
| "serve P (ReqUpdateChannel u c n tp ty pos) = do { UpdateChannel P u c n tp ty pos; ret () }"
| "serve P (ReqDeleteChannel u c) = do { DeleteChannel P u c; ret () }"
| "serve P (ReqListChannels c) = do { ListChannels P c; ret () }"
| "serve P (ReqJoinCommunity u c) = do { JoinCommunity P u c; ret () }"
| "serve P (ReqLeaveCommunity u c) = do { LeaveCommunity P u c; ret () }"
| "serve P (ReqKickMember u c v) = do { KickMember P u c v; ret () }"
| "serve P (ReqListMembers c pg) = do { ListMembers P c pg; ret () }"
| "serve P (ReqSendMessage u c content files) = do { SendMessage P u c content files; ret () }"
| "serve P (ReqDeleteMessage u m) = do { DeleteMessage P u m; ret () }"
| "serve P (ReqEditMessage u m content) = do { EditMessage P u m content; ret () }"
| "serve P (ReqGetMessages u c pg since) = do { GetMessages P u c pg since; ret () }"

text \<open>What the tables must say for a request to change them.\<close>

definition manages_channel :: "pg_env \<Rightarrow> database \<Rightarrow> string \<Rightarrow> string \<Rightarrow> 64 word \<Rightarrow> bool" where
  "manages_channel P d user rId required \<longleftrightarrow>
     (\<exists>ch \<in> set (channels d). uuid_in P (trim_space rId) = Some (ch_id ch) \<and>
        permitted P d (ch_community_id ch) user required)"

definition wrote_message :: "pg_env \<Rightarrow> database \<Rightarrow> string \<Rightarrow> string \<Rightarrow> bool" where
  "wrote_message P d user rId \<longleftrightarrow>
     (\<exists>m \<in> set (channel_messages d). uuid_in P (trim_space rId) = Some (cm_id m) \<and>
        cm_author_id m = user)"

fun authority :: "pg_env \<Rightarrow> database \<Rightarrow> community_request \<Rightarrow> bool" where
  "authority P d (ReqCreateCommunity u n _ _) = (u \<noteq> [] \<and> trim_space n \<noteq> [])"
| "authority P d (ReqUpdateCommunity u c _ _ _) =
     (\<exists>k. uuid_in P (trim_space c) = Some k \<and> permitted P d k u PermissionManageCommunity)"
| "authority P d (ReqDeleteCommunity u c) =
     (\<exists>k. uuid_in P (trim_space c) = Some k \<and> owner_of d k = Some u)"
| "authority P d (ReqCreateChannel u c _ _ _ _) =
     (\<exists>k. uuid_in P (trim_space c) = Some k \<and> permitted P d k u PermissionManageChannels)"
| "authority P d (ReqUpdateChannel u c _ _ _ _) = manages_channel P d u c PermissionManageChannels"
| "authority P d (ReqDeleteChannel u c) = manages_channel P d u c PermissionManageChannels"
| "authority P d (ReqJoinCommunity u c) =
     (u \<noteq> [] \<and>
      (\<exists>r \<in> set (communities d). uuid_in P (trim_space c) = Some (comm_id r) \<and> comm_is_public r))"
| "authority P d (ReqLeaveCommunity u c) =
     (\<exists>k. uuid_in P (trim_space c) = Some k \<and> has_community d k \<and> owner_of d k \<noteq> Some u)"
| "authority P d (ReqKickMember u c v) =
     (\<exists>k. uuid_in P (trim_space c) = Some k \<and> owner_of d k \<noteq> Some (trim_space v) \<and>
        (trim_space v = u \<or> permitted P d k u PermissionKickMembers))"
| "authority P d (ReqSendMessage u c _ _) = manages_channel P d u c PermissionSendMessages"
| "authority P d (ReqDeleteMessage u m) = wrote_message P d u m"
| "authority P d (ReqEditMessage u m _) = wrote_message P d u m"
| "authority P d _ = False"

section \<open>One request\<close>

lemma changes_only_ignore:
  "changes_only P d A m \<Longrightarrow> changes_only P d A (do { m; ret () })"
  by (auto simp: changes_only_def triple_def split: prod.splits)

lemma preserves_ignore: "preserves I m \<Longrightarrow> preserves I (do { m; ret () })"
  by (intro preserves_intros)

lemma reads_authority:
  "changes_only P d A (GetCommunity P c)" "changes_only P d A (ListCommunities P u pg)"
  "changes_only P d A (GetChannel P c)" "changes_only P d A (ListChannels P c)"
  "changes_only P d A (ListMembers P c pg)" "changes_only P d A (GetMessages P u c pg since)"
  unfolding GetCommunity_def ListCommunities_def GetChannel_def ListChannels_def ListMembers_def
    GetMessages_def authenticated_def Let_def
  by (intro changes_only_none preserves_intros preserves_repo_reads preserves_checkPermission
      preserves_messages_with_attachments calls_safe_at_db)+

lemma serve_changes:
  assumes "db_ok d" and "ids_used P d"
  shows "changes_only P d (authority P d req) (serve P req)"
  by (cases req)
     (simp_all only: serve.simps authority.simps manages_channel_def wrote_message_def
       changes_only_ignore reads_authority CreateCommunity_authority UpdateCommunity_authority
       DeleteCommunity_authority CreateChannel_authority UpdateChannel_authority
       DeleteChannel_authority JoinCommunity_authority LeaveCommunity_authority
       KickMember_authority SendMessage_authority DeleteMessage_authority EditMessage_authority
       assms)

lemma serve_svc_ok: "pg_env_ok P \<Longrightarrow> preserves (svc_ok P) (serve P req)"
  by (cases req)
     (simp_all only: serve.simps preserves_ignore
       preserves_community_handlers [OF handler_safe_svc_ok] preserves_svc_ok_CreateCommunity)

section \<open>The instances\<close>

record instance_caches =
  ic_community :: "json cache"
  ic_members :: "json cache"
  ic_roles :: "json cache"

record cluster =
  shared :: infra
  instances :: "instance_caches list"

definition service_of :: "infra \<Rightarrow> instance_caches \<Rightarrow> community_svc" where
  "service_of s n =
     infra.extend s (community_svc.fields (ic_community n) (ic_members n) (ic_roles n))"

definition caches_of :: "community_svc \<Rightarrow> instance_caches" where
  "caches_of s =
     \<lparr>ic_community = communityCache s, ic_members = membersCache s, ic_roles = rolesCache s\<rparr>"

text \<open>The caches \<open>main.go\<close> builds at start.\<close>

definition new_instance :: "string list \<Rightarrow> instance_caches" where
  "new_instance ps =
     \<lparr>ic_community = NewCommunityCache ps, ic_members = NewMembersCache ps,
      ic_roles = NewRolesCache ps\<rparr>"

inductive cluster_step :: "pg_env \<Rightarrow> cluster \<Rightarrow> cluster \<Rightarrow> bool" for P :: pg_env where
  step_serve:
    "i < length (instances c) \<Longrightarrow> now (shared c) \<le> t \<Longrightarrow>
     s = (shared c)\<lparr>now := t, outcomes := os, nats_connected := b\<rparr> \<Longrightarrow>
     run_state (serve P req) (service_of s (instances c ! i)) = (r, s') \<Longrightarrow>
     cluster_step P c
       (c\<lparr>shared := infra.truncate s', instances := (instances c)[i := caches_of s']\<rparr>)"
| step_restart:
    "i < length (instances c) \<Longrightarrow>
     cluster_step P c (c\<lparr>instances := (instances c)[i := new_instance ps]\<rparr>)"
| step_other:
    "db_ok d \<Longrightarrow> owners_evolve P (db (shared c)) d \<Longrightarrow>
     cluster_step P c (c\<lparr>shared := (shared c)\<lparr>db := d\<rparr>\<rparr>)"

inductive reachable :: "pg_env \<Rightarrow> cluster \<Rightarrow> cluster \<Rightarrow> bool" for P :: pg_env and c0 :: cluster where
  reach_init: "reachable P c0 c0"
| reach_step: "reachable P c0 c \<Longrightarrow> cluster_step P c c' \<Longrightarrow> reachable P c0 c'"

inductive_cases cluster_stepE: "cluster_step P c c'"

definition cluster_ok :: "pg_env \<Rightarrow> cluster \<Rightarrow> bool" where
  "cluster_ok P c \<longleftrightarrow>
     db_ok (db (shared c)) \<and> ids_used P (db (shared c)) \<and>
     (\<forall>n \<in> set (instances c). svc_ok P (service_of (shared c) n))"


section \<open>Reachable states\<close>

lemma serve_evolves:
  "preserves (\<lambda>s. db_ok (db s) \<and> owners_evolve P d (db s)) (serve P req)"
proof -
  have ev: "evolving P (\<lambda>s :: community_svc. db_ok (db s) \<and> owners_evolve P d (db s))"
    by (auto simp: evolving_def calls_safe_def intro: owners_evolve_trans)
  note safe = handler_safe_db [where Q = "\<lambda>d'. db_ok d' \<and> owners_evolve P d d'", OF ev]
  show ?thesis
    by (cases req)
       (simp_all only: serve.simps preserves_ignore preserves_community_handlers [OF safe]
         preserves_db_CreateCommunity [where Q = "\<lambda>d'. db_ok d' \<and> owners_evolve P d d'", OF ev])
qed

lemma svc_ok_service:
  "svc_ok P (service_of s n) \<longleftrightarrow>
     db_ok (db s) \<and> ids_used P (db s) \<and>
     lru.agrees (community_entry P (db s)) (lru (ic_community n)) \<and>
     lru_inv (lru (ic_members n)) \<and> lru_inv (lru (ic_roles n))"
  by (simp add: svc_ok_def service_of_def infra.defs community_svc.defs)

lemma service_of_caches_of [simp]: "service_of (infra.truncate s) (caches_of s) = s"
  by (simp add: service_of_def caches_of_def infra.defs community_svc.defs)

lemma service_of_db [simp]: "db (service_of s n) = db s"
  by (simp add: service_of_def infra.defs)

lemma truncate_db [simp]: "db (infra.truncate s) = db s"
  by (simp add: infra.defs)

lemma new_cache_lru [simp]: "lru (NewCache 10000 ps) = new_lru_cache 10000"
  by (simp add: NewCache_def Let_def)

lemma new_instance_ok:
  "db_ok (db s) \<Longrightarrow> ids_used P (db s) \<Longrightarrow> svc_ok P (service_of s (new_instance ps))"
  by (simp add: svc_ok_service new_instance_def NewCommunityCache_def NewMembersCache_def
      NewRolesCache_def lru_new_inv lru.agrees_def lru_peek_new)

lemma svc_ok_other_tables:
  assumes "pg_env_ok P" and "svc_ok P (service_of s n)" and "db_ok (db s')"
    and "owners_evolve P (db s) (db s')"
  shows "svc_ok P (service_of s' n)"
  using assms lru.agrees_weaken [of "community_entry P (db s)" "lru (ic_community n)"
      "community_entry P (db s')"]
  by (auto simp: svc_ok_service intro: ids_used_evolve community_entry_evolve)

lemma cluster_ok_tables:
  assumes "pg_env_ok P" and "cluster_ok P c" and "db_ok (db s')"
    and "owners_evolve P (db (shared c)) (db s')"
    and "\<And>n. n \<in> set ns \<Longrightarrow> n \<in> set (instances c) \<or> svc_ok P (service_of s' n)"
  shows "cluster_ok P (c\<lparr>shared := s', instances := ns\<rparr>)"
  using assms by (auto simp: cluster_ok_def intro: ids_used_evolve svc_ok_other_tables)

lemma cluster_step_ok:
  assumes P: "pg_env_ok P" and step: "cluster_step P c c'" and inv: "cluster_ok P c"
  shows "cluster_ok P c'"
  using step
proof cases
  case (step_serve i t s os b req r s')
  let ?n = "instances c ! i"
  have n: "svc_ok P (service_of s ?n)"
    using inv step_serve(2,4) by (auto simp: cluster_ok_def svc_ok_service)
  have ok': "svc_ok P s'" by (rule preservesD [OF serve_svc_ok [OF P] step_serve(5) n])
  have "db_ok (db s') \<and> owners_evolve P (db s) (db s')"
    by (rule preservesD [where I = "\<lambda>x. db_ok (db x) \<and> owners_evolve P (db s) (db x)",
          OF serve_evolves step_serve(5)]) (use n in \<open>simp add: svc_ok_def\<close>)
  then show ?thesis
    unfolding step_serve(1) using ok' step_serve(2,4)
    by (intro cluster_ok_tables [OF P inv])
       (auto dest!: subsetD [OF set_update_subset_insert])
next
  case (step_restart i ps)
  have "cluster_ok P (c\<lparr>shared := shared c, instances := (instances c)[i := new_instance ps]\<rparr>)"
    by (rule cluster_ok_tables [OF P inv])
       (use inv in \<open>auto simp: cluster_ok_def new_instance_ok
          dest!: subsetD [OF set_update_subset_insert]\<close>)
  then show ?thesis unfolding step_restart(1) by simp
next
  case (step_other d)
  have "cluster_ok P (c\<lparr>shared := (shared c)\<lparr>db := d\<rparr>, instances := instances c\<rparr>)"
    by (rule cluster_ok_tables [OF P inv]) (use step_other in auto)
  then show ?thesis unfolding step_other(1) by simp
qed

lemma reachable_ok: "reachable P c0 c \<Longrightarrow> pg_env_ok P \<Longrightarrow> cluster_ok P c0 \<Longrightarrow> cluster_ok P c"
  by (induction rule: reachable.induct) (auto intro: cluster_step_ok)

end
