(* ===== verification/CommunityFacts.thy ===== *)
theory CommunityFacts
  imports CommunityCluster
begin

text \<open>
  What the community service promises: the properties of its handlers, over every reachable
  state of the cluster or over every run of one handler. A run is arbitrary: any statement may
  fail, take effect and report a failure, or return part of its rows, unless a property says
  otherwise. The examples at the start are the states in which the properties are tried out.
\<close>

section \<open>An example\<close>

definition demo_user :: "string \<Rightarrow> user_table_row" where
  "demo_user u =
     \<lparr>u_id = u, u_email = u, u_password_hash = [], u_nickname = ''nick'', u_avatar_url = [],
      u_status_message = [], u_created_at = 0, u_updated_at = 0\<rparr>"

definition demo_db :: database where
  "demo_db = empty_db\<lparr>users := [demo_user ''ua'', demo_user ''vb'', demo_user ''wc'']\<rparr>"

definition demo_infra :: "database \<Rightarrow> infra" where
  "demo_infra d =
     \<lparr>db = d, now = 1000000, outcomes = [], nats_connected = True, published = [],
      redis = (\<lambda>_. None)\<rparr>"

definition demo_cluster :: cluster where
  "demo_cluster = \<lparr>shared = demo_infra demo_db, instances = [new_instance [], new_instance []]\<rparr>"

text \<open>A community \<open>a\<close> of \<open>ua\<close> with the channel \<open>abb\<close>, which \<open>vb\<close> has joined.\<close>

definition demo_start :: community_svc where
  "demo_start = service_of (demo_infra demo_db) (new_instance [])"

definition demo_created :: community_svc where
  "demo_created = snd (run_state (CreateCommunity demo_env ''ua'' ''Home'' [] []) demo_start)"

definition demo_joined :: community_svc where
  "demo_joined = snd (run_state (JoinCommunity demo_env ''vb'' ''a'') demo_created)"

definition demo_sent :: community_svc where
  "demo_sent = snd (run_state (SendMessage demo_env ''vb'' ''abb'' ''hello'' []) demo_joined)"

lemma demo_db_ok: "db_ok demo_db" "ids_used demo_env demo_db"
  by (simp_all add: demo_db_def demo_user_def db_ok_defs has_defs empty_db_def ids_used_def
      owner_of_def)

lemma demo_svc_ok:
  "svc_ok demo_env demo_start" "svc_ok demo_env demo_created" "svc_ok demo_env demo_joined"
  "svc_ok demo_env demo_sent"
proof -
  show start: "svc_ok demo_env demo_start"
    unfolding demo_start_def by (rule new_instance_ok) (simp_all add: demo_infra_def demo_db_ok)
  note keep = preserves_svc_ok_CreateCommunity [OF demo_env_ok]
    preserves_community_handlers [OF handler_safe_svc_ok [OF demo_env_ok]]
  show created: "svc_ok demo_env demo_created"
    unfolding demo_created_def using keep(1) start by (simp add: preserves_def)
  show joined: "svc_ok demo_env demo_joined"
    unfolding demo_joined_def using keep(11) created by (simp add: preserves_def)
  show "svc_ok demo_env demo_sent"
    unfolding demo_sent_def using keep(15) joined by (simp add: preserves_def)
qed

lemma demo_cluster_ok: "cluster_ok demo_env demo_cluster"
  by (simp add: cluster_ok_def demo_cluster_def demo_infra_def demo_db_ok new_instance_ok)

section \<open>Integrity and authority\<close>



text \<open>C2: In every reachable state, a request that changes the tables in any way (whether it
  then returns a response or an error) had the authority for it in the tables: the owner or a
  role with the required permission for managing the community and its channels, kicking and
  sending; the owner for deleting the community; the author for editing and deleting a message;
  a public community for joining. Stale caches, cached owners and truncated role lists never
  make up for it.\<close>

theorem changes_need_authority:
  assumes "pg_env_ok P" and "cluster_ok P c0" and "reachable P c0 c" and "n \<in> set (instances c)"
    and "db (snd (run_state (serve P req) (service_of (shared c) n))) \<noteq> db (shared c)"
  shows "authority P (db (shared c)) req"
proof -
  have "at_db P (db (shared c)) (service_of (shared c) n)"
    using reachable_ok [OF assms(3,1,2)] assms(4) by (simp add: cluster_ok_def at_db_def)
  moreover from this have "changes_only P (db (shared c)) (authority P (db (shared c)) req) (serve P req)"
    using serve_changes by (auto simp: at_db_def svc_ok_def)
  ultimately show ?thesis
    using assms(5) by (auto simp: changes_only_def triple_def case_prod_unfold)
qed

theorem changes_need_authority_witness:
  "authority demo_env demo_db (ReqCreateCommunity ''ua'' ''Home'' [] [])"
proof -
  have "db (snd (run_state (serve demo_env (ReqCreateCommunity ''ua'' ''Home'' [] []))
      (service_of (shared demo_cluster) (new_instance [])))) \<noteq> db (shared demo_cluster)"
    by code_simp
  from changes_need_authority [OF demo_env_ok demo_cluster_ok reach_init _ this]
  show ?thesis by (simp add: demo_cluster_def demo_infra_def)
qed

text \<open>C8: In every reachable state, what any instance answers to \<open>GetCommunity\<close> has the
  identifier that was asked for and, as long as the community exists, its owner, however old the
  cached entry is.\<close>

theorem GetCommunity_owner:
  assumes "pg_env_ok P" and "cluster_ok P c0" and "reachable P c0 c" and "n \<in> set (instances c)"
    and "run_state (GetCommunity P rId) (service_of (shared c) n) = (Inr pb, s')"
  shows "uuid_in P (trim_space rId) = Some (pbc_id pb) \<and>
    owner_of (db (shared c)) (pbc_id pb) \<in> {None, Some (pbc_owner_id pb)}"
proof -
  have at: "at_db P (db (shared c)) (service_of (shared c) n)"
    using reachable_ok [OF assms(3,1,2)] assms(4) by (simp add: cluster_ok_def at_db_def)
  from assms(5) obtain row s1 where
    "run_state (CommunityCache_Get P (trim_space rId)) (service_of (shared c) n) = (Inr row, s1)"
    and pb: "pb = toPBCommunity row"
    by (auto simp: GetCommunity_def Let_def elim!: handler_InrE)
  from tripleD [OF triple_at_db_CommunityCache_Get this(1) at]
  have "is_community P (trim_space rId) row (db (shared c))" by simp
  then show ?thesis
    unfolding pb by (cases "owner_of (db (shared c)) (comm_id row)")
      (auto simp: is_community_def toPBCommunity_def)
qed

text \<open>The cluster with the example's first instance in it.\<close>

lemma demo_running:
  "reachable demo_env demo_cluster
     \<lparr>shared = infra.truncate demo_created, instances = [caches_of demo_created, new_instance []]\<rparr>"
proof -
  have "cluster_step demo_env demo_cluster (demo_cluster
      \<lparr>shared := infra.truncate demo_created,
       instances := (instances demo_cluster)[0 := caches_of demo_created]\<rparr>)"
    by (rule step_serve [where i = 0 and t = 1000000 and os = "[]" and b = True and
          req = "ReqCreateCommunity ''ua'' ''Home'' [] []" and s = "demo_infra demo_db" and r = "()"])
       (simp_all add: demo_cluster_def demo_infra_def demo_created_def demo_start_def
         case_prod_unfold)
  then show ?thesis
    using reach_step [OF reach_init] by (simp add: demo_cluster_def)
qed

theorem GetCommunity_owner_witness:
  "\<exists>pb. fst (run_state (GetCommunity demo_env ''A'') demo_created) = Inr pb \<and>
     uuid_in demo_env ''A'' = Some (pbc_id pb) \<and>
     owner_of (db demo_created) (pbc_id pb) \<in> {None, Some (pbc_owner_id pb)}"
proof -
  have "(case fst (run_state (GetCommunity demo_env ''A'') demo_created) of
      Inl _ \<Rightarrow> False | Inr _ \<Rightarrow> True)" by code_simp
  then obtain pb where pb: "fst (run_state (GetCommunity demo_env ''A'') demo_created) = Inr pb"
    by (auto split: sum.splits)
  then have "run_state (GetCommunity demo_env ''A'')
      (service_of (infra.truncate demo_created) (caches_of demo_created)) =
      (Inr pb, snd (run_state (GetCommunity demo_env ''A'') demo_created))"
    by (simp add: prod_eq_iff)
  from GetCommunity_owner [OF demo_env_ok demo_cluster_ok demo_running _, of _ "''A''", simplified, OF _ this]
  have "uuid_in demo_env (trim_space ''A'') = Some (pbc_id pb) \<and>
    owner_of (db demo_created) (pbc_id pb) \<in> {None, Some (pbc_owner_id pb)}" by simp
  moreover have "trim_space ''A'' = ''A''" by code_simp
  ultimately show ?thesis using pb by auto
qed

section \<open>Creating and deleting a community\<close>

lemma filter_absent: "db_ok d \<Longrightarrow> \<not> has_community d c \<Longrightarrow> filter (\<lambda>h. ch_community_id h = c) (channels d) = []"
  by (auto simp: db_ok_def refs_ok_def has_community_def filter_empty_conv)

lemma owner_of_new:
  "\<not> has_community d (comm_id r) \<Longrightarrow>
   owner_of (d\<lparr>communities := communities d @ [r], uuid_count := n\<rparr>) (comm_id r) = Some (comm_owner_id r)"
  by (simp add: owner_of_add owner_of_None [symmetric])

lemma owner_of_frame: "communities d' = communities d \<Longrightarrow> owner_of d' = owner_of d"
  by (simp add: owner_of_def fun_eq_iff)

text \<open>A community that \<open>CreateCommunity\<close> returns is new, the caller is its owner and a member
  of it, it has an \<open>@everyone\<close> role that grants reading and sending messages, and exactly one
  channel, a text channel called general. (The handler only logs a failure to assign the role to
  the owner, who needs none.)\<close>

theorem CreateCommunity_result:
  assumes "db_ok (db s)" and P: "pg_env_ok P"
    and run: "run_state (CreateCommunity P caller n ds url) s = (Inr pb, s')"
  shows "\<not> has_community (db s) (pbc_id pb) \<and>
    owner_of (db s') (pbc_id pb) = Some (pbc_owner_id pb) \<and>
    uuid_in P caller = Some (pbc_owner_id pb) \<and>
    has_member (db s') (pbc_id pb) (pbc_owner_id pb) \<and>
    (\<exists>r \<in> set (roles (db s')). role_community_id r = pbc_id pb \<and> role_name r = ''@everyone'' \<and>
       role_permissions r = PermissionReadMessages OR PermissionSendMessages) \<and>
    map (\<lambda>h. (ch_name h, ch_type h)) (filter (\<lambda>h. ch_community_id h = pbc_id pb) (channels (db s'))) =
      [(''general'', ''text'')]"
proof -
  from run obtain c s1 m s2 k s3 a s4 h s5 where
    create: "run_state (repo_CreateCommunity P (trim_space n) (trim_space ds) (trim_space url) caller) s = (Inr c, s1)" and
    member: "run_state (repo_AddMember P (comm_id c) caller) s1 = (Inr m, s2)" and
    role: "run_state (repo_CreateRole P (comm_id c) ''@everyone'' 0
          (PermissionReadMessages OR PermissionSendMessages) 0) s2 = (Inr k, s3)" and
    assign: "run_state (repo_AssignRole P (comm_id c) caller (role_id k)) s3 = (a, s4)" and
    channel: "run_state (repo_CreateChannel P (comm_id c) ''general'' [] ''text'' 0) s4 = (Inr h, s5)" and
    pb: "pb = toPBCommunity c" and db': "db s' = db s5"
    unfolding CreateCommunity_def authenticated_def Let_def
    by (elim handler_InrE run_bindE) (auto simp: CommunityCache_Set_def ok_def)
  from query_row_wrapped_InrD [OF create [unfolded repo_CreateCommunity_def]]
  obtain t xs where "sql_insert_community P (trim_space n) (trim_space ds) (trim_space url) caller t (db s) =
      Inr (c # xs, db s1)" by blast
  from sql_insert_community_InrD [OF this] obtain u where u: "uuid_in P caller = Some u"
    and fresh: "\<not> has_community (db s) (gen_uuid P (uuid_count (db s)))"
    and c: "c = community_row.truncate (new_community P (trim_space n) (trim_space ds) (trim_space url) u t (db s))"
    and d1: "db s1 = (db s)\<lparr>communities := communities (db s) @ [new_community P (trim_space n) (trim_space ds) (trim_space url) u t (db s)],
            uuid_count := Suc (uuid_count (db s))\<rparr>"
    by auto
  have cid: "comm_id c = gen_uuid P (uuid_count (db s))" "comm_owner_id c = u" using c by simp_all
  then have uc: "uuid_in P (comm_id c) = Some (comm_id c)" using pg_env_okD(3) [OF P] by simp
  from repo_AddMember_InrD [OF member] u uc have m2: "has_member (db s2) (comm_id c) u"
    and d2: "communities (db s2) = communities (db s1)" "channels (db s2) = channels (db s1)"
    by auto
  from query_row_wrapped_InrD [OF role [unfolded repo_CreateRole_def]] uc
  have k3: "k \<in> set (roles (db s3))" "role_community_id k = comm_id c" "role_name k = ''@everyone''"
      "role_permissions k = PermissionReadMessages OR PermissionSendMessages"
    and d3: "communities (db s3) = communities (db s2)" "channels (db s3) = channels (db s2)"
      "community_members (db s3) = community_members (db s2)"
    by (auto dest!: sql_insert_role_InrD)
  have "preserves (\<lambda>q. \<exists>r. db q = (db s3)\<lparr>member_roles := r\<rparr>) (repo_AssignRole P (comm_id c) caller (role_id k))"
    by (intro preserves_repo_AssignRole)
       (auto simp: stmt_safe_def calls_safe_def dest!: sql_insert_member_role_InrD)
  from preservesD [OF this assign] have "\<exists>r. db s4 = (db s3)\<lparr>member_roles := r\<rparr>"
    using exI [of "\<lambda>r. db s3 = (db s3)\<lparr>member_roles := r\<rparr>" "member_roles (db s3)"] by simp
  then obtain r where d4: "db s4 = (db s3)\<lparr>member_roles := r\<rparr>" by blast
  from query_row_wrapped_InrD [OF channel [unfolded repo_CreateChannel_def]] uc d4
  obtain t' where d5: "db s5 = (db s4)\<lparr>channels := channels (db s4) @ [new_channel P (comm_id c) ''general'' [] ''text'' 0 t' (db s4)],
      uuid_count := Suc (uuid_count (db s4))\<rparr>"
    by (auto dest!: sql_insert_channel_InrD)
  have chs: "channels (db s4) = channels (db s)" using d1 d2 d3 d4 by simp
  have "owner_of (db s') (comm_id c) = Some u"
  proof -
    have "communities (db s') = communities (db s1)" using db' d2 d3 d4 d5 by simp
    then have "owner_of (db s') = owner_of (db s1)" by (rule owner_of_frame)
    with d1 fresh cid show ?thesis
      using owner_of_new [of "db s" "new_community P (trim_space n) (trim_space ds) (trim_space url) u t (db s)"] by simp
  qed
  moreover have "has_member (db s') (comm_id c) u" using m2 db' d3 d4 d5 by (simp add: has_member_def)
  moreover have "k \<in> set (roles (db s'))" using k3 db' d4 d5 by simp
  moreover have "filter (\<lambda>h. ch_community_id h = comm_id c) (channels (db s')) =
      [new_channel P (comm_id c) ''general'' [] ''text'' 0 t' (db s4)]"
    using filter_absent [OF assms(1) fresh] db' d5 chs cid by simp
  ultimately show ?thesis
    using fresh cid u k3 unfolding pb by (auto simp: toPBCommunity_def new_channel_def)
qed

theorem CreateCommunity_result_witness:
  "\<exists>pb s'. run_state (CreateCommunity demo_env ''ua'' ''Home'' [] []) demo_start = (Inr pb, s') \<and>
     has_member (db s') (pbc_id pb) ''ua''"
proof -
  have "(case fst (run_state (CreateCommunity demo_env ''ua'' ''Home'' [] []) demo_start) of
      Inl _ \<Rightarrow> False | Inr _ \<Rightarrow> True)" by code_simp
  then obtain pb s' where run:
    "run_state (CreateCommunity demo_env ''ua'' ''Home'' [] []) demo_start = (Inr pb, s')"
    by (cases "run_state (CreateCommunity demo_env ''ua'' ''Home'' [] []) demo_start")
       (auto split: sum.splits)
  have "db_ok (db demo_start)" using demo_svc_ok(1) by (simp add: svc_ok_def)
  from CreateCommunity_result [OF this demo_env_ok run] run show ?thesis
    by (auto simp: demo_env_def)
qed

lemma preserves_db_events:
  "preserves (\<lambda>s. Q (db s)) (publishMessageCreated mid ch c u content t q ms)"
  "preserves (\<lambda>s. Q (db s)) (publishMemberJoined P c u n)"
  "preserves (\<lambda>s. Q (db s)) (publishMemberLeft P c u)"
  unfolding publishMessageCreated_def publishMemberJoined_def publishMemberLeft_def Let_def
  by (intro preserves_intros preserves_repo_reads keeps_preserves [where P = Q, OF keeps_db_nats_publish]
      calls_safe_db [where Q = Q])+

text \<open>C25: A successful \<open>DeleteCommunity\<close> was the owner's (unless the community was gone already),
  and afterwards nothing of the community is left: no row of it, none of its channels, members
  and roles, no role assignment in it and no message in a channel that no longer exists.\<close>

theorem DeleteCommunity_result:
  assumes inv: "svc_ok P s" and run: "run_state (DeleteCommunity P caller rId) s = (Inr (), s')"
  shows "\<exists>c. uuid_in P (trim_space rId) = Some c \<and>
    (has_community (db s) c \<longrightarrow> owner_of (db s) c = Some caller) \<and>
    db s' = delete_community c (db s) \<and> \<not> has_community (db s') c \<and>
    (\<forall>x \<in> set (channels (db s')). ch_community_id x \<noteq> c) \<and>
    (\<forall>x \<in> set (community_members (db s')). mem_community_id x \<noteq> c) \<and>
    (\<forall>x \<in> set (roles (db s')). role_community_id x \<noteq> c) \<and>
    (\<forall>x \<in> set (member_roles (db s')). mr_community_id x \<noteq> c) \<and>
    (\<forall>m \<in> set (channel_messages (db s')). has_channel (db s') (cm_channel_id m))"
proof -
  from run obtain row s1 u1 s2 where
    get: "run_state (CommunityCache_Get P (trim_space rId)) s = (Inr row, s1)" and
    own: "comm_owner_id row = caller" and
    del: "run_state (repo_DeleteCommunity P (trim_space rId)) s1 = (Inr u1, s2)" and
    db': "db s' = db s2"
    unfolding DeleteCommunity_def authenticated_def Let_def
    by (elim handler_InrE run_bindE)
       (auto simp: CommunityCache_Invalidate_def MembersCache_Invalidate_def
         RolesCache_Invalidate_def ok_def)
  have at: "at_db P (db s) s" using inv by (simp add: at_db_def)
  from tripleD [OF triple_at_db_CommunityCache_Get get at]
  have at1: "at_db P (db s) s1" and c: "is_community P (trim_space rId) row (db s)" by simp_all
  from exec_wrapped_InrD [OF del [unfolded repo_DeleteCommunity_def]] at1 c
  have d: "db s2 = delete_community (comm_id row) (db s)"
    by (auto simp: sql_delete_community_def stmt_cases is_community_def at_db_def)
  have "db_ok (db s')" using inv d db' by (simp add: svc_ok_def delete_community_ok)
  moreover have "\<not> has_community (db s') (comm_id row)"
    using d db' by (auto simp: has_community_def)
  moreover have "owner_of (db s) (comm_id row) = Some caller" if "has_community (db s) (comm_id row)"
    using that c own owner_of_None [of "db s" "comm_id row"] by (auto simp: is_community_def)
  moreover have "uuid_in P (trim_space rId) = Some (comm_id row)" using c by (simp add: is_community_def)
  ultimately show ?thesis
    using d db' by (intro exI [of _ "comm_id row"]) (fastforce simp: db_ok_def refs_ok_def has_member_def member_key_def)
qed

theorem DeleteCommunity_result_witness:
  "\<exists>s'. run_state (DeleteCommunity demo_env ''ua'' ''a'') demo_sent = (Inr (), s') \<and>
     \<not> has_community (db s') ''a''"
proof -
  have "fst (run_state (DeleteCommunity demo_env ''ua'' ''a'') demo_sent) = Inr ()" by code_simp
  then obtain s' where run: "run_state (DeleteCommunity demo_env ''ua'' ''a'') demo_sent = (Inr (), s')"
    by (metis prod.collapse)
  have "uuid_in demo_env (trim_space ''a'') = Some ''a''" by code_simp
  with DeleteCommunity_result [OF demo_svc_ok(4) run] run show ?thesis by auto
qed

section \<open>Removing members\<close>

lemma set_roles_of_member:
  "set (roles_of_member d c u) =
     {r \<in> set (roles d). \<lparr>mr_community_id = c, mr_user_id = u, mr_role_id = role_id r\<rparr>
        \<in> set (member_roles d)}"
proof -
  have "mr_role_id mr = k \<and> mr_community_id mr = c \<and> mr_user_id mr = u \<longleftrightarrow>
      mr = \<lparr>mr_community_id = c, mr_user_id = u, mr_role_id = k\<rparr>" for mr :: member_role_row and k
    by auto
  then show ?thesis by (auto simp: roles_of_member_def)
qed

lemma delete_members_roles:
  assumes "db_ok d"
  shows "roles_of_member (delete_members (\<lambda>m. member_key m = (c, u)) d) c u = []"
proof -
  have "set (roles_of_member (delete_members (\<lambda>m. member_key m = (c, u)) d) c u) = {}"
    using assms unfolding set_roles_of_member
    by (force simp: delete_members_def Let_def db_ok_def refs_ok_def has_member_def)
  then show ?thesis by simp
qed

lemma has_member_delete:
  "has_member (delete_members (\<lambda>m. member_key m = (c, u)) d) c' u' \<longleftrightarrow>
     has_member d c' u' \<and> (c', u') \<noteq> (c, u)"
  by (auto simp: has_member_def delete_members_def Let_def)

lemma owner_of_delete_members [simp]: "owner_of (delete_members Q d) = owner_of d"
  by (rule owner_of_frame) simp

text \<open>After a successful \<open>KickMember\<close> the target is no member, has no role and, unless it owns
  the community under another spelling, no permission in the community any more; every other
  membership is as before.\<close>

theorem KickMember_result:
  assumes P: "pg_env_ok P" and inv: "svc_ok P s"
    and run: "run_state (KickMember P caller rId rUser) s = (Inr (), s')"
  shows "\<exists>c u. uuid_in P (trim_space rId) = Some c \<and> uuid_in P (trim_space rUser) = Some u \<and>
    (\<forall>c' u'. has_member (db s') c' u' \<longleftrightarrow> has_member (db s) c' u' \<and> (c', u') \<noteq> (c, u)) \<and>
    roles_of_member (db s') c u = [] \<and>
    (owner_of (db s) c \<noteq> Some u \<longrightarrow> (\<forall>req. \<not> permitted P (db s') c u req))"
proof -
  from run obtain row s1 u1 s2 u2 s3 u3 s4 s5 where
    get: "run_state (CommunityCache_Get P (trim_space rId)) s = (Inr row, s1)" and
    chk: "run_state (kick_allowed P caller (trim_space rId) (trim_space rUser) row) s1 = (Inr u1, s2)" and
    del: "run_state (repo_RemoveMember P (trim_space rId) (trim_space rUser)) s2 = (Inr u2, s3)" and
    pub: "run_state (publishMemberLeft P (trim_space rId) (trim_space rUser)) s4 = (u3, s5)" and
    db': "db s' = db s5" "db s4 = db s3"
    unfolding KickMember_def authenticated_def Let_def
    by (elim handler_InrE run_bindE) (auto simp: MembersCache_Invalidate_def ok_def)
  have at: "at_db P (db s) s" using inv by (simp add: at_db_def)
  have at1: "at_db P (db s) s1"
    using tripleD [OF triple_at_db_CommunityCache_Get get at] by simp
  have at2: "at_db P (db s) s2" using tripleD [OF kick_allowed_sound chk at1] by simp
  from exec_wrapped_InrD [OF del [unfolded repo_RemoveMember_def]] at2 obtain c u where
    cu: "uuid_in P (trim_space rId) = Some c" "uuid_in P (trim_space rUser) = Some u" and
    d3: "db s3 = delete_members (\<lambda>m. member_key m = (c, u)) (db s)"
    by (auto simp: at_db_def dest: sql_delete_member_InrD)
  have "db s5 = db s4"
    using preservesD [OF preserves_db_events(3) [where Q = "\<lambda>d. d = db s4"] pub] by simp
  with db' d3 have d: "db s' = delete_members (\<lambda>m. member_key m = (c, u)) (db s)" by simp
  have "db_ok (db s)" using inv by (simp add: svc_ok_def)
  note roles = delete_members_roles [OF this, of c u]
  have "uuid_in P u = Some u" using pg_env_okD(1) [OF P cu(2)] .
  with cu roles show ?thesis
    unfolding d by (auto simp: has_member_delete permitted_def)
qed

theorem KickMember_result_witness:
  "\<exists>s'. run_state (KickMember demo_env ''ua'' ''a'' ''vb'') demo_sent = (Inr (), s') \<and>
     \<not> has_member (db s') ''a'' ''vb''"
proof -
  have "fst (run_state (KickMember demo_env ''ua'' ''a'' ''vb'') demo_sent) = Inr ()" by code_simp
  then obtain s' where run: "run_state (KickMember demo_env ''ua'' ''a'' ''vb'') demo_sent = (Inr (), s')"
    by (metis prod.collapse)
  have "uuid_in demo_env (trim_space ''a'') = Some ''a''"
    "uuid_in demo_env (trim_space ''vb'') = Some ''vb''" by code_simp+
  with KickMember_result [OF demo_env_ok demo_svc_ok(4) run] run show ?thesis by auto
qed

text \<open>\<open>KickMember\<close> never removes the owner of a community when the target is given in the form
  in which the tables have it: whatever it returns and whatever goes wrong, the owner stays a
  member.\<close>

theorem KickMember_keeps_owner:
  assumes P: "pg_env_ok P" and inv: "svc_ok P s" and own: "owner_of (db s) c = Some u"
    and mem: "has_member (db s) c u" and canon: "uuid_in P (trim_space rUser) = Some (trim_space rUser)"
  shows "has_member (db (snd (run_state (KickMember P caller rId rUser) s))) c u"
proof -
  let ?s' = "snd (run_state (KickMember P caller rId rUser) s)"
  let ?A = "\<exists>c. uuid_in P (trim_space rId) = Some c \<and> owner_of (db s) c \<noteq> Some (trim_space rUser) \<and>
       (trim_space rUser = caller \<or> permitted P (db s) c caller PermissionKickMembers)"
  have "db ?s' = db s \<or> ?A"
    using KickMember_authority [of "db s" P rId rUser caller] inv
    by (auto simp: changes_only_def triple_def at_db_def svc_ok_def case_prod_unfold)
  then show ?thesis
  proof
    assume "db ?s' = db s"
    then show ?thesis using mem by simp
  next
    assume ?A
    then have ne: "uuid_in P (trim_space rId) = Some c \<Longrightarrow> u \<noteq> trim_space rUser" using own by auto
    let ?I = "\<lambda>q. has_member (db q) c u"
    have "stmt_safe ?I (sql_delete_member P (trim_space rId) (trim_space rUser))"
      using ne canon
      by (auto simp: stmt_safe_def calls_safe_def has_member_delete dest!: sql_delete_member_InrD)
    then have "preserves ?I (KickMember P caller rId rUser)"
      unfolding KickMember_def kick_allowed_def authenticated_def Let_def
      by (intro preserves_intros preserves_repo_writes preserves_checkPermission preserves_repo_reads
          preserves_caches_db [where Q = "\<lambda>d. has_member d c u"]
          preserves_db_events [where Q = "\<lambda>d. has_member d c u"]
          calls_safe_db [where Q = "\<lambda>d. has_member d c u"])
    then show ?thesis using mem by (simp add: preserves_def)
  qed
qed

theorem KickMember_keeps_owner_witness:
  "has_member (db (snd (run_state (KickMember demo_env ''vb'' ''a'' ''ua'') demo_sent))) ''a'' ''ua''"
proof (rule KickMember_keeps_owner [OF demo_env_ok demo_svc_ok(4)])
  show "owner_of (db demo_sent) ''a'' = Some ''ua''" by code_simp
  show "has_member (db demo_sent) ''a'' ''ua''" by code_simp
  show "uuid_in demo_env (trim_space ''ua'') = Some (trim_space ''ua'')" by code_simp
qed


section \<open>Messages\<close>

text \<open>Attachments and events do not touch the messages.\<close>

lemma preserves_messages_InsertAttachments:
  "preserves (\<lambda>s. Q (channel_messages (db s))) (repo_InsertAttachments P as)"
  by (intro preserves_repo_InsertAttachments)
     (auto simp: stmt_safe_def calls_safe_def sql_insert_attachment_def stmt_cases split: if_splits)

lemma seqs_below:
  "db_ok d \<Longrightarrow> m \<in> set (channel_messages d) \<Longrightarrow> cm_seq m < next_message_seq d"
  by (auto simp: db_ok_def seqs_ok_def)

text \<open>What the handler reads before it inserts, and where it leaves the messages afterwards.\<close>

lemma SendMessage_insert:
  assumes inv: "svc_ok P s" and run: "run_state (SendMessage P caller rId rContent files) s = (Inr pb, s')"
  shows "\<exists>ch members msg (s1 :: community_svc) s2 atts.
    ch \<in> set (channels (db s)) \<and> uuid_in P (trim_space rId) = Some (ch_id ch) \<and>
    trim_space rContent \<noteq> [] \<and> cachedMembersSet members caller \<and>
    permitted P (db s) (ch_community_id ch) caller PermissionSendMessages \<and> db s1 = db s \<and>
    run_state (repo_InsertChannelMessage P (trim_space rId) caller (trim_space rContent)) s1 = (Inr msg, s2) \<and>
    pb = pb_message_of msg atts \<and> channel_messages (db s') = channel_messages (db s2)"
proof -
  from run obtain ch s1 members s2 u s3 msg s4 a s5 b s6 r s7 where
    get: "run_state (repo_GetChannel P (trim_space rId)) s = (Inr ch, s1)" and
    mem: "run_state (MembersCache_Get P (ch_community_id ch)) s1 = (Inr members, s2)" and
    cached: "cachedMembersSet members caller" "trim_space rContent \<noteq> []" and
    chk: "run_state (checkPermission P (ch_community_id ch) caller PermissionSendMessages) s2 = (Inr u, s3)" and
    ins: "run_state (repo_InsertChannelMessage P (trim_space rId) caller (trim_space rContent)) s3 = (Inr msg, s4)" and
    att: "run_state (if files \<noteq> []
        then do { repo_InsertAttachments P (map (file_attachment (cm_id msg)) files); ret () }
        else ret ()) s4 = (a, s5)" and
    pub: "run_state (publishMessageCreated (cm_id msg) (trim_space rId) (ch_community_id ch) caller
        (trim_space rContent) (unix (cm_created_at msg)) (cm_seq msg) (map mem_user_id members)) s5 = (b, s6)" and
    fetch: "run_state (repo_GetAttachmentsByMessage P ''channel'' (cm_id msg)) s6 = (r, s7)" and
    res: "pb = pb_message_of msg (case r of Inl aerr \<Rightarrow> [] | Inr as \<Rightarrow> map pb_attachment_of as)" "s' = s7"
    unfolding SendMessage_def authenticated_def Let_def
    by (elim handler_InrE run_bindE) auto
  have at: "at_db P (db s) s" using inv by (simp add: at_db_def)
  from tripleD [OF triple_repo_GetChannel get at] have at1: "at_db P (db s) s1"
    and ch: "ch \<in> set (channels (db s))" "uuid_in P (trim_space rId) = Some (ch_id ch)" by auto
  have at2: "at_db P (db s) s2"
    by (rule preservesD [where I = "at_db P (db s)", OF _ mem at1]) (rule preserves_at_db_caches)
  from tripleD [OF checkPermission_sound [OF known_permissions(7)] chk at2]
  have at3: "at_db P (db s) s3" and "allowed P (db s) (ch_community_id ch) caller PermissionSendMessages"
    by auto
  then have perm: "permitted P (db s) (ch_community_id ch) caller PermissionSendMessages"
    using allowed_channel [of "db s" P ch] ch inv by (simp add: svc_ok_def)
  have "channel_messages (db s5) = channel_messages (db s4)"
    by (rule preservesD [where I = "\<lambda>q. channel_messages (db q) = channel_messages (db s4)", OF _ att])
       (auto intro!: preserves_intros preserves_messages_InsertAttachments [where Q = "\<lambda>m. m = channel_messages (db s4)"])
  moreover have "db s6 = db s5"
    using preservesD [OF preserves_db_events(1) [where Q = "\<lambda>d. d = db s5"] pub] by simp
  moreover have "db s7 = db s6"
    using preservesD [OF preserves_repo_reads(14) [OF calls_safe_db [where Q = "\<lambda>d. d = db s6"]] fetch] by simp
  ultimately have "channel_messages (db s') = channel_messages (db s4)" using res(2) by simp
  moreover have "db s3 = db s" using at3 by (simp add: at_db_def)
  ultimately show ?thesis using ch perm cached ins res(1) by blast
qed

text \<open>C11: A message that \<open>SendMessage\<close> returns was sent by someone with the permission to send in
  the channel's community, who is in the member list the service works with. It is the one new
  row, at the end of the messages, with the trimmed text (never empty), the channel that was asked
  for and a sequence number above that of every earlier message of any channel.\<close>

theorem SendMessage_result:
  assumes inv: "svc_ok P s" and run: "run_state (SendMessage P caller rId rContent files) s = (Inr pb, s')"
  shows "\<exists>ch \<in> set (channels (db s)). \<exists>m.
    uuid_in P (trim_space rId) = Some (ch_id ch) \<and>
    permitted P (db s) (ch_community_id ch) caller PermissionSendMessages \<and>
    channel_messages (db s') = channel_messages (db s) @ [m] \<and>
    pb = pb_message_of m (pbg_attachments pb) \<and> cm_channel_id m = ch_id ch \<and>
    uuid_in P caller = Some (cm_author_id m) \<and>
    cm_content m = trim_space rContent \<and> trim_space rContent \<noteq> [] \<and>
    (\<forall>x \<in> set (channel_messages (db s)). cm_seq x < cm_seq m)"
proof -
  from SendMessage_insert [OF assms] obtain ch members msg atts and s1 s2 :: community_svc where
    ch: "ch \<in> set (channels (db s))" "uuid_in P (trim_space rId) = Some (ch_id ch)"
      "trim_space rContent \<noteq> []"
      "permitted P (db s) (ch_community_id ch) caller PermissionSendMessages" "db s1 = db s" and
    ins: "run_state (repo_InsertChannelMessage P (trim_space rId) caller (trim_space rContent)) s1 = (Inr msg, s2)" and
    res: "pb = pb_message_of msg atts" "channel_messages (db s') = channel_messages (db s2)"
    by blast
  from query_row_wrapped_InrD [OF ins [unfolded repo_InsertChannelMessage_def]] ch obtain t xs where
    "sql_insert_channel_message P (trim_space rId) caller (trim_space rContent) t (db s) = Inr (msg # xs, db s2)"
    by auto
  from sql_insert_channel_message_InrD [OF this] ch(2) obtain a where
    "uuid_in P caller = Some a" "msg = new_message P (ch_id ch) a (trim_space rContent) t (db s)"
    "channel_messages (db s2) = channel_messages (db s) @ [msg]" by auto
  moreover have "db_ok (db s)" using inv by (simp add: svc_ok_def)
  ultimately show ?thesis
    using ch res seqs_below by (intro bexI [OF _ ch(1)] exI [of _ msg]) (auto simp: pb_message_of_def)
qed

theorem SendMessage_result_witness:
  "\<exists>pb s'. run_state (SendMessage demo_env ''vb'' ''abb'' '' hi '' []) demo_sent = (Inr pb, s') \<and>
     length (channel_messages (db s')) = 2"
proof -
  have "(case fst (run_state (SendMessage demo_env ''vb'' ''abb'' '' hi '' []) demo_sent) of
      Inl _ \<Rightarrow> False | Inr _ \<Rightarrow> True)" by code_simp
  then obtain pb s' where run:
    "run_state (SendMessage demo_env ''vb'' ''abb'' '' hi '' []) demo_sent = (Inr pb, s')"
    by (cases "run_state (SendMessage demo_env ''vb'' ''abb'' '' hi '' []) demo_sent")
       (auto split: sum.splits)
  have "length (channel_messages (db demo_sent)) = 1" by code_simp
  with SendMessage_result [OF demo_svc_ok(4) run] run show ?thesis by auto
qed

text \<open>A successful \<open>EditMessage\<close> was the author's. It changes the text of that one message,
  which is marked as edited by at least a second (\<open>updated_at\<close> against \<open>created_at\<close>), and keeps
  its identity, channel, author, creation time and sequence number; no other message changes.\<close>

theorem EditMessage_result:
  assumes inv: "svc_ok P s" and run: "run_state (EditMessage P caller rId rContent) s = (Inr pb, s')"
  shows "\<exists>m \<in> set (channel_messages (db s)). \<exists>t.
    uuid_in P (trim_space rId) = Some (cm_id m) \<and> cm_author_id m = caller \<and>
    cm_created_at m + 1000000 \<le> t \<and>
    pb = pb_message_of (m\<lparr>cm_content := trim_space rContent, cm_updated_at := t\<rparr>) [] \<and>
    channel_messages (db s') = map (\<lambda>x. if x = m
      then m\<lparr>cm_content := trim_space rContent, cm_updated_at := t\<rparr> else x) (channel_messages (db s))"
proof -
  from run obtain a s1 upd s2 where
    auth: "run_state (repo_GetChannelMessageAuthor P (trim_space rId)) s = (Inr a, s1)" and
    a: "a = caller" and
    up: "run_state (repo_UpdateChannelMessage P (trim_space rId) (trim_space rContent)) s1 = (Inr upd, s2)" and
    res: "pb = pb_message_of upd []" "s' = s2"
    unfolding EditMessage_def authenticated_def Let_def by (elim handler_InrE) auto
  have at: "at_db P (db s) s" using inv by (simp add: at_db_def)
  from tripleD [OF triple_repo_GetChannelMessageAuthor auth at] a obtain m where
    m: "m \<in> set (channel_messages (db s))" "uuid_in P (trim_space rId) = Some (cm_id m)"
      "cm_author_id m = caller" and d1: "db s1 = db s" by (auto simp: at_db_def)
  have "distinct (map cm_id (channel_messages (db s)))"
    using inv by (simp add: svc_ok_def db_ok_def keys_ok_def)
  note key = distinct_map_key_eq [OF this]
  from query_row_wrapped_InrD [OF up [unfolded repo_UpdateChannelMessage_def]] d1 m(2) obtain t xs where
    rows: "filter (\<lambda>r. cm_id r = cm_id m) (map (\<lambda>r. if cm_id r = cm_id m
        then r\<lparr>cm_content := trim_space rContent, cm_updated_at := max t (cm_created_at r + 1000000)\<rparr>
        else r) (channel_messages (db s))) = upd # xs" and
    d2: "db s2 = (db s)\<lparr>channel_messages := map (\<lambda>r. if cm_id r = cm_id m
        then r\<lparr>cm_content := trim_space rContent, cm_updated_at := max t (cm_created_at r + 1000000)\<rparr>
        else r) (channel_messages (db s))\<rparr>"
    by (auto simp: sql_update_channel_message_def stmt_cases)
  let ?m' = "m\<lparr>cm_content := trim_space rContent, cm_updated_at := max t (cm_created_at m + 1000000)\<rparr>"
  have upd: "upd = ?m'"
  proof -
    have "upd \<in> set (upd # xs)" by simp
    then show ?thesis unfolding rows [symmetric] using key m(1) by (auto split: if_splits)
  qed
  have "channel_messages (db s') = map (\<lambda>x. if x = m then ?m' else x) (channel_messages (db s))"
    using d2 res(2) key m(1) by (auto intro!: map_cong)
  with m res(1) upd show ?thesis
    by (intro bexI [OF _ m(1)] exI [of _ "max t (cm_created_at m + 1000000)"]) auto
qed

theorem EditMessage_result_witness:
  "\<exists>pb s'. run_state (EditMessage demo_env ''vb'' ''abbb'' ''bye'') demo_sent = (Inr pb, s') \<and>
     pbg_author_id pb = ''vb''"
proof -
  have "(case fst (run_state (EditMessage demo_env ''vb'' ''abbb'' ''bye'') demo_sent) of
      Inl _ \<Rightarrow> False | Inr _ \<Rightarrow> True)" by code_simp
  then obtain pb s' where run:
    "run_state (EditMessage demo_env ''vb'' ''abbb'' ''bye'') demo_sent = (Inr pb, s')"
    by (cases "run_state (EditMessage demo_env ''vb'' ''abbb'' ''bye'') demo_sent")
       (auto split: sum.splits)
  from EditMessage_result [OF demo_svc_ok(4) run] run show ?thesis
    by (auto simp: pb_message_of_def)
qed

text \<open>A successful \<open>DeleteMessage\<close> was the author's; it removes exactly that message.\<close>

theorem DeleteMessage_result:
  assumes inv: "svc_ok P s" and run: "run_state (DeleteMessage P caller rId) s = (Inr (), s')"
  shows "\<exists>m \<in> set (channel_messages (db s)).
    uuid_in P (trim_space rId) = Some (cm_id m) \<and> cm_author_id m = caller \<and>
    db s' = (db s)\<lparr>channel_messages := remove1 m (channel_messages (db s))\<rparr>"
proof -
  from run obtain a s1 u s2 where
    auth: "run_state (repo_GetChannelMessageAuthor P (trim_space rId)) s = (Inr a, s1)" and
    a: "a = caller" and
    del: "run_state (repo_DeleteChannelMessage P (trim_space rId)) s1 = (Inr u, s2)" and s': "s' = s2"
    unfolding DeleteMessage_def authenticated_def Let_def by (elim handler_InrE) auto
  have at: "at_db P (db s) s" using inv by (simp add: at_db_def)
  from tripleD [OF triple_repo_GetChannelMessageAuthor auth at] a obtain m where
    m: "m \<in> set (channel_messages (db s))" "uuid_in P (trim_space rId) = Some (cm_id m)"
      "cm_author_id m = caller" and d1: "db s1 = db s" by (auto simp: at_db_def)
  from del obtain n where "run_state (pg_exec (sql_delete_channel_message P (trim_space rId))) s1 = (Inr n, s2)"
    by (auto simp: repo_DeleteChannelMessage_def split: prod.splits sum.splits)
  from pg_exec_InrD [OF this] d1 m(2) have d2: "db s2 =
      (db s)\<lparr>channel_messages := filter (\<lambda>r. cm_id r \<noteq> cm_id m) (channel_messages (db s))\<rparr>"
    by (auto simp: sql_delete_channel_message_def stmt_cases)
  have dist: "distinct (map cm_id (channel_messages (db s)))"
    using inv by (simp add: svc_ok_def db_ok_def keys_ok_def)
  then have "remove1 m (channel_messages (db s)) = filter (\<lambda>r. r \<noteq> m) (channel_messages (db s))"
    by (simp add: distinct_remove1_removeAll distinct_map removeAll_filter_not_eq)
       (simp add: neq_commute)
  also have "\<dots> = filter (\<lambda>r. cm_id r \<noteq> cm_id m) (channel_messages (db s))"
    using distinct_map_key_eq [OF dist] m(1) by (auto intro: filter_cong)
  finally show ?thesis using m d2 s' by (intro bexI [OF _ m(1)]) simp
qed

theorem DeleteMessage_result_witness:
  "\<exists>s'. run_state (DeleteMessage demo_env ''vb'' ''abbb'') demo_sent = (Inr (), s') \<and>
     channel_messages (db s') = []"
proof -
  have "fst (run_state (DeleteMessage demo_env ''vb'' ''abbb'') demo_sent) = Inr ()" by code_simp
  then obtain s' where run: "run_state (DeleteMessage demo_env ''vb'' ''abbb'') demo_sent = (Inr (), s')"
    by (metis prod.collapse)
  have "length (channel_messages (db demo_sent)) = 1" by code_simp
  with DeleteMessage_result [OF demo_svc_ok(4) run] run show ?thesis
    by (auto simp: length_Suc_conv)
qed

end
