(* ===== verification/CommunityLists.thy ===== *)
theory CommunityLists
  imports CommunityFacts Pagination
begin

text \<open>
  The paged lists of the community service as keyset paginations: the communities of a user, the
  members of a community and the history of a channel. What a list is of comes with its domain
  (environment, tables, and whose list it is), since the cursor is read by Postgres.
\<close>

section \<open>Whose rows\<close>

type_synonym list_of = "pg_env \<times> database \<times> string"

definition tables_valid :: "list_of \<Rightarrow> bool" where
  "tables_valid = (\<lambda>(P, d, _).
     pg_env_ok P \<and> db_ok d \<and> ids_used P d \<and> users_canonical P d \<and> next_message_seq d \<le> 2 ^ 63)"

lemma distinct_concat_single:
  assumes "distinct (map f cs)" and "\<And>c. c \<in> set cs \<Longrightarrow> length (g c) \<le> 1"
    and "\<And>c x. x \<in> set (g c) \<Longrightarrow> h x = f c"
  shows "distinct (map h (concat (map g cs)))"
  using assms
proof (induction cs)
  case Nil
  then show ?case by simp
next
  case (Cons c cs)
  have "distinct (map h (g c))" using Cons.prems(2) [of c] by (cases "g c") auto
  moreover have "h ` set (g c) \<inter> h ` set (concat (map g cs)) = {}"
    using Cons.prems(1,3) by (fastforce simp: image_iff)
  ultimately show ?case using Cons by auto
qed

lemma length_single_key:
  "distinct (map f xs) \<Longrightarrow> \<forall>x \<in> set xs. f x = k \<Longrightarrow> length xs \<le> 1"
  by (cases xs; cases "tl xs") auto

lemma members_of_community_distinct:
  assumes "distinct (map member_key ms)"
  shows "length (filter (\<lambda>m. mem_community_id m = c \<and> mem_user_id m = u) ms) \<le> 1"
  by (rule length_single_key [where f = member_key and k = "(c, u)"])
     (auto simp: member_key_def intro: distinct_map_filter [OF assms])

lemma concat_if_single:
  "concat (map (\<lambda>x. if Q x then [g x] else []) xs) = map g (filter Q xs)"
  by (induction xs) auto

lemma user_communities_sorted:
  assumes ok: "db_ok d"
  shows "sorted_wrt (<) (map comm_id (user_communities d u))"
  unfolding user_communities_def
proof (rule sorted_sort_key_distinct, rule distinct_concat_single [where f = comm_id])
  show "distinct (map comm_id (communities d))" using ok by (simp add: db_ok_def keys_ok_def)
  fix c :: community_table_row
  have "distinct (map member_key (community_members d))" using ok by (simp add: db_ok_def keys_ok_def)
  from members_of_community_distinct [OF this, of "comm_id c" u]
  show "length (concat (map (\<lambda>m. if mem_community_id m = comm_id c \<and> mem_user_id m = u
      then [community_row.truncate c] else []) (community_members d))) \<le> 1"
    by (simp add: concat_if_single)
qed (auto split: if_splits)


lemma user_communities_rows:
  "r \<in> set (user_communities d u) \<Longrightarrow> \<exists>c \<in> set (communities d). r = community_row.truncate c"
  by (auto simp: user_communities_def split: if_splits)

lemma member_list_sorted:
  assumes ok: "db_ok d"
  shows "sorted_wrt (<) (map mem_user_id (community_member_list d c))"
  unfolding community_member_list_def
proof (rule sorted_sort_key_distinct)
  have "distinct (map member_key (filter (\<lambda>m. mem_community_id m = c) (community_members d)))"
    using ok by (intro distinct_map_filter) (simp add: db_ok_def keys_ok_def)
  then have "distinct (map mem_user_id (filter (\<lambda>m. mem_community_id m = c) (community_members d)))"
    by (auto simp: distinct_map inj_on_def member_key_def)
  then show "distinct (map mem_user_id (map (with_nickname d)
      (filter (\<lambda>m. mem_community_id m = c) (community_members d))))"
    by (simp add: o_def with_nickname_def)
qed

lemma messages_of_channel_eq:
  assumes "db_ok d"
  shows "messages_of_channel d c = filter (\<lambda>m. cm_channel_id m = c) (channel_messages d)"
proof -
  have "sorted_wrt (<) (map cm_seq (filter (\<lambda>m. cm_channel_id m = c) (channel_messages d)))"
    using assms by (intro sorted_wrt_map_filter) (simp add: db_ok_def seqs_ok_def)
  then show ?thesis
    unfolding messages_of_channel_def by (intro sort_key_id_if_sorted) (simp add: strict_sorted_iff)
qed

lemma messages_of_channel_sorted:
  "db_ok d \<Longrightarrow> sorted_wrt (<) (map cm_seq (messages_of_channel d c))"
  by (simp add: messages_of_channel_eq sorted_wrt_map_filter db_ok_def seqs_ok_def)

section \<open>The interpretations\<close>

lemma user_communities_canonical:
  assumes "tables_valid (P, d, u)" and "r \<in> set (user_communities d u)"
  shows "uuid_in P (comm_id r) = Some (comm_id r)"
proof -
  obtain c where "c \<in> set (communities d)" "comm_id r = comm_id c"
    using user_communities_rows [OF assms(2)] by auto
  with assms(1) owner_of_row show ?thesis by (auto simp: tables_valid_def ids_used_def)
qed

lemma member_list_canonical:
  assumes "tables_valid (P, d, c)" and "m \<in> set (community_member_list d c)"
  shows "uuid_in P (mem_user_id m) = Some (mem_user_id m)"
proof -
  obtain k where "k \<in> set (community_members d)" "mem_user_id m = mem_user_id k"
    using assms(2) by (auto simp: community_member_list_def with_nickname_def)
  with assms(1) show ?thesis
    by (auto simp: tables_valid_def db_ok_def refs_ok_def has_user_def users_canonical_def)
qed

interpretation user_pages: keyset tables_valid "\<lambda>(P, d, u). user_communities d u" comm_id
  "\<lambda>(P, d, u) cursor r. uuid_after P cursor (comm_id r)"
proof unfold_locales
  fix x r assume v: "tables_valid x" and r: "r \<in> set (case x of (P, d, u) \<Rightarrow> user_communities d u)"
  obtain P d u where x: "x = (P, d, u)" by (cases x)
  then show "comm_id r \<noteq> []"
    using canonical_not_Nil [OF _ user_communities_canonical [of P d u r]] v r
    by (simp add: tables_valid_def)
next
  fix x r show "(case x of (P, d, u) \<Rightarrow> \<lambda>cursor r. uuid_after P cursor (comm_id r)) [] r"
    by (auto simp: uuid_after_def split: prod.split)
next
  fix x r xs ys assume v: "tables_valid x"
    and rows: "(case x of (P, d, u) \<Rightarrow> user_communities d u) = xs @ r # ys"
  obtain P d u where x: "x = (P, d, u)" by (cases x)
  have canon: "uuid_in P (comm_id r) = Some (comm_id r)"
    using user_communities_canonical [of P d u r] v x rows by simp
  have "sorted_wrt (<) (map comm_id (xs @ r # ys))"
    using user_communities_sorted [of d u] v x rows by (simp add: tables_valid_def)
  from uuid_after_sorted [OF this canon] v x rows
  show "filter ((case x of (P, d, u) \<Rightarrow> \<lambda>cursor r. uuid_after P cursor (comm_id r)) (comm_id r))
      (case x of (P, d, u) \<Rightarrow> user_communities d u) = ys"
    by (simp add: tables_valid_def)
qed

interpretation member_pages: keyset tables_valid "\<lambda>(P, d, c). community_member_list d c"
  mem_user_id "\<lambda>(P, d, c) cursor m. uuid_after P cursor (mem_user_id m)"
proof unfold_locales
  fix x r assume v: "tables_valid x" and r: "r \<in> set (case x of (P, d, c) \<Rightarrow> community_member_list d c)"
  obtain P d c where x: "x = (P, d, c)" by (cases x)
  then show "mem_user_id r \<noteq> []"
    using canonical_not_Nil [OF _ member_list_canonical [of P d c r]] v r
    by (simp add: tables_valid_def)
next
  fix x r show "(case x of (P, d, c) \<Rightarrow> \<lambda>cursor m. uuid_after P cursor (mem_user_id m)) [] r"
    by (auto simp: uuid_after_def split: prod.split)
next
  fix x r xs ys assume v: "tables_valid x"
    and rows: "(case x of (P, d, c) \<Rightarrow> community_member_list d c) = xs @ r # ys"
  obtain P d c where x: "x = (P, d, c)" by (cases x)
  have canon: "uuid_in P (mem_user_id r) = Some (mem_user_id r)"
    using member_list_canonical [of P d c r] v x rows by simp
  have "sorted_wrt (<) (map mem_user_id (xs @ r # ys))"
    using member_list_sorted [of d c] v x rows by (simp add: tables_valid_def)
  from uuid_after_sorted [OF this canon] v x rows
  show "filter ((case x of (P, d, c) \<Rightarrow> \<lambda>cursor m. uuid_after P cursor (mem_user_id m)) (mem_user_id r))
      (case x of (P, d, c) \<Rightarrow> community_member_list d c) = ys"
    by (simp add: tables_valid_def)
qed

lemma message_seq_range:
  assumes "tables_valid (P, d, c)" and "m \<in> set (messages_of_channel d c)"
  shows "0 < cm_seq m" and "cm_seq m < 2 ^ 63"
  using assms by (auto simp: tables_valid_def db_ok_def seqs_ok_def messages_of_channel_def
      dest!: bspec [of "set (channel_messages d)" _ m])

interpretation message_pages: keyset tables_valid "\<lambda>(P, d, c). rev (messages_of_channel d c)"
  "\<lambda>m. format_int (cm_seq m)" "\<lambda>_ cursor m. seq_before cursor (cm_seq m)"
proof unfold_locales
  fix x r xs ys assume v: "tables_valid x"
    and rows: "(case x of (P, d, c) \<Rightarrow> rev (messages_of_channel d c)) = xs @ r # ys"
  obtain P d c where x: "x = (P, d, c)" by (cases x)
  with rows have rev: "messages_of_channel d c = rev (xs @ r # ys)" by (metis case_prod_conv rev_rev_ident)
  have "sorted_wrt (<) (map cm_seq (rev (xs @ r # ys)))"
    using messages_of_channel_sorted [of d c] v x rev by (simp add: tables_valid_def)
  from filter_before_sorted [OF this]
  show "filter (\<lambda>m. seq_before (format_int (cm_seq r)) (cm_seq m))
      (case x of (P, d, c) \<Rightarrow> rev (messages_of_channel d c)) = ys"
    unfolding rows using message_seq_range [of P d c r] v x rev by (simp add: seq_before_format)
qed (simp_all add: seq_before_def)

section \<open>Every row once\<close>

text \<open>A page of the repository is a page of the contract.\<close>

lemma run_ListCommunitiesByUser:
  assumes "outcomes s = []" and "uuid_in P user = Some u"
    and "cursor = [] \<or> uuid_in P cursor \<noteq> None"
  shows "run_state (repo_ListCommunitiesByUser P user limit cursor) s =
    (Inr (user_pages.page (P, db s, u) limit cursor), s)"
proof (cases "cursor = []")
  case True
  then show ?thesis
    unfolding user_pages.page_def using assms
    by (simp add: repo_ListCommunitiesByUser_def run_pg_query_calm
        sql_list_communities_def uuid_param_def sql_cursor_def after_def
        uuid_after_def)
next
  case False
  then obtain k where "uuid_in P cursor = Some k" using assms(3) by auto
  then show ?thesis
    unfolding user_pages.page_def using assms False
    by (simp add: repo_ListCommunitiesByUser_def run_pg_query_calm
        sql_list_communities_def uuid_param_def sql_cursor_def after_def
        uuid_after_def)
qed

lemma run_ListMembersByCommunity:
  assumes "outcomes s = []" and "uuid_in P raw = Some c"
    and "cursor = [] \<or> uuid_in P cursor \<noteq> None"
  shows "run_state (repo_ListMembersByCommunity P raw limit cursor) s =
    (Inr (member_pages.page (P, db s, c) limit cursor), s)"
proof (cases "cursor = []")
  case True
  then show ?thesis
    unfolding member_pages.page_def using assms
    by (simp add: repo_ListMembersByCommunity_def run_pg_query_calm
        sql_list_members_def uuid_param_def sql_cursor_def after_def
        uuid_after_def)
next
  case False
  then obtain k where "uuid_in P cursor = Some k" using assms(3) by auto
  then show ?thesis
    unfolding member_pages.page_def using assms False
    by (simp add: repo_ListMembersByCommunity_def run_pg_query_calm
        sql_list_members_def uuid_param_def sql_cursor_def after_def
        uuid_after_def)
qed

lemma run_GetChannelMessages:
  assumes "outcomes s = []" and "uuid_in P raw = Some c"
    and "cursor = [] \<or> (\<exists>k. parse_int64 cursor = Inr k)"
  shows "run_state (repo_GetChannelMessages P raw limit cursor) s =
    (Inr (message_pages.page (P, db s, c) limit cursor), s)"
proof (cases "cursor = []")
  case True
  then show ?thesis
    unfolding message_pages.page_def using assms
    by (simp add: repo_GetChannelMessages_def run_pg_query_calm
        sql_channel_messages_def uuid_param_def before_def seq_before_def)
next
  case False
  then obtain k where "parse_int64 cursor = Inr k" using assms(3) by auto
  then show ?thesis
    unfolding message_pages.page_def using assms False
    by (simp add: repo_GetChannelMessages_def run_pg_query_calm
        sql_channel_messages_def uuid_param_def before_def seq_before_def)
qed

text \<open>C12: A client that scrolls back through a channel, asking \<open>GetChannelMessages\<close> with any
  positive page size and each time with the cursor of the last page, gets every message of the
  channel exactly once, newest first, and then stops. (The tables do not change meanwhile.)\<close>

theorem history_complete:
  assumes valid: "tables_valid (P, db s, c)" and calm: "outcomes s = []"
    and raw: "uuid_in P raw = Some c" and limit: "0 < limit"
    and fuel: "length (messages_of_channel (db s) c) < n"
  shows "run_state (follow_pages n (repo_GetChannelMessages P raw limit) []) s =
    (Inr (rev (messages_of_channel (db s) c)), s)"
proof -
  have "run_state (repo_GetChannelMessages P raw limit cur) s =
      (Inr (message_pages.page (P, db s, c) limit cur), s)"
    if "cur = [] \<or> cur \<in> (\<lambda>m. format_int (cm_seq m)) ` set (rev (messages_of_channel (db s) c))" for cur
  proof (rule run_GetChannelMessages [OF calm raw])
    show "cur = [] \<or> (\<exists>k. parse_int64 cur = Inr k)"
      using that message_seq_range [OF valid] by (force intro: parse_int64_format_int)
  qed
  then show ?thesis
    using message_pages.follow_pages_all [OF valid limit, where n = n and s = s and
        f = "repo_GetChannelMessages P raw limit"] fuel by simp
qed

theorem history_complete_witness:
  "run_state (follow_pages 3 (repo_GetChannelMessages demo_env ''abb'' 1) []) demo_sent =
     (Inr (rev (messages_of_channel (db demo_sent) ''abb'')), demo_sent)"
proof (rule history_complete)
  have "uuid_count (db demo_sent) = 4 \<and> next_message_seq (db demo_sent) = 2 \<and>
    list_all (\<lambda>u. uuid_in demo_env (u_id u) = Some (u_id u)) (users (db demo_sent))" by code_simp
  then show "tables_valid (demo_env, db demo_sent, ''abb'')"
    using demo_svc_ok(4) demo_env_ok
    by (simp add: tables_valid_def svc_ok_def users_canonical_def list_all_iff)
  show "outcomes demo_sent = []" by code_simp
  show "uuid_in demo_env ''abb'' = Some ''abb''" by code_simp
  show "length (messages_of_channel (db demo_sent) ''abb'') < 3" by code_simp
qed simp

text \<open>The same for the list of a user's communities: following the cursors of
  \<open>ListCommunitiesByUser\<close> gives every community the user is a member of once, by identifier.\<close>

theorem communities_complete:
  assumes valid: "tables_valid (P, db s, u)" and calm: "outcomes s = []"
    and user: "uuid_in P user = Some u" and limit: "0 < limit"
    and fuel: "length (user_communities (db s) u) < n"
  shows "run_state (follow_pages n (repo_ListCommunitiesByUser P user limit) []) s =
      (Inr (user_communities (db s) u), s) \<and>
    sorted_wrt (<) (map comm_id (user_communities (db s) u)) \<and>
    comm_id ` set (user_communities (db s) u) = {c. has_member (db s) c u}"
proof (intro conjI)
  have "run_state (repo_ListCommunitiesByUser P user limit cur) s =
      (Inr (user_pages.page (P, db s, u) limit cur), s)"
    if "cur = [] \<or> cur \<in> comm_id ` set (user_communities (db s) u)" for cur
    using that user_communities_canonical [OF valid]
    by (intro run_ListCommunitiesByUser [OF calm user]) auto
  then show "run_state (follow_pages n (repo_ListCommunitiesByUser P user limit) []) s =
      (Inr (user_communities (db s) u), s)"
    using user_pages.follow_pages_all [OF valid limit, where n = n and s = s and
        f = "repo_ListCommunitiesByUser P user limit"] fuel by simp
  have ok: "db_ok (db s)" using valid by (simp add: tables_valid_def)
  then show "sorted_wrt (<) (map comm_id (user_communities (db s) u))"
    by (rule user_communities_sorted)
  show "comm_id ` set (user_communities (db s) u) = {c. has_member (db s) c u}"
  proof
    show "comm_id ` set (user_communities (db s) u) \<subseteq> {c. has_member (db s) c u}"
      by (auto simp: user_communities_def has_member_def member_key_def image_iff split: if_splits)
        metis
    show "{c. has_member (db s) c u} \<subseteq> comm_id ` set (user_communities (db s) u)"
    proof clarify
      fix c assume "has_member (db s) c u"
      then obtain m where m: "m \<in> set (community_members (db s))" "mem_community_id m = c"
        "mem_user_id m = u" by (auto simp: has_member_def member_key_def)
      with ok have "has_community (db s) c" by (auto simp: db_ok_def refs_ok_def)
      then obtain r where "r \<in> set (communities (db s))" "comm_id r = c"
        by (auto simp: has_community_def)
      with m show "c \<in> comm_id ` set (user_communities (db s) u)"
        by (force simp: user_communities_def image_iff)
    qed
  qed
qed

theorem communities_complete_witness:
  "run_state (follow_pages 3 (repo_ListCommunitiesByUser demo_env ''vb'' 1) []) demo_sent =
     (Inr (user_communities (db demo_sent) ''vb''), demo_sent)"
proof (rule communities_complete [THEN conjunct1])
  have "next_message_seq (db demo_sent) = 2 \<and>
    list_all (\<lambda>u. uuid_in demo_env (u_id u) = Some (u_id u)) (users (db demo_sent))" by code_simp
  then show "tables_valid (demo_env, db demo_sent, ''vb'')"
    using demo_svc_ok(4) demo_env_ok
    by (simp add: tables_valid_def svc_ok_def users_canonical_def list_all_iff)
  show "outcomes demo_sent = []" by code_simp
  show "uuid_in demo_env ''vb'' = Some ''vb''" by code_simp
  show "length (user_communities (db demo_sent) ''vb'') < 3" by code_simp
qed simp

section \<open>Joining\<close>

lemma repo_AddMember_row:
  assumes run: "run_state (repo_AddMember P communityID userID) s = (Inr x, s')"
  shows "x \<noteq> None"
proof -
  obtain r s1 where r: "run_state (pg_query_row (sql_insert_member P communityID userID)) s = (r, s1)"
    by fastforce
  show ?thesis
  proof (cases r)
    case (Inr m)
    with r run show ?thesis by (auto simp: repo_AddMember_def)
  next
    case (Inl e)
    with r run have e: "e = NoRows" and get: "run_state (repo_GetMember P communityID userID) s1 = (Inr x, s')"
      by (auto simp: repo_AddMember_def split: if_splits)
    from pg_query_row_NoRowsD [OF r [unfolded Inl e]] obtain t where
      "sql_insert_member P communityID userID t (db s) = Inr ([], db s1)" by blast
    from sql_insert_member_InrD [OF this] obtain c u where
      cu: "uuid_in P communityID = Some c" "uuid_in P userID = Some u" "has_member (db s1) c u"
      by auto
    obtain q s2 where q: "run_state (pg_query_row (sql_select_member P communityID userID)) s1 = (q, s2)"
      by fastforce
    have "q \<noteq> Inl NoRows"
    proof
      assume "q = Inl NoRows"
      with pg_query_row_NoRowsD [OF q [unfolded this]] cu show False
        by (auto simp: sql_select_member_def stmt_cases has_member_def filter_empty_conv)
    qed
    with q get show ?thesis by (auto simp: repo_GetMember_def split: sum.splits go_error.splits)
  qed
qed

text \<open>\<open>JoinCommunity\<close> never dereferences a nil member row, whatever the database answers: when
  \<open>AddMember\<close> succeeds it returns a row, new or old.\<close>

theorem JoinCommunity_no_panic: "fst (run_state (JoinCommunity P caller rId) s) \<noteq> Inl Panic"
proof
  assume "fst (run_state (JoinCommunity P caller rId) s) = Inl Panic"
  then obtain s' where run: "run_state (JoinCommunity P caller rId) s = (Inl Panic, s')"
    by (metis prod.collapse)
  from run obtain s1 s2 :: community_svc
    where "run_state (repo_AddMember P (trim_space rId) caller) s1 = (Inr None, s2)"
    unfolding JoinCommunity_def authenticated_def Let_def guard_that_def try_call_def fail_def
      replaced_def wrapped_def
    by (auto simp: ok_def split: if_splits prod.splits sum.splits option.splits)
  from repo_AddMember_row [OF this] show False by simp
qed

end
