(* ===== verification/UserRepo.thy ===== *)
theory UserRepo
  imports CommunityRepo
begin

text \<open>
  \<open>backend/services/user-service/repository.go\<close>: profiles, relations between users, and direct
  messages. The statements and methods follow the pattern of \<open>CommunityRepo\<close>, whose
  \<open>InsertAttachments\<close> is the same code as the one here.

  The tables of this service have an invariant of their own beside \<open>db_ok\<close>: \<open>relations_ok\<close> (one
  relation per pair of users, of a known type, never with oneself).
\<close>

section \<open>Users\<close>

record user_row =
  ur_id :: string
  ur_email :: string
  ur_nickname :: string
  ur_avatar_url :: string
  ur_status_message :: string
  ur_created_at :: int
  ur_updated_at :: int

definition user_row_of :: "user_table_row \<Rightarrow> user_row" where
  "user_row_of u =
     \<lparr>ur_id = u_id u, ur_email = u_email u, ur_nickname = u_nickname u,
      ur_avatar_url = u_avatar_url u, ur_status_message = u_status_message u,
      ur_created_at = u_created_at u, ur_updated_at = u_updated_at u\<rparr>"

definition sql_select_user :: "pg_env \<Rightarrow> string \<Rightarrow> user_row list stmt" where
  "sql_select_user P userID t d =
     uuid_param P userID (\<lambda>u. Inr (map user_row_of (filter (\<lambda>r. u_id r = u) (users d)), d))"

definition repo_GetUserByID ::
  "pg_env \<Rightarrow> string \<Rightarrow> ('z infra_scheme, go_error + user_row) state" where
  "repo_GetUserByID P userID = do {
     r \<leftarrow> pg_query_row (sql_select_user P userID);
     ret (case r of
            Inr u \<Rightarrow> Inr u
          | Inl e \<Rightarrow> if e = NoRows then Inl (Wrap ''user not found'' e)
                     else Inl (Wrap ''query user'' e))
   }"

definition sql_update_user :: "pg_env \<Rightarrow> string \<Rightarrow> string \<Rightarrow> string \<Rightarrow> string \<Rightarrow> unit stmt" where
  "sql_update_user P userID nickname avatarURL statusMessage t d =
     uuid_param P userID (\<lambda>u.
       let upd = (\<lambda>r. if u_id r = u
                      then r\<lparr>u_nickname := nickname, u_avatar_url := avatarURL,
                             u_status_message := statusMessage, u_updated_at := t\<rparr>
                      else r)
       in Inr ((), d\<lparr>users := map upd (users d)\<rparr>))"

definition repo_UpdateUserProfile ::
  "pg_env \<Rightarrow> string \<Rightarrow> string \<Rightarrow> string \<Rightarrow> string \<Rightarrow>
   ('z infra_scheme, go_error + unit) state" where
  "repo_UpdateUserProfile P userID nickname avatarURL statusMessage = do {
     r \<leftarrow> pg_exec (sql_update_user P userID nickname avatarURL statusMessage);
     ret (wrap_err ''update user profile'' r)
   }"

section \<open>Relations\<close>

definition rel_key :: "relation_row \<Rightarrow> string \<times> string" where
  "rel_key r = (rel_user_id r, rel_target_user_id r)"

definition sql_select_relation :: "pg_env \<Rightarrow> string \<Rightarrow> string \<Rightarrow> relation_row list stmt" where
  "sql_select_relation P userID targetUserID t d =
     uuid_param P userID (\<lambda>u. uuid_param P targetUserID (\<lambda>v.
       Inr (filter (\<lambda>r. rel_key r = (u, v)) (user_relations d), d)))"

definition repo_GetRelation ::
  "pg_env \<Rightarrow> string \<Rightarrow> string \<Rightarrow> ('z infra_scheme, go_error + relation_row option) state" where
  "repo_GetRelation P userID targetUserID = do {
     r \<leftarrow> pg_query_row (sql_select_relation P userID targetUserID);
     ret (case r of
            Inr rel \<Rightarrow> Inr (Some rel)
          | Inl e \<Rightarrow> if e = NoRows then Inr None else Inl (Wrap ''query relation'' e))
   }"

definition sql_upsert_relation :: "pg_env \<Rightarrow> string \<Rightarrow> string \<Rightarrow> string \<Rightarrow> unit stmt" where
  "sql_upsert_relation P userID targetUserID relationType t d =
     uuid_param P userID (\<lambda>u. uuid_param P targetUserID (\<lambda>v.
       if relationType \<noteq> ''friend'' \<and> relationType \<noteq> ''blocked'' \<or> u = v then Inl CheckViolation
       else if (u, v) \<in> rel_key ` set (user_relations d)
       then Inr ((), d\<lparr>user_relations :=
              map (\<lambda>r. if rel_key r = (u, v) then r\<lparr>rel_type := relationType\<rparr> else r)
                (user_relations d)\<rparr>)
       else if \<not> has_user d u \<or> \<not> has_user d v then Inl ForeignKeyViolation
       else Inr ((), d\<lparr>user_relations := user_relations d @
              [\<lparr>rel_user_id = u, rel_target_user_id = v, rel_type = relationType,
                rel_created_at = t\<rparr>]\<rparr>)))"

definition repo_CreateRelation ::
  "pg_env \<Rightarrow> string \<Rightarrow> string \<Rightarrow> string \<Rightarrow> ('z infra_scheme, go_error + unit) state" where
  "repo_CreateRelation P userID targetUserID relationType = do {
     r \<leftarrow> pg_exec (sql_upsert_relation P userID targetUserID relationType);
     ret (wrap_err ''create relation'' r)
   }"

definition sql_delete_relation :: "pg_env \<Rightarrow> string \<Rightarrow> string \<Rightarrow> unit stmt" where
  "sql_delete_relation P userID targetUserID t d =
     uuid_param P userID (\<lambda>u. uuid_param P targetUserID (\<lambda>v.
       Inr ((), d\<lparr>user_relations := filter (\<lambda>r. rel_key r \<noteq> (u, v)) (user_relations d)\<rparr>)))"

definition repo_DeleteRelation ::
  "pg_env \<Rightarrow> string \<Rightarrow> string \<Rightarrow> ('z infra_scheme, go_error + unit) state" where
  "repo_DeleteRelation P userID targetUserID = do {
     r \<leftarrow> pg_exec (sql_delete_relation P userID targetUserID);
     ret (wrap_err ''delete relation'' r)
   }"

definition friends_of :: "database \<Rightarrow> string \<Rightarrow> user_row list" where
  "friends_of d u =
     sort_key ur_id
       [user_row_of x. r \<leftarrow> user_relations d, x \<leftarrow> users d,
          u_id x = rel_target_user_id r \<and> rel_user_id r = u \<and> rel_type r = ''friend'']"

definition sql_list_friends ::
  "pg_env \<Rightarrow> string \<Rightarrow> int \<Rightarrow> string \<Rightarrow> database \<Rightarrow> pg_cause + user_row list" where
  "sql_list_friends P userID limit cursor d =
     uuid_param P userID (\<lambda>u. sql_cursor P cursor (\<lambda>k.
       Inr (take (nat (limit + 1)) (filter (\<lambda>x. after k (ur_id x)) (friends_of d u)))))"

definition repo_ListFriends ::
  "pg_env \<Rightarrow> string \<Rightarrow> int \<Rightarrow> string \<Rightarrow>
   ('z infra_scheme, go_error + (user_row list \<times> string)) state" where
  "repo_ListFriends P userID limit cursor = do {
     r \<leftarrow> pg_query P (sql_list_friends P userID limit cursor);
     ret (case r of
            Inl e \<Rightarrow> Inl (Wrap ''list friends'' e)
          | Inr (rows, _) \<Rightarrow> Inr (cut_page ur_id limit rows))
   }"

section \<open>Conversations\<close>

text \<open>
  One row per pair, the smaller identifier first. The method compares the texts it is given,
  the table compares UUIDs; they agree on identifiers in the form Postgres prints.
\<close>

definition sql_select_conversation ::
  "pg_env \<Rightarrow> string \<Rightarrow> string \<Rightarrow> dm_conversation_row list stmt" where
  "sql_select_conversation P small big t d =
     uuid_param P small (\<lambda>a. uuid_param P big (\<lambda>b.
       Inr (filter (\<lambda>c. dc_user_a_id c = a \<and> dc_user_b_id c = b) (dm_conversations d), d)))"

definition new_conversation :: "pg_env \<Rightarrow> string \<Rightarrow> string \<Rightarrow> int \<Rightarrow> database \<Rightarrow> dm_conversation_row" where
  "new_conversation P a b t d =
     \<lparr>dc_id = gen_uuid P (uuid_count d), dc_user_a_id = a, dc_user_b_id = b, dc_created_at = t\<rparr>"

definition sql_insert_conversation ::
  "pg_env \<Rightarrow> string \<Rightarrow> string \<Rightarrow> dm_conversation_row list stmt" where
  "sql_insert_conversation P small big t d =
     uuid_param P small (\<lambda>a. uuid_param P big (\<lambda>b.
       let r = new_conversation P a b t d
       in if \<not> a < b then Inl CheckViolation
          else if dc_id r \<in> dc_id ` set (dm_conversations d) \<or>
            (a, b) \<in> (\<lambda>c. (dc_user_a_id c, dc_user_b_id c)) ` set (dm_conversations d)
          then Inl UniqueViolation
          else if \<not> has_user d a \<or> \<not> has_user d b then Inl ForeignKeyViolation
          else Inr ([r], d\<lparr>dm_conversations := dm_conversations d @ [r],
                            uuid_count := Suc (uuid_count d)\<rparr>)))"

definition repo_GetOrCreateConversation ::
  "pg_env \<Rightarrow> string \<Rightarrow> string \<Rightarrow> ('z infra_scheme, go_error + dm_conversation_row) state" where
  "repo_GetOrCreateConversation P userAID userBID =
     (let (small, big) = (if userAID > userBID then (userBID, userAID) else (userAID, userBID)) in
      do {
        r \<leftarrow> pg_query_row (sql_select_conversation P small big);
        (case r of
           Inr conv \<Rightarrow> ret (Inr conv)
         | Inl e \<Rightarrow>
             if e \<noteq> NoRows then ret (Inl (Wrap ''query conversation'' e))
             else do {
               q \<leftarrow> pg_query_row (sql_insert_conversation P small big);
               ret (wrap_err ''create conversation'' q)
             })
      })"

text \<open>
  In the statement the cursor only restricts the second half of the \<open>OR\<close>
  (\<open>user_a_id = $1 OR user_b_id = $1 AND created_at < $2\<close>). The cursor that is returned is the
  instant of the first row that is not.
\<close>

definition sql_dm_conversations ::
  "pg_env \<Rightarrow> string \<Rightarrow> int \<Rightarrow> string \<Rightarrow> database \<Rightarrow> pg_cause + dm_conversation_row list" where
  "sql_dm_conversations P userID limit cursor d =
     uuid_param P userID (\<lambda>u.
       let page = (\<lambda>Q. Inr (take (nat (limit + 1))
             (sort_key (\<lambda>c. - dc_created_at c) (filter Q (dm_conversations d)))))
       in if cursor = [] then page (\<lambda>c. dc_user_a_id c = u \<or> dc_user_b_id c = u)
          else (case ts_in P cursor of
                  None \<Rightarrow> Inl Fault
                | Some t \<Rightarrow> page (\<lambda>c. dc_user_a_id c = u \<or> dc_user_b_id c = u \<and> dc_created_at c < t)))"

definition repo_GetDMConversations ::
  "pg_env \<Rightarrow> string \<Rightarrow> int \<Rightarrow> string \<Rightarrow>
   ('z infra_scheme, go_error + (dm_conversation_row list \<times> string)) state" where
  "repo_GetDMConversations P userID limit cursor = do {
     r \<leftarrow> pg_query P (sql_dm_conversations P userID limit cursor);
     ret (case r of
            Inl e \<Rightarrow> Inl (Wrap ''get dm conversations'' e)
          | Inr (rows, _) \<Rightarrow>
              if int (length rows) > limit
              then Inr (take (nat limit) rows, ts_text P (dc_created_at (rows ! nat limit)))
              else Inr (rows, []))
   }"

section \<open>Direct messages\<close>

definition new_dm_message ::
  "pg_env \<Rightarrow> string \<Rightarrow> string \<Rightarrow> string \<Rightarrow> int \<Rightarrow> database \<Rightarrow> dm_message_row" where
  "new_dm_message P c u content t d =
     \<lparr>dm_id = gen_uuid P (uuid_count d), dm_conversation_id = c, dm_sender_id = u,
      dm_content = content, dm_created_at = t, dm_seq = next_dm_seq d\<rparr>"

definition sql_insert_dm_message ::
  "pg_env \<Rightarrow> string \<Rightarrow> string \<Rightarrow> string \<Rightarrow> dm_message_row list stmt" where
  "sql_insert_dm_message P conversationID senderID content t d =
     uuid_param P conversationID (\<lambda>c. uuid_param P senderID (\<lambda>u.
       let r = new_dm_message P c u content t d
       in if dm_id r \<in> dm_id ` set (dm_messages d) then Inl UniqueViolation
          else if c \<notin> dc_id ` set (dm_conversations d) \<or> \<not> has_user d u
          then Inl ForeignKeyViolation
          else Inr ([r], d\<lparr>dm_messages := dm_messages d @ [r],
                            next_dm_seq := next_dm_seq d + 1,
                            uuid_count := Suc (uuid_count d)\<rparr>)))"

definition repo_InsertDMMessage ::
  "pg_env \<Rightarrow> string \<Rightarrow> string \<Rightarrow> string \<Rightarrow> ('z infra_scheme, go_error + dm_message_row) state" where
  "repo_InsertDMMessage P conversationID senderID content = do {
     r \<leftarrow> pg_query_row (sql_insert_dm_message P conversationID senderID content);
     ret (wrap_err ''insert dm message'' r)
   }"

definition dms_of :: "database \<Rightarrow> string \<Rightarrow> dm_message_row list" where
  "dms_of d c = sort_key dm_seq (filter (\<lambda>m. dm_conversation_id m = c) (dm_messages d))"

definition sql_dm_history ::
  "pg_env \<Rightarrow> string \<Rightarrow> int \<Rightarrow> int option \<Rightarrow> database \<Rightarrow> pg_cause + dm_message_row list" where
  "sql_dm_history P conversationID limit cursor d =
     uuid_param P conversationID (\<lambda>c.
       Inr (take (nat (limit + 1)) (filter (\<lambda>m. before cursor (dm_seq m)) (rev (dms_of d c)))))"

definition repo_GetDMHistory ::
  "pg_env \<Rightarrow> string \<Rightarrow> int \<Rightarrow> string \<Rightarrow>
   ('z infra_scheme, go_error + (dm_message_row list \<times> string)) state" where
  "repo_GetDMHistory P conversationID limit cursor =
     (case (if cursor = [] then Inr None else map_sum id Some (parse_int64 cursor)) of
        Inl e \<Rightarrow> ret (Inl (Wrap ''invalid cursor'' e))
      | Inr k \<Rightarrow> do {
          r \<leftarrow> pg_query P (sql_dm_history P conversationID limit k);
          ret (case r of
                 Inl e \<Rightarrow> Inl (Wrap ''get dm history'' e)
               | Inr (rows, _) \<Rightarrow> Inr (cut_page (\<lambda>m. format_int (dm_seq m)) limit rows))
        })"

definition sql_dm_messages_since ::
  "pg_env \<Rightarrow> string \<Rightarrow> int \<Rightarrow> int \<Rightarrow> database \<Rightarrow> pg_cause + dm_message_row list" where
  "sql_dm_messages_since P conversationID sinceSeq limit d =
     uuid_param P conversationID (\<lambda>c.
       Inr (take (nat limit) (filter (\<lambda>m. dm_seq m > sinceSeq) (dms_of d c))))"

definition repo_GetDMMessagesSince ::
  "pg_env \<Rightarrow> string \<Rightarrow> int \<Rightarrow> int \<Rightarrow> ('z infra_scheme, go_error + dm_message_row list) state" where
  "repo_GetDMMessagesSince P conversationID sinceSeq limit0 =
     (let limit = (if limit0 \<le> 0 then 200 else limit0) in do {
        r \<leftarrow> pg_query P (sql_dm_messages_since P conversationID sinceSeq limit);
        ret (case r of
               Inl e \<Rightarrow> Inl (Wrap ''get dm messages since'' e)
             | Inr (rows, _) \<Rightarrow> Inr rows)
      })"

section \<open>Cached values\<close>

definition MarshalUser :: "user_row \<Rightarrow> json" where
  "MarshalUser u =
     JObj [(''ID'', JStr (ur_id u)), (''Email'', JStr (ur_email u)),
           (''Nickname'', JStr (ur_nickname u)), (''AvatarURL'', JStr (ur_avatar_url u)),
           (''StatusMessage'', JStr (ur_status_message u)), (''CreatedAt'', JTime (ur_created_at u)),
           (''UpdatedAt'', JTime (ur_updated_at u))]"

definition UnmarshalUser :: "json \<Rightarrow> go_error + user_row" where
  "UnmarshalUser j =
     (if \<not> json_is_object j then Inl JsonError else
      sum_bind (json_str (json_field j ''ID'')) (\<lambda>i.
      sum_bind (json_str (json_field j ''Email'')) (\<lambda>em.
      sum_bind (json_str (json_field j ''Nickname'')) (\<lambda>n.
      sum_bind (json_str (json_field j ''AvatarURL'')) (\<lambda>url.
      sum_bind (json_str (json_field j ''StatusMessage'')) (\<lambda>st.
      sum_bind (json_time (json_field j ''CreatedAt'')) (\<lambda>cr.
      sum_bind (json_time (json_field j ''UpdatedAt'')) (\<lambda>up.
        Inr \<lparr>ur_id = i, ur_email = em, ur_nickname = n, ur_avatar_url = url,
             ur_status_message = st, ur_created_at = cr, ur_updated_at = up\<rparr>))))))))"

definition MarshalRelation :: "relation_row \<Rightarrow> json" where
  "MarshalRelation r =
     JObj [(''UserID'', JStr (rel_user_id r)), (''TargetUserID'', JStr (rel_target_user_id r)),
           (''Type'', JStr (rel_type r)), (''CreatedAt'', JTime (rel_created_at r))]"

definition UnmarshalRelation :: "json \<Rightarrow> go_error + relation_row" where
  "UnmarshalRelation j =
     (if \<not> json_is_object j then Inl JsonError else
      sum_bind (json_str (json_field j ''UserID'')) (\<lambda>u.
      sum_bind (json_str (json_field j ''TargetUserID'')) (\<lambda>v.
      sum_bind (json_str (json_field j ''Type'')) (\<lambda>ty.
      sum_bind (json_time (json_field j ''CreatedAt'')) (\<lambda>t.
        Inr \<lparr>rel_user_id = u, rel_target_user_id = v, rel_type = ty, rel_created_at = t\<rparr>)))))"

lemma UnmarshalUser_MarshalUser [simp]: "UnmarshalUser (MarshalUser u) = Inr u"
  by (simp add: UnmarshalUser_def MarshalUser_def marshal_defs)

lemma UnmarshalRelation_MarshalRelation [simp]: "UnmarshalRelation (MarshalRelation r) = Inr r"
  by (simp add: UnmarshalRelation_def MarshalRelation_def marshal_defs)

section \<open>What the statements keep\<close>

definition relations_ok :: "database \<Rightarrow> bool" where
  "relations_ok d \<longleftrightarrow>
     distinct (map rel_key (user_relations d)) \<and>
     (\<forall>r \<in> set (user_relations d).
        rel_type r \<in> {''friend'', ''blocked''} \<and> rel_user_id r \<noteq> rel_target_user_id r \<and>
        has_user d (rel_user_id r) \<and> has_user d (rel_target_user_id r))"

text \<open>What every statement of the user service keeps.\<close>

definition user_db_ok :: "database \<Rightarrow> bool" where
  "user_db_ok d \<longleftrightarrow> db_ok d \<and> relations_ok d"

named_theorems user_reads "statements of the user service that change nothing"
named_theorems user_keeps "statements of the user service that keep integrity"

lemma sql_select_user_reads [user_reads]: "reads_only (sql_select_user P u)"
  by (auto simp: reads_only_def sql_select_user_def stmt_cases)

lemma sql_select_relation_reads [user_reads]: "reads_only (sql_select_relation P u v)"
  by (auto simp: reads_only_def sql_select_relation_def stmt_cases)

lemma sql_select_conversation_reads [user_reads]: "reads_only (sql_select_conversation P a b)"
  by (auto simp: reads_only_def sql_select_conversation_def stmt_cases)

lemma user_db_ok_update_users:
  assumes "user_db_ok d" and "map u_id us = map u_id (users d)"
  shows "user_db_ok (d\<lparr>users := us\<rparr>)"
proof -
  have "has_user (d\<lparr>users := us\<rparr>) = has_user d"
    using map_key_set [OF assms(2)] by (auto simp: has_simps)
  moreover have "has_community (d\<lparr>users := us\<rparr>) = has_community d"
    "has_channel (d\<lparr>users := us\<rparr>) = has_channel d" "has_member (d\<lparr>users := us\<rparr>) = has_member d"
    "has_role (d\<lparr>users := us\<rparr>) = has_role d"
    by (auto simp: has_simps)
  ultimately show ?thesis
    using assms by (simp add: user_db_ok_def relations_ok_def db_ok_defs)
qed

lemma sql_update_user_keeps [user_keeps]: "stmt_keeps user_db_ok (sql_update_user P u n a st)"
  by (rule stmt_keepsI)
     (auto simp: sql_update_user_def stmt_cases map_if_key simp del: map_map
       intro!: user_db_ok_update_users)

lemma db_ok_relations [simp]: "db_ok (d\<lparr>user_relations := rs\<rparr>) = db_ok d"
  by (simp add: db_ok_defs has_defs)

lemma sql_upsert_relation_keeps [user_keeps]: "stmt_keeps user_db_ok (sql_upsert_relation P u v ty)"
proof (rule stmt_keepsI)
  fix t d x d'
  assume ok: "user_db_ok d" and run: "sql_upsert_relation P u v ty t d = Inr (x, d')"
  from run obtain a b where ab: "uuid_in P u = Some a" "uuid_in P v = Some b"
    by (auto simp: sql_upsert_relation_def stmt_cases)
  have same: "map rel_key (map (\<lambda>r. if rel_key r = (a, b) then r\<lparr>rel_type := ty\<rparr> else r)
      (user_relations d)) = map rel_key (user_relations d)"
    by (rule map_if_key) (simp add: rel_key_def)
  from ok run ab same show "user_db_ok d'"
    by (auto simp: sql_upsert_relation_def stmt_cases user_db_ok_def relations_ok_def has_user_def
        simp del: map_map split: if_splits) (auto simp: rel_key_def)
qed

lemma sql_delete_relation_keeps [user_keeps]: "stmt_keeps user_db_ok (sql_delete_relation P u v)"
  by (rule stmt_keepsI)
     (auto simp: sql_delete_relation_def stmt_cases user_db_ok_def relations_ok_def has_user_def
       distinct_map_filter)

lemma db_ok_add_conversation:
  "db_ok d \<Longrightarrow> dc_id r \<notin> dc_id ` set (dm_conversations d) \<Longrightarrow>
   (dc_user_a_id r, dc_user_b_id r) \<notin> (\<lambda>c. (dc_user_a_id c, dc_user_b_id c)) ` set (dm_conversations d) \<Longrightarrow>
   dc_user_a_id r < dc_user_b_id r \<Longrightarrow> has_user d (dc_user_a_id r) \<Longrightarrow> has_user d (dc_user_b_id r) \<Longrightarrow>
   db_ok (d\<lparr>dm_conversations := dm_conversations d @ [r], uuid_count := n\<rparr>)"
  unfolding db_ok_defs has_defs by simp

lemma db_ok_add_dm_message:
  "db_ok d \<Longrightarrow> dm_conversation_id r \<in> dc_id ` set (dm_conversations d) \<Longrightarrow>
   dm_seq r = next_dm_seq d \<Longrightarrow> m = next_dm_seq d + 1 \<Longrightarrow>
   db_ok (d\<lparr>dm_messages := dm_messages d @ [r], next_dm_seq := m, uuid_count := n\<rparr>)"
  unfolding db_ok_defs has_defs by (auto simp: sorted_wrt_append)

lemma sql_insert_conversation_keeps [user_keeps]:
  "stmt_keeps user_db_ok (sql_insert_conversation P a b)"
  by (rule stmt_keepsI)
     (auto simp: sql_insert_conversation_def stmt_cases user_db_ok_def relations_ok_def has_user_def
       new_conversation_def split: if_splits intro!: db_ok_add_conversation)

lemma sql_insert_dm_message_keeps [user_keeps]:
  "stmt_keeps user_db_ok (sql_insert_dm_message P c u content)"
  by (rule stmt_keepsI)
     (auto simp: sql_insert_dm_message_def stmt_cases user_db_ok_def relations_ok_def has_user_def
       new_dm_message_def split: if_splits intro!: db_ok_add_dm_message)

lemma sql_insert_attachment_user_keeps [user_keeps]:
  "stmt_keeps user_db_ok (sql_insert_attachment P a)"
  by (rule stmt_keepsI)
     (auto simp: sql_insert_attachment_def stmt_cases user_db_ok_def relations_ok_def has_user_def
       split: if_splits intro!: db_ok_add_attachment)

subsection \<open>The methods\<close>

lemma preserves_user_reads:
  assumes safe: "calls_safe I"
  shows "preserves I (repo_GetUserByID P u)"
    and "preserves I (repo_GetRelation P u v)"
    and "preserves I (repo_ListFriends P u lim cur)"
    and "preserves I (repo_GetDMHistory P c lim cur)"
    and "preserves I (repo_GetDMMessagesSince P c since lim)"
    and "preserves I (repo_GetDMConversations P u lim cur)"
  unfolding repo_GetUserByID_def repo_GetRelation_def repo_ListFriends_def repo_GetDMHistory_def
    repo_GetDMMessagesSince_def repo_GetDMConversations_def Let_def
  by (intro preserves_intros preserves_pg_query_row preserves_pg_query stmt_safe_reads_only
        user_reads safe)+

lemma preserves_repo_UpdateUserProfile:
  "stmt_safe I (sql_update_user P u n a st) \<Longrightarrow> preserves I (repo_UpdateUserProfile P u n a st)"
  unfolding repo_UpdateUserProfile_def by (intro preserves_intros preserves_pg_exec)

lemma preserves_repo_CreateRelation:
  "stmt_safe I (sql_upsert_relation P u v ty) \<Longrightarrow> preserves I (repo_CreateRelation P u v ty)"
  unfolding repo_CreateRelation_def by (intro preserves_intros preserves_pg_exec)

lemma preserves_repo_DeleteRelation:
  "stmt_safe I (sql_delete_relation P u v) \<Longrightarrow> preserves I (repo_DeleteRelation P u v)"
  unfolding repo_DeleteRelation_def by (intro preserves_intros preserves_pg_exec)

lemma preserves_repo_GetOrCreateConversation:
  assumes insert: "\<And>a b. stmt_safe I (sql_insert_conversation P a b)"
  shows "preserves I (repo_GetOrCreateConversation P u v)"
proof -
  have "stmt_safe I (sql_select_conversation P a b)" for a b
    by (intro stmt_safe_reads_only user_reads stmt_safe_calls [OF insert])
  then show ?thesis
    unfolding repo_GetOrCreateConversation_def Let_def
    by (intro preserves_intros preserves_pg_query_row insert)
qed

lemma preserves_repo_InsertDMMessage:
  "stmt_safe I (sql_insert_dm_message P c u content) \<Longrightarrow>
   preserves I (repo_InsertDMMessage P c u content)"
  unfolding repo_InsertDMMessage_def by (intro preserves_intros preserves_pg_query_row)

lemmas preserves_user_writes =
  preserves_repo_UpdateUserProfile preserves_repo_CreateRelation preserves_repo_DeleteRelation
  preserves_repo_GetOrCreateConversation preserves_repo_InsertDMMessage
  preserves_repo_InsertAttachments

end
