(* ===== verification/UserCache.thy ===== *)
theory UserCache
  imports UserRepo GroupCache
begin

text \<open>
  \<open>backend/services/user-service/cache.go\<close> and the state of the service: a cache of profiles and a
  cache of relations. A pair of users without a relation is cached too, as \<open>null\<close>.

  No handler of the service changes a relation, so a cached relation is the row (or its absence):
  \<open>relation_entry\<close>. A profile changes under \<open>UpdateProfile\<close>, which invalidates one spelling of
  the identifier in one instance; what always holds of a cached profile is that its identifier,
  email and creation time are the user's: \<open>user_entry\<close>.
\<close>

record user_svc = infra +
  userCache :: "json cache"
  relationCache :: "json cache"

type_synonym 'a user_call = "(user_svc, go_error + 'a) state"

definition put_userCache :: "json cache \<Rightarrow> user_svc \<Rightarrow> user_svc" where
  "put_userCache c s = s\<lparr>userCache := c\<rparr>"

definition put_relationCache :: "json cache \<Rightarrow> user_svc \<Rightarrow> user_svc" where
  "put_relationCache c s = s\<lparr>relationCache := c\<rparr>"

definition user_prefix :: string where
  "user_prefix = ''user:''"

definition user_key :: "string \<Rightarrow> string" where
  "user_key userID = user_prefix @ userID"

definition relation_prefix :: string where
  "relation_prefix = ''relation:''"

definition relation_key :: "string \<Rightarrow> string \<Rightarrow> string" where
  "relation_key userID targetUserID = relation_prefix @ userID @ '':'' @ targetUserID"

section \<open>UserCache\<close>

definition NewUserCache :: "int \<Rightarrow> string list \<Rightarrow> json cache" where
  "NewUserCache localCapacity ps = NewCache localCapacity ps"

definition user_filler :: "pg_env \<Rightarrow> string \<Rightarrow> json user_call" where
  "user_filler P key = do {
     let userID = drop (length user_prefix) key;
     r \<leftarrow> repo_GetUserByID P userID;
     ret (case r of Inl err \<Rightarrow> Inl err | Inr user \<Rightarrow> Inr (MarshalUser user))
   }"

definition UserCache_Get :: "pg_env \<Rightarrow> string \<Rightarrow> user_row user_call" where
  "UserCache_Get P userID = do {
     let key = user_key userID;
     data \<leftarrow> Cache_Get userCache put_userCache (Some (user_filler P)) key;
     ret (case data of Inl err \<Rightarrow> Inl err | Inr j \<Rightarrow> UnmarshalUser j)
   }"

definition UserCache_Set :: "user_row \<Rightarrow> (user_svc, unit) state" where
  "UserCache_Set user =
     modify (\<lambda>s. put_userCache (Cache_Set (user_key (ur_id user)) (MarshalUser user) (userCache s)) s)"

definition UserCache_Invalidate :: "string \<Rightarrow> (user_svc, unit) state" where
  "UserCache_Invalidate userID =
     modify (\<lambda>s. put_userCache (Cache_Remove (user_key userID) (userCache s)) s)"

section \<open>RelationCache\<close>

text \<open>
  \<open>splitRelationKey\<close>: what is before and after the first colon behind the prefix. The Go
  function returns a slice of two strings, or nil.
\<close>

definition splitRelationKey :: "string \<Rightarrow> (string \<times> string) option" where
  "splitRelationKey key =
     (let rest = drop (length relation_prefix) key;
          firstEnd = length (takeWhile (\<lambda>c. c \<noteq> CHR '':'') rest)
      in if firstEnd = length rest then None
         else Some (take firstEnd rest, drop (firstEnd + 1) rest))"

definition NewRelationCache :: "int \<Rightarrow> string list \<Rightarrow> json cache" where
  "NewRelationCache localCapacity ps = NewCache localCapacity ps"

definition relation_filler :: "pg_env \<Rightarrow> string \<Rightarrow> json user_call" where
  "relation_filler P key =
     (case splitRelationKey key of
        None \<Rightarrow> ret (Inl (Errorf ''invalid relation key''))
      | Some (u, v) \<Rightarrow> do {
          r \<leftarrow> repo_GetRelation P u v;
          ret (case r of
                 Inl err \<Rightarrow> Inl err
               | Inr None \<Rightarrow> Inr JNull
               | Inr (Some rel) \<Rightarrow> Inr (MarshalRelation rel))
        })"

definition RelationCache_Get :: "pg_env \<Rightarrow> string \<Rightarrow> string \<Rightarrow> relation_row option user_call" where
  "RelationCache_Get P userID targetUserID = do {
     let key = relation_key userID targetUserID;
     data \<leftarrow> Cache_Get relationCache put_relationCache (Some (relation_filler P)) key;
     ret (case data of
            Inl err \<Rightarrow> Inl err
          | Inr j \<Rightarrow> if j = JNull then Inr None else map_sum id Some (UnmarshalRelation j))
   }"

definition RelationCache_Invalidate :: "string \<Rightarrow> string \<Rightarrow> (user_svc, unit) state" where
  "RelationCache_Invalidate userID targetUserID =
     modify (\<lambda>s. put_relationCache
       (Cache_Remove (relation_key userID targetUserID) (relationCache s)) s)"

subsection \<open>Keys\<close>

lemma user_key_simps [simp]:
  "user_key a = user_key b \<longleftrightarrow> a = b" "drop (length user_prefix) (user_key a) = a"
  by (simp_all add: user_key_def)

lemma takeWhile_colon: "CHR '':'' \<notin> set a \<Longrightarrow> takeWhile (\<lambda>c. c \<noteq> CHR '':'') (a @ CHR '':'' # b) = a"
  by (induction a) auto

lemma split_relation_key:
  assumes "CHR '':'' \<notin> set a"
  shows "splitRelationKey (relation_key a b) = Some (a, b)"
  using takeWhile_colon [OF assms, of b]
  by (simp add: splitRelationKey_def relation_key_def Let_def)

text \<open>The pair of a key is determined when neither of its parts has a colon.\<close>

lemma relation_key_inject:
  "CHR '':'' \<notin> set a \<Longrightarrow> CHR '':'' \<notin> set b \<Longrightarrow> relation_key a b = relation_key t c \<longleftrightarrow> a = t \<and> b = c"
  by (simp add: relation_key_def append_Cons_eq_iff)

text \<open>The filler's pair makes up the key again, and its first part has no colon.\<close>

lemma split_at_colon:
  fixes k :: 'a and xs :: "'a list"
  defines "n \<equiv> length (takeWhile (\<lambda>c. c \<noteq> k) xs)"
  assumes "n \<noteq> length xs"
  shows "xs = take n xs @ k # drop (n + 1) xs" and "k \<notin> set (take n xs)"
proof -
  let ?P = "\<lambda>c. c \<noteq> k"
  have n: "take n xs = takeWhile ?P xs" "drop n xs = dropWhile ?P xs"
    by (simp_all add: n_def takeWhile_eq_take [symmetric] dropWhile_eq_drop)
  have "n < length xs"
    using assms(2) length_takeWhile_le [of ?P xs] by (simp add: n_def)
  then have "drop n xs = xs ! n # drop (n + 1) xs" by (simp add: Cons_nth_drop_Suc)
  moreover have "xs ! n = k"
    using \<open>n < length xs\<close> nth_length_takeWhile [of ?P xs] by (simp add: n_def)
  ultimately show "xs = take n xs @ k # drop (n + 1) xs" by (metis append_take_drop_id)
  show "k \<notin> set (take n xs)" unfolding n(1) by (auto dest: set_takeWhileD)
qed

lemma split_relation_key_parts:
  assumes "splitRelationKey (relation_key t c) = Some (a, b)"
  shows "CHR '':'' \<notin> set a" and "relation_key t c = relation_key a b"
  using assms split_at_colon [of "CHR '':''" "t @ CHR '':'' # c"]
  by (auto simp: splitRelationKey_def relation_key_def Let_def split: if_splits)

section \<open>The invariant\<close>

definition user_entry :: "pg_env \<Rightarrow> database \<Rightarrow> string \<Rightarrow> json \<Rightarrow> bool" where
  "user_entry P d key j \<longleftrightarrow>
     (\<exists>raw row. key = user_key raw \<and> UnmarshalUser j = Inr row \<and> uuid_in P raw = Some (ur_id row) \<and>
        (ur_id row, ur_email row, ur_created_at row) \<in>
          (\<lambda>u. (u_id u, u_email u, u_created_at u)) ` set (users d))"

definition relation_of :: "database \<Rightarrow> string \<Rightarrow> string \<Rightarrow> relation_row option" where
  "relation_of d u v = find (\<lambda>r. rel_key r = (u, v)) (user_relations d)"

definition relation_entry :: "pg_env \<Rightarrow> database \<Rightarrow> string \<Rightarrow> json \<Rightarrow> bool" where
  "relation_entry P d key j \<longleftrightarrow>
     (\<exists>a b u v. key = relation_key a b \<and> uuid_in P a = Some u \<and> uuid_in P b = Some v \<and>
        j = (case relation_of d u v of None \<Rightarrow> JNull | Some r \<Rightarrow> MarshalRelation r))"

text \<open>Conversations have the identifiers that Postgres gave them.\<close>

definition dm_ids_ok :: "pg_env \<Rightarrow> database \<Rightarrow> bool" where
  "dm_ids_ok P d \<longleftrightarrow> (\<forall>c \<in> set (dm_conversations d). uuid_in P (dc_id c) = Some (dc_id c))"

definition user_svc_ok :: "pg_env \<Rightarrow> user_svc \<Rightarrow> bool" where
  "user_svc_ok P s \<longleftrightarrow>
     user_db_ok (db s) \<and> dm_ids_ok P (db s) \<and>
     lru.agrees (user_entry P (db s)) (lru (userCache s)) \<and>
     lru.agrees (relation_entry P (db s)) (lru (relationCache s))"

text \<open>
  What the handlers leave alone: the relations, and who the users are. New conversations get
  generated identifiers.
\<close>

definition users_stay :: "pg_env \<Rightarrow> database \<Rightarrow> database \<Rightarrow> bool" where
  "users_stay P d d' \<longleftrightarrow>
     user_relations d' = user_relations d \<and>
     map (\<lambda>u. (u_id u, u_email u, u_created_at u)) (users d') =
       map (\<lambda>u. (u_id u, u_email u, u_created_at u)) (users d) \<and>
     dc_id ` set (dm_conversations d') \<subseteq> dc_id ` set (dm_conversations d) \<union> range (gen_uuid P)"

lemma users_stay_refl [simp]: "users_stay P d d"
  by (auto simp: users_stay_def)

named_theorems user_stays "statements that leave relations and the identity of users alone"

lemma sql_update_user_stays [user_stays]: "stmt_rel (users_stay P) (sql_update_user P u n a st)"
  by (rule stmt_relI) (auto simp: sql_update_user_def stmt_cases users_stay_def)

lemma sql_insert_conversation_stays [user_stays]:
  "stmt_rel (users_stay P) (sql_insert_conversation P a b)"
  by (rule stmt_relI)
     (auto simp: sql_insert_conversation_def stmt_cases users_stay_def new_conversation_def
       simp del: image_eqI split: if_splits)

lemma same_users_stay:
  "user_relations d' = user_relations d \<Longrightarrow> users d' = users d \<Longrightarrow>
   dm_conversations d' = dm_conversations d \<Longrightarrow> users_stay P d d'"
  by (simp add: users_stay_def)

lemma user_stmts_accounts [accounts_stays]:
  "stmt_rel accounts_stay (sql_update_user P u n a st)"
  "stmt_rel accounts_stay (sql_insert_conversation P a b)"
  "stmt_rel accounts_stay (sql_insert_dm_message P c u content)"
proof -
  show "stmt_rel accounts_stay (sql_update_user P u n a st)"
    by (rule stmt_relI) (auto simp: sql_update_user_def stmt_cases accounts_stay_def map_if_key simp del: map_map)
qed (rule stmt_relI; auto simp: sql_insert_conversation_def sql_insert_dm_message_def stmt_cases
       split: if_splits intro!: accounts_stay_same)+

lemma user_stmts_owners [community_owners]:
  "stmt_rel (owners_evolve P) (sql_update_user P u n a st)"
  "stmt_rel (owners_evolve P) (sql_insert_conversation P a b)"
  "stmt_rel (owners_evolve P) (sql_insert_dm_message P c u content)"
  by (rule stmt_relI; auto simp: sql_update_user_def sql_insert_conversation_def sql_insert_dm_message_def
      stmt_cases split: if_splits intro!: owners_evolve_same)+

lemma other_user_stmts_stay [user_stays]:
  "stmt_rel (users_stay P) (sql_insert_dm_message P c u content)"
  "stmt_rel (users_stay P) (sql_insert_attachment P att)"
  by (rule stmt_relI, rule same_users_stay;
      auto simp: sql_insert_dm_message_def sql_insert_attachment_def stmt_cases split: if_splits)+

lemma entries_stay:
  assumes "users_stay P d d'"
  shows "user_entry P d k j \<Longrightarrow> user_entry P d' k j"
    and "relation_entry P d k j \<Longrightarrow> relation_entry P d' k j"
  using assms map_key_set [of "\<lambda>u. (u_id u, u_email u, u_created_at u)" "users d'" "users d"]
  by (auto simp: user_entry_def relation_entry_def relation_of_def users_stay_def)

lemma dm_ids_stay:
  assumes P: "pg_env_ok P" and stay: "users_stay P d d'" and ids: "dm_ids_ok P d"
  shows "dm_ids_ok P d'"
  unfolding dm_ids_ok_def
proof
  fix c assume "c \<in> set (dm_conversations d')"
  with stay have "dc_id c \<in> dc_id ` set (dm_conversations d) \<union> range (gen_uuid P)"
    unfolding users_stay_def by blast
  with ids show "uuid_in P (dc_id c) = Some (dc_id c)"
    using pg_env_okD(3) [OF P] by (elim UnE imageE) (simp_all add: dm_ids_ok_def)
qed

lemma user_svc_ok_db:
  "pg_env_ok P \<Longrightarrow> user_svc_ok P s \<Longrightarrow> user_db_ok d \<Longrightarrow> users_stay P (db s) d \<Longrightarrow>
   user_svc_ok P (s\<lparr>db := d\<rparr>)"
  unfolding user_svc_ok_def
  by (auto intro: lru.agrees_weaken entries_stay dm_ids_stay)

lemma calls_safe_user_svc_ok [simp, intro]: "calls_safe (user_svc_ok P)"
  by (simp add: calls_safe_def user_svc_ok_def)

lemma stmt_safe_user_svc_ok:
  "pg_env_ok P \<Longrightarrow> stmt_keeps user_db_ok stmt \<Longrightarrow> stmt_rel (users_stay P) stmt \<Longrightarrow>
   stmt_safe (user_svc_ok P) stmt"
  unfolding stmt_safe_def stmt_keeps_def stmt_rel_def
  by (auto intro!: user_svc_ok_db) (auto simp: user_svc_ok_def)

section \<open>What the caches do\<close>

lemma user_put_simps [simp]:
  "db (put_userCache c s) = db s" "db (put_relationCache c s) = db s"
  by (simp_all add: put_userCache_def put_relationCache_def)

lemma user_svc_ok_touch:
  "user_svc_ok P s \<Longrightarrow> user_svc_ok P (put_userCache (lru_touched k (userCache s)) s)"
  "user_svc_ok P s \<Longrightarrow> user_svc_ok P (put_relationCache (lru_touched k (relationCache s)) s)"
  by (simp_all add: user_svc_ok_def put_userCache_def put_relationCache_def lru.agrees_get)

lemma user_svc_ok_set:
  "user_svc_ok P s \<Longrightarrow> user_entry P (db s) k j \<Longrightarrow>
   user_svc_ok P (put_userCache (Cache_Set k j (userCache s)) s)"
  "user_svc_ok P s \<Longrightarrow> relation_entry P (db s) k j \<Longrightarrow>
   user_svc_ok P (put_relationCache (Cache_Set k j (relationCache s)) s)"
  by (simp_all add: user_svc_ok_def put_userCache_def put_relationCache_def Cache_Set_def
      lru.agrees_add)

lemma user_svc_ok_remove:
  "user_svc_ok P s \<Longrightarrow> user_svc_ok P (put_userCache (Cache_Remove k (userCache s)) s)"
  "user_svc_ok P s \<Longrightarrow> user_svc_ok P (put_relationCache (Cache_Remove k (relationCache s)) s)"
  by (auto simp: user_svc_ok_def put_userCache_def put_relationCache_def Cache_Remove_def
      elim: lru.agrees_remove)

lemma preserves_user_Invalidate [preserves_intros]:
  "preserves (user_svc_ok P) (UserCache_Invalidate u)"
  "preserves (user_svc_ok P) (RelationCache_Invalidate u v)"
  unfolding UserCache_Invalidate_def RelationCache_Invalidate_def
  by (auto intro!: preserves_modify user_svc_ok_remove)

text \<open>A profile read from the table, and one read through the cache.\<close>

definition is_user :: "pg_env \<Rightarrow> string \<Rightarrow> user_row \<Rightarrow> database \<Rightarrow> bool" where
  "is_user P raw row d \<longleftrightarrow>
     uuid_in P raw = Some (ur_id row) \<and>
     (ur_id row, ur_email row, ur_created_at row) \<in>
       (\<lambda>u. (u_id u, u_email u, u_created_at u)) ` set (users d)"

lemma user_entry_iff: "user_entry P d (user_key raw) j \<longleftrightarrow>
    (\<exists>row. UnmarshalUser j = Inr row \<and> is_user P raw row d)"
  by (auto simp: user_entry_def is_user_def)

lemma repo_GetUserByID_InrD:
  assumes run: "run_state (repo_GetUserByID P raw) s = (Inr row, s')"
  shows "\<exists>u x. uuid_in P raw = Some u \<and> x \<in> set (users (db s)) \<and> u_id x = u \<and>
    row = user_row_of x \<and> db s' = db s"
proof -
  obtain q s1 where q: "run_state (pg_query_row (sql_select_user P raw)) s = (q, s1)" by fastforce
  with run have "q = Inr row" and "s' = s1"
    by (auto simp: repo_GetUserByID_def split: sum.splits if_splits)
  from pg_query_row_InrD [OF q [unfolded this(1)]] \<open>s' = s1\<close> obtain xs t d where
    "sql_select_user P raw t (db s) = Inr (row # xs, d)" "db s' = d"
    by auto
  then show ?thesis
    by (auto simp: sql_select_user_def stmt_cases map_eq_Cons_conv filter_eq_Cons_iff)
qed

lemma triple_user_filler:
  "triple (user_svc_ok P) (user_filler P (user_key raw))
     (\<lambda>r s. user_svc_ok P s \<and> (case r of Inl _ \<Rightarrow> True | Inr j \<Rightarrow> user_entry P (db s) (user_key raw) j))"
proof (rule tripleI)
  fix s r s' assume ok: "user_svc_ok P s" and run: "run_state (user_filler P (user_key raw)) s = (r, s')"
  have "preserves (user_svc_ok P) (user_filler P (user_key raw))"
    unfolding user_filler_def Let_def
    by (intro preserves_intros preserves_user_reads calls_safe_user_svc_ok)
  then have "user_svc_ok P s'" using run ok by (rule preservesD)
  moreover have "user_entry P (db s') (user_key raw) j" if "r = Inr j" for j
  proof -
    from run that obtain row where "run_state (repo_GetUserByID P raw) s = (Inr row, s')"
      and "j = MarshalUser row"
      by (auto simp: user_filler_def split: prod.splits sum.splits)
    with repo_GetUserByID_InrD show ?thesis
      by (fastforce simp: user_entry_iff is_user_def user_row_of_def)
  qed
  ultimately show "user_svc_ok P s' \<and>
      (case r of Inl _ \<Rightarrow> True | Inr j \<Rightarrow> user_entry P (db s') (user_key raw) j)"
    by (simp split: sum.split)
qed

lemma triple_UserCache_Get:
  "triple (user_svc_ok P) (UserCache_Get P raw)
     (\<lambda>r s. user_svc_ok P s \<and> (case r of Inl _ \<Rightarrow> True | Inr row \<Rightarrow> is_user P raw row (db s)))"
proof -
  let ?k = "user_key raw"
  have "triple (user_svc_ok P) (Cache_Get userCache put_userCache (Some (user_filler P)) ?k)
      (\<lambda>r s. user_svc_ok P s \<and> (case r of Inl _ \<Rightarrow> True | Inr j \<Rightarrow> user_entry P (db s) ?k j))"
  proof (rule triple_Cache_Get)
    fix s assume "user_svc_ok P s"
    then show "user_svc_ok P (put_userCache (lru_touched ?k (userCache s)) s)"
      by (rule user_svc_ok_touch)
  next
    fix s v assume "user_svc_ok P s" and "fst (lru_Get ?k (lru (userCache s))) = Some v"
    then show "user_entry P (db (put_userCache (lru_touched ?k (userCache s)) s)) ?k v"
      by (auto simp: user_svc_ok_def dest: lru.agrees_value)
  next
    show "triple (user_svc_ok P) (user_filler P ?k) (\<lambda>r s. case r of
        Inl e \<Rightarrow> user_svc_ok P s
      | Inr v \<Rightarrow> user_svc_ok P (put_userCache (Cache_Set ?k v (userCache s)) s) \<and>
          user_entry P (db (put_userCache (Cache_Set ?k v (userCache s)) s)) ?k v)"
      by (rule triple_weaken [OF triple_user_filler])
         (auto split: sum.splits intro: user_svc_ok_set)
  qed
  then show ?thesis
    unfolding UserCache_Get_def Let_def
    by (rule triple_bind) (auto simp: triple_def user_entry_iff split: sum.splits)
qed

text \<open>The relation between two users, as the table has it.\<close>

definition is_relation ::
  "pg_env \<Rightarrow> string \<Rightarrow> string \<Rightarrow> relation_row option \<Rightarrow> database \<Rightarrow> bool" where
  "is_relation P a b r d \<longleftrightarrow>
     (\<exists>u v. uuid_in P a = Some u \<and> uuid_in P b = Some v \<and> r = relation_of d u v)"

lemma relation_entryD:
  assumes P: "pg_env_ok P" and entry: "relation_entry P d (relation_key t c) j"
  shows "\<exists>r. j = (case r of None \<Rightarrow> JNull | Some x \<Rightarrow> MarshalRelation x) \<and> is_relation P t c r d"
proof -
  from entry obtain a b u v where "relation_key t c = relation_key a b"
    and ab: "uuid_in P a = Some u" "uuid_in P b = Some v"
      "j = (case relation_of d u v of None \<Rightarrow> JNull | Some x \<Rightarrow> MarshalRelation x)"
    by (auto simp: relation_entry_def)
  with relation_key_inject pg_env_okD(4) [OF P ab(1)] pg_env_okD(4) [OF P ab(2)]
  have "a = t" "b = c" by metis+
  with ab show ?thesis by (auto simp: is_relation_def)
qed

lemma repo_GetRelation_InrD:
  assumes run: "run_state (repo_GetRelation P a b) s = (Inr r, s')"
  shows "is_relation P a b r (db s')" and "db s' = db s"
proof -
  obtain q s1 where q: "run_state (pg_query_row (sql_select_relation P a b)) s = (q, s1)" by fastforce
  have "\<exists>t rows. sql_select_relation P a b t (db s) = Inr (rows, db s') \<and>
      r = (case rows of [] \<Rightarrow> None | x # _ \<Rightarrow> Some x)"
  proof (cases q)
    case (Inr x)
    with q run have "r = Some x" "s' = s1" by (auto simp: repo_GetRelation_def)
    with pg_query_row_InrD [OF q [unfolded Inr]] show ?thesis
      by (fastforce intro: exI [of _ "_ # _"])
  next
    case (Inl e)
    with q run have "e = NoRows" "r = None" "s' = s1" by (auto simp: repo_GetRelation_def split: if_splits)
    with pg_query_row_NoRowsD [OF q [unfolded Inl this(1)]]
    obtain t where "sql_select_relation P a b t (db s) = Inr ([], db s')" by auto
    then show ?thesis using \<open>r = None\<close> by (intro exI [of _ t] exI [of _ "[]"]) simp
  qed
  then show "is_relation P a b r (db s')" and "db s' = db s"
    by (auto simp: sql_select_relation_def stmt_cases is_relation_def relation_of_def find_filter_hd)
qed

lemma triple_relation_filler:
  "triple (user_svc_ok P) (relation_filler P key)
     (\<lambda>r s. user_svc_ok P s \<and> (\<forall>t c. key = relation_key t c \<longrightarrow>
        (case r of Inl _ \<Rightarrow> True | Inr j \<Rightarrow> relation_entry P (db s) key j)))"
proof (rule tripleI, intro conjI allI impI)
  fix s r s' assume ok: "user_svc_ok P s" and run: "run_state (relation_filler P key) s = (r, s')"
  have "preserves (user_svc_ok P) (relation_filler P key)"
    unfolding relation_filler_def
    by (intro preserves_intros preserves_user_reads calls_safe_user_svc_ok)
  then show "user_svc_ok P s'" using run ok by (rule preservesD)
  fix t c assume key: "key = relation_key t c"
  have "relation_entry P (db s') key j" if r: "r = Inr j" for j
  proof -
    from run r obtain a b q where split: "splitRelationKey key = Some (a, b)"
      and get: "run_state (repo_GetRelation P a b) s = (Inr q, s')"
      and j: "j = (case q of None \<Rightarrow> JNull | Some x \<Rightarrow> MarshalRelation x)"
      by (auto simp: relation_filler_def split: option.splits prod.splits sum.splits)
    from split_relation_key_parts(2) [OF split [unfolded key]] repo_GetRelation_InrD(1) [OF get] j
    show ?thesis by (auto simp: key relation_entry_def is_relation_def)
  qed
  then show "case r of Inl _ \<Rightarrow> True | Inr j \<Rightarrow> relation_entry P (db s') key j"
    by (simp split: sum.split)
qed

lemma MarshalRelation_not_null [simp]: "MarshalRelation x \<noteq> JNull" "JNull \<noteq> MarshalRelation x"
  by (simp_all add: MarshalRelation_def)

lemma triple_RelationCache_Get:
  assumes P: "pg_env_ok P"
  shows "triple (user_svc_ok P) (RelationCache_Get P a b)
     (\<lambda>r s. user_svc_ok P s \<and> (case r of Inl _ \<Rightarrow> True | Inr q \<Rightarrow> is_relation P a b q (db s)))"
proof -
  let ?k = "relation_key a b"
  have "triple (user_svc_ok P) (Cache_Get relationCache put_relationCache (Some (relation_filler P)) ?k)
      (\<lambda>r s. user_svc_ok P s \<and> (case r of Inl _ \<Rightarrow> True | Inr j \<Rightarrow> relation_entry P (db s) ?k j))"
  proof (rule triple_Cache_Get)
    fix s assume "user_svc_ok P s"
    then show "user_svc_ok P (put_relationCache (lru_touched ?k (relationCache s)) s)"
      by (rule user_svc_ok_touch)
  next
    fix s v assume "user_svc_ok P s" and "fst (lru_Get ?k (lru (relationCache s))) = Some v"
    then show "relation_entry P (db (put_relationCache (lru_touched ?k (relationCache s)) s)) ?k v"
      by (auto simp: user_svc_ok_def dest: lru.agrees_value)
  next
    show "triple (user_svc_ok P) (relation_filler P ?k) (\<lambda>r s. case r of
        Inl e \<Rightarrow> user_svc_ok P s
      | Inr v \<Rightarrow> user_svc_ok P (put_relationCache (Cache_Set ?k v (relationCache s)) s) \<and>
          relation_entry P (db (put_relationCache (Cache_Set ?k v (relationCache s)) s)) ?k v)"
      by (rule triple_weaken [OF triple_relation_filler])
         (auto split: sum.splits intro: user_svc_ok_set)
  qed
  then show ?thesis
    unfolding RelationCache_Get_def Let_def
    by (rule triple_bind)
       (auto simp: triple_def split: sum.splits dest!: relation_entryD [OF P] split: option.splits)
qed

lemma preserves_user_Get [preserves_intros]:
  "preserves (user_svc_ok P) (UserCache_Get P raw)"
  "pg_env_ok P \<Longrightarrow> preserves (user_svc_ok P) (RelationCache_Get P a b)"
  using triple_UserCache_Get [of P raw] triple_RelationCache_Get [of P a b]
  by (auto simp: triple_preserves [symmetric] elim: triple_weaken)

end
