(* ===== verification/UserService.thy ===== *)
theory UserService
  imports UserCache CommunityService
begin

text \<open>
  \<open>backend/services/user-service/service.go\<close>: one definition per handler. As in \<open>CommunityService\<close> a
  handler takes the caller's identifier and the fields of the request it reads. The service writes
  through \<open>userWriter\<close>, which is the same cache it reads from.
\<close>

section \<open>Messages\<close>

record pb_user =
  pbu_id :: string
  pbu_email :: string
  pbu_nickname :: string
  pbu_avatar_url :: string
  pbu_status_message :: string
  pbu_created_at :: int
  pbu_updated_at :: int

record pb_user_brief =
  pbb_id :: string
  pbb_nickname :: string

record pb_dm_message =
  pbd_id :: string
  pbd_conversation_id :: string
  pbd_sender_id :: string
  pbd_content :: string
  pbd_created_at :: int
  pbd_seq :: int

record pb_dm_conversation =
  pbv_id :: string
  pbv_peer_id :: string
  pbv_created_at :: int

definition pb_user_of :: "user_row \<Rightarrow> pb_user" where
  "pb_user_of u =
     \<lparr>pbu_id = ur_id u, pbu_email = ur_email u, pbu_nickname = ur_nickname u,
      pbu_avatar_url = ur_avatar_url u, pbu_status_message = ur_status_message u,
      pbu_created_at = unix (ur_created_at u), pbu_updated_at = unix (ur_updated_at u)\<rparr>"

definition pb_dm_of :: "dm_message_row \<Rightarrow> pb_dm_message" where
  "pb_dm_of m =
     \<lparr>pbd_id = dm_id m, pbd_conversation_id = dm_conversation_id m, pbd_sender_id = dm_sender_id m,
      pbd_content = dm_content m, pbd_created_at = unix (dm_created_at m), pbd_seq = dm_seq m\<rparr>"

definition pb_conversation_of :: "string \<Rightarrow> dm_conversation_row \<Rightarrow> pb_dm_conversation" where
  "pb_conversation_of callerID c =
     \<lparr>pbv_id = dc_id c,
      pbv_peer_id = (if dc_user_a_id c \<noteq> callerID then dc_user_a_id c else dc_user_b_id c),
      pbv_created_at = unix (dc_created_at c)\<rparr>"

section \<open>Profiles\<close>

definition GetUser :: "pg_env \<Rightarrow> string \<Rightarrow> (user_svc, pb_user) handler" where
  "GetUser P rUserId =
     (let userID = trim_space rUserId in
     guard_that (userID \<noteq> []) CodeInvalidArgument ''user_id is required'' (
     try_call (wrapped CodeNotFound ''user not found'') (UserCache_Get P userID) (\<lambda>user.
     ok (pb_user_of user))))"

definition UpdateProfile ::
  "pg_env \<Rightarrow> string \<Rightarrow> string \<Rightarrow> string \<Rightarrow> string \<Rightarrow> (user_svc, pb_user) handler" where
  "UpdateProfile P callerID rNickname rAvatarUrl rStatusMessage =
     authenticated callerID (
     try_call (wrapped CodeInternal ''failed to update profile'')
       (repo_UpdateUserProfile P callerID (trim_space rNickname) (trim_space rAvatarUrl)
          (trim_space rStatusMessage)) (\<lambda>_. do {
     UserCache_Invalidate callerID;
     try_call (wrapped CodeInternal ''failed to fetch updated profile'')
       (repo_GetUserByID P callerID) (\<lambda>user.
     ok (pb_user_of user))
     }))"

definition ListFriends ::
  "pg_env \<Rightarrow> string \<Rightarrow> pagination_request option \<Rightarrow>
   (user_svc, pb_user_brief list \<times> pagination_response) handler" where
  "ListFriends P callerID rPagination =
     authenticated callerID (
     let (limit, cursor) = page_args rPagination in
     try_call (wrapped CodeInternal ''failed to list friends'')
       (repo_ListFriends P callerID limit cursor) (\<lambda>(friends, nextCursor).
     ok (map (\<lambda>f. \<lparr>pbb_id = ur_id f, pbb_nickname = ur_nickname f\<rparr>) friends,
         page_response nextCursor)))"

section \<open>Direct messages\<close>

definition publishDMCreated ::
  "string \<Rightarrow> string \<Rightarrow> string \<Rightarrow> string \<Rightarrow> string \<Rightarrow> int \<Rightarrow> int \<Rightarrow> (user_svc, unit) state" where
  "publishDMCreated messageID senderID receiverID conversationID content createdAt seq = do {
     connected \<leftarrow> gets nats_connected;
     if \<not> connected then ret ()
     else do {
       let payload = JObj
         [(''message_id'', JStr messageID), (''sender_id'', JStr senderID),
          (''receiver_id'', JStr receiverID), (''conversation_id'', JStr conversationID),
          (''content'', JStr content), (''created_at'', JNum createdAt), (''seq'', JNum seq)];
       _ \<leftarrow> nats_publish ''constell.dm.created'' payload;
       ret ()
     }
   }"

definition dm_attachment :: "string \<Rightarrow> string \<Rightarrow> attachment_row" where
  "dm_attachment messageID fileID =
     \<lparr>att_id = [], att_message_type = ''dm'', att_message_id = messageID, att_file_id = fileID,
      att_filename = [], att_content_type = [], att_size = 0\<rparr>"

definition is_blocked :: "relation_row option \<Rightarrow> bool" where
  "is_blocked r \<longleftrightarrow> (case r of None \<Rightarrow> False | Some rel \<Rightarrow> rel_type rel = ''blocked'')"

definition SendDM ::
  "pg_env \<Rightarrow> string \<Rightarrow> string \<Rightarrow> string \<Rightarrow> string list \<Rightarrow> (user_svc, pb_dm_message) handler" where
  "SendDM P callerID rTargetUserId rContent rFileIds =
     authenticated callerID (
     let targetUserID = trim_space rTargetUserId; content = trim_space rContent in
     guard_that (targetUserID \<noteq> []) CodeInvalidArgument ''target_user_id is required'' (
     guard_that (content \<noteq> []) CodeInvalidArgument ''content is required'' (
     try_call (wrapped CodeInternal ''failed to check blocklist'')
       (RelationCache_Get P targetUserID callerID) (\<lambda>rel.
     guard_that (\<not> is_blocked rel) CodePermissionDenied ''cannot send DM to this user'' (
     try_call (wrapped CodeInternal ''failed to check blocklist'')
       (RelationCache_Get P callerID targetUserID) (\<lambda>rel2.
     guard_that (\<not> is_blocked rel2) CodePermissionDenied ''cannot send DM to a blocked user'' (
     try_call (wrapped CodeInternal ''failed to get conversation'')
       (repo_GetOrCreateConversation P callerID targetUserID) (\<lambda>conv.
     try_call (wrapped CodeInternal ''failed to send DM'')
       (repo_InsertDMMessage P (dc_id conv) callerID content) (\<lambda>msg. do {
     _ \<leftarrow> (if rFileIds \<noteq> []
           then do { _ \<leftarrow> repo_InsertAttachments P (map (dm_attachment (dm_id msg)) rFileIds); ret () }
           else ret ());
     publishDMCreated (dm_id msg) callerID targetUserID (dc_id conv) content
       (unix (dm_created_at msg)) (dm_seq msg);
     ok (pb_dm_of msg)
     })))))))))"

definition GetDMHistory ::
  "pg_env \<Rightarrow> string \<Rightarrow> string \<Rightarrow> pagination_request option \<Rightarrow> int \<Rightarrow>
   (user_svc, pb_dm_message list \<times> pagination_response) handler" where
  "GetDMHistory P callerID rTargetUserId rPagination rSinceSeq =
     authenticated callerID (
     let targetUserID = trim_space rTargetUserId in
     guard_that (targetUserID \<noteq> []) CodeInvalidArgument ''target_user_id is required'' (
     try_call (wrapped CodeInternal ''failed to get conversation'')
       (repo_GetOrCreateConversation P callerID targetUserID) (\<lambda>conv.
     let (limit, cursor) = page_args rPagination in
     if rSinceSeq > 0
     then
       try_call (wrapped CodeInternal ''failed to get DM messages since'')
         (repo_GetDMMessagesSince P (dc_id conv) rSinceSeq limit) (\<lambda>rows.
       ok (map pb_dm_of rows, page_response []))
     else
       try_call (wrapped CodeInternal ''failed to get DM history'')
         (repo_GetDMHistory P (dc_id conv) limit cursor) (\<lambda>(rows, nextCursor).
       ok (map pb_dm_of rows, page_response nextCursor)))))"

definition GetDMConversations ::
  "pg_env \<Rightarrow> string \<Rightarrow> pagination_request option \<Rightarrow>
   (user_svc, pb_dm_conversation list \<times> pagination_response) handler" where
  "GetDMConversations P callerID rPagination =
     authenticated callerID (
     let (limit, cursor) = page_args rPagination in
     try_call (wrapped CodeInternal ''failed to get DM conversations'')
       (repo_GetDMConversations P callerID limit cursor) (\<lambda>(convos, nextCursor).
     ok (map (pb_conversation_of callerID) convos, page_response nextCursor)))"

section \<open>The invariant is kept\<close>

text \<open>
  As for the community service: a predicate that survives statements which keep integrity and
  leave the relations, the users' identity and the owners of communities alone, and the cache operations.
\<close>

definition user_evolving :: "pg_env \<Rightarrow> (user_svc \<Rightarrow> bool) \<Rightarrow> bool" where
  "user_evolving P I \<longleftrightarrow>
     calls_safe I \<and>
     (\<forall>s d. I s \<longrightarrow> user_db_ok d \<longrightarrow> users_stay P (db s) d \<longrightarrow> accounts_stay (db s) d \<longrightarrow>
        owners_evolve P (db s) d \<longrightarrow> I (s\<lparr>db := d\<rparr>)) \<and>
     (\<forall>s. I s \<longrightarrow> user_db_ok (db s)) \<and>
     (\<forall>s p. I s \<longrightarrow> I (s\<lparr>published := p\<rparr>))"

lemma stmt_safe_user_evolving:
  assumes "user_evolving P I" and "stmt_keeps user_db_ok stmt" and "stmt_rel (users_stay P) stmt"
    and "stmt_rel accounts_stay stmt" and "stmt_rel (owners_evolve P) stmt"
  shows "stmt_safe I stmt"
  using assms unfolding stmt_safe_def user_evolving_def stmt_keeps_def stmt_rel_def by metis

definition user_handler_safe :: "pg_env \<Rightarrow> (user_svc \<Rightarrow> bool) \<Rightarrow> bool" where
  "user_handler_safe P I \<longleftrightarrow>
     user_evolving P I \<and> (\<forall>u. preserves I (UserCache_Get P u)) \<and>
     (\<forall>a b. preserves I (RelationCache_Get P a b)) \<and> (\<forall>u. preserves I (UserCache_Invalidate u))"

lemma user_handler_safeD:
  assumes "user_handler_safe P I"
  shows "user_evolving P I" and "preserves I (UserCache_Get P u)"
    and "preserves I (RelationCache_Get P a b)" and "preserves I (UserCache_Invalidate u)"
    and "calls_safe I"
  using assms by (auto simp: user_handler_safe_def user_evolving_def)

lemma user_handler_safe_ok: "pg_env_ok P \<Longrightarrow> user_handler_safe P (user_svc_ok P)"
  unfolding user_handler_safe_def user_evolving_def
  by (intro conjI allI impI preserves_intros user_svc_ok_db) (auto simp: user_svc_ok_def)

lemma preserves_publishDMCreated:
  "user_evolving P I \<Longrightarrow> preserves I (publishDMCreated m u v c content t q)"
  unfolding publishDMCreated_def Let_def user_evolving_def
  by (intro preserves_intros preserves_nats_publish) auto

lemma preserves_user_handlers:
  assumes I: "user_handler_safe P I"
  shows "preserves I (GetUser P rUser)"
    and "preserves I (UpdateProfile P u n a st)"
    and "preserves I (ListFriends P u pg)"
    and "preserves I (SendDM P u target content files)"
    and "preserves I (GetDMHistory P u target pg since)"
    and "preserves I (GetDMConversations P u pg)"
  unfolding GetUser_def UpdateProfile_def ListFriends_def SendDM_def GetDMHistory_def
    GetDMConversations_def authenticated_def Let_def
  by (intro preserves_intros user_handler_safeD [OF I] preserves_user_reads preserves_user_writes
      preserves_publishDMCreated [OF user_handler_safeD(1) [OF I]] user_keeps user_stays accounts_stays
      community_owners stmt_safe_user_evolving [OF user_handler_safeD(1) [OF I]])+

end
