(* ===== verification/UserFacts.thy ===== *)
theory UserFacts
  imports UserService CommunityLists
begin

text \<open>
  What the user service promises. First what the pieces of \<open>SendDM\<close> do when they succeed, then
  the properties, each with an instance on a small database.
\<close>

section \<open>Pieces\<close>

lemma preserves_user_caches_db [preserves_intros]:
  "preserves (\<lambda>s. Q (db s)) (UserCache_Get P u)"
  "preserves (\<lambda>s. Q (db s)) (RelationCache_Get P a b)"
  "preserves (\<lambda>s. Q (db s)) (UserCache_Invalidate u)"
  unfolding UserCache_Get_def RelationCache_Get_def user_filler_def relation_filler_def
    UserCache_Invalidate_def Let_def
  by (intro preserves_intros preserves_Cache_Get preserves_user_reads preserves_modify
      calls_safe_db | simp)+

text \<open>The conversation of two users, whichever of them asks.\<close>

definition conversation_of :: "string \<Rightarrow> string \<Rightarrow> dm_conversation_row \<Rightarrow> bool" where
  "conversation_of u v c \<longleftrightarrow> {dc_user_a_id c, dc_user_b_id c} = {u, v}"

lemma sql_insert_conversation_InrD:
  "sql_insert_conversation P a b t d = Inr (xs, d') \<Longrightarrow>
   \<exists>u v c. uuid_in P a = Some u \<and> uuid_in P b = Some v \<and> u < v \<and> xs = [c] \<and>
     dc_user_a_id c = u \<and> dc_user_b_id c = v \<and> dc_id c = gen_uuid P (uuid_count d) \<and>
     d' = d\<lparr>dm_conversations := dm_conversations d @ [c], uuid_count := Suc (uuid_count d)\<rparr>"
  by (auto simp: sql_insert_conversation_def stmt_cases new_conversation_def split: if_splits)

lemma get_or_create_cases:
  assumes run: "run_state (repo_GetOrCreateConversation P a b) s = (Inr c, s')"
    and sb: "(small, big) = (if a > b then (b, a) else (a, b))"
  shows "(\<exists>t xs. sql_select_conversation P small big t (db s) = Inr (c # xs, db s')) \<or>
    (\<exists>t1 t2. sql_select_conversation P small big t1 (db s) = Inr ([], db s) \<and>
       sql_insert_conversation P small big t2 (db s) = Inr ([c], db s'))"
proof -
  obtain q s1 where q: "run_state (pg_query_row (sql_select_conversation P small big)) s = (q, s1)"
    by fastforce
  show ?thesis
  proof (cases q)
    case (Inr x)
    with q run sb have "x = c" "s' = s1"
      by (auto simp: repo_GetOrCreateConversation_def split: if_splits)
    with pg_query_row_InrD [OF q [unfolded Inr]]
    obtain t xs where "sql_select_conversation P small big t (db s) = Inr (c # xs, db s')" by auto
    then show ?thesis by blast
  next
    case (Inl e)
    with q run sb have e: "e = NoRows" and ins: "run_state (do {
        q \<leftarrow> pg_query_row (sql_insert_conversation P small big);
        ret (wrap_err ''create conversation'' q) }) s1 = (Inr c, s')"
      by (auto simp: repo_GetOrCreateConversation_def split: if_splits)
    from pg_query_row_NoRowsD [OF q [unfolded Inl e]] obtain t1 where
      t1: "sql_select_conversation P small big t1 (db s) = Inr ([], db s1)" by blast
    then have "db s1 = db s" by (rule reads_onlyD [OF sql_select_conversation_reads])
    moreover from query_row_wrapped_InrD [OF ins] obtain t2 xs where
      t2: "sql_insert_conversation P small big t2 (db s1) = Inr (c # xs, db s')" by blast
    moreover have "xs = []" using sql_insert_conversation_InrD [OF t2] by auto
    ultimately show ?thesis using t1 by auto
  qed
qed

lemma GetOrCreateConversation_InrD:
  assumes run: "run_state (repo_GetOrCreateConversation P a b) s = (Inr c, s')"
  shows "\<exists>u v. uuid_in P a = Some u \<and> uuid_in P b = Some v \<and> conversation_of u v c \<and>
    c \<in> set (dm_conversations (db s')) \<and> dm_messages (db s') = dm_messages (db s) \<and>
    next_dm_seq (db s') = next_dm_seq (db s)"
proof -
  obtain small big where sb: "(small, big) = (if a > b then (b, a) else (a, b))"
    by (metis surj_pair)
  have "\<exists>u v. uuid_in P small = Some u \<and> uuid_in P big = Some v \<and> dc_user_a_id c = u \<and>
      dc_user_b_id c = v \<and> c \<in> set (dm_conversations (db s')) \<and>
      dm_messages (db s') = dm_messages (db s) \<and> next_dm_seq (db s') = next_dm_seq (db s)"
    using get_or_create_cases [OF run sb]
  proof (elim disjE exE conjE)
    fix t xs assume "sql_select_conversation P small big t (db s) = Inr (c # xs, db s')"
    then show ?thesis by (auto simp: sql_select_conversation_def stmt_cases filter_eq_Cons_iff)
  next
    fix t1 t2 assume "sql_insert_conversation P small big t2 (db s) = Inr ([c], db s')"
    from sql_insert_conversation_InrD [OF this] show ?thesis by auto
  qed
  with sb show ?thesis by (auto simp: conversation_of_def split: if_splits)
qed

lemma sql_insert_dm_message_InrD:
  "sql_insert_dm_message P conv sender content t d = Inr (xs, d') \<Longrightarrow>
   \<exists>c u. uuid_in P conv = Some c \<and> uuid_in P sender = Some u \<and>
     c \<in> dc_id ` set (dm_conversations d) \<and> xs = [new_dm_message P c u content t d] \<and>
     d' = d\<lparr>dm_messages := dm_messages d @ [new_dm_message P c u content t d],
            next_dm_seq := next_dm_seq d + 1, uuid_count := Suc (uuid_count d)\<rparr>"
  by (auto simp: sql_insert_dm_message_def stmt_cases split: if_splits)

lemma RelationCache_Get_InrD:
  assumes "pg_env_ok P" and "user_svc_ok P s"
    and run: "run_state (RelationCache_Get P a b) s = (Inr q, s')"
  shows "user_svc_ok P s'" and "is_relation P a b q (db s)" and "db s' = db s"
proof -
  show "db s' = db s"
    by (rule preservesD [where I = "\<lambda>x. db x = db s", OF _ run refl]) (rule preserves_user_caches_db)
  with tripleD [OF triple_RelationCache_Get [OF assms(1)] run assms(2)]
  show "user_svc_ok P s'" "is_relation P a b q (db s)" by simp_all
qed

text \<open>The last steps of \<open>SendDM\<close> touch neither messages nor conversations.\<close>

lemma after_insert_keeps:
  "preserves (\<lambda>s. Q (dm_messages (db s)) (dm_conversations (db s)) (user_relations (db s)))
     (repo_InsertAttachments P atts :: (user_svc, go_error + unit) state)"
  "preserves (\<lambda>s. Q (dm_messages (db s)) (dm_conversations (db s)) (user_relations (db s)))
     (publishDMCreated m u v c content t q)"
proof -
  have "stmt_keeps (\<lambda>d. Q (dm_messages d) (dm_conversations d) (user_relations d))
      (sql_insert_attachment P a)" for a
    by (auto intro!: stmt_keepsI simp: sql_insert_attachment_def stmt_cases split: if_splits)
  then show "preserves (\<lambda>s. Q (dm_messages (db s)) (dm_conversations (db s)) (user_relations (db s)))
      (repo_InsertAttachments P atts :: (user_svc, go_error + unit) state)"
    by (intro preserves_repo_InsertAttachments stmt_safe_db [where Q = "\<lambda>d. Q (dm_messages d) (dm_conversations d) (user_relations d)"]
        calls_safe_db [where Q = "\<lambda>d. Q (dm_messages d) (dm_conversations d) (user_relations d)"])
  show "preserves (\<lambda>s. Q (dm_messages (db s)) (dm_conversations (db s)) (user_relations (db s)))
     (publishDMCreated m u v c content t q)"
    unfolding publishDMCreated_def Let_def
    by (intro preserves_intros preserves_nats_publish) (simp_all add: calls_safe_def)
qed

section \<open>An example\<close>

text \<open>Three users; \<open>ua\<close> and \<open>vb\<close> are friends of each other, \<open>wc\<close> has blocked \<open>ua\<close>.\<close>

definition demo_relation :: "string \<Rightarrow> string \<Rightarrow> string \<Rightarrow> relation_row" where
  "demo_relation u v ty =
     \<lparr>rel_user_id = u, rel_target_user_id = v, rel_type = ty, rel_created_at = 0\<rparr>"

definition demo_user_db :: database where
  "demo_user_db = demo_db\<lparr>user_relations :=
     [demo_relation ''ua'' ''vb'' ''friend'', demo_relation ''vb'' ''ua'' ''friend'',
      demo_relation ''wc'' ''ua'' ''blocked'']\<rparr>"

definition user_service_of :: "infra \<Rightarrow> user_svc" where
  "user_service_of e =
     infra.extend e \<lparr>userCache = NewUserCache 1000 [], relationCache = NewRelationCache 1000 []\<rparr>"

definition demo_user_start :: user_svc where
  "demo_user_start = user_service_of (demo_infra demo_user_db)"

definition demo_dm_sent :: user_svc where
  "demo_dm_sent =
     snd (run_state (SendDM demo_env ''vb'' ''ua'' ''hi'' [])
       (snd (run_state (SendDM demo_env ''ua'' ''vb'' '' hello '' []) demo_user_start)))"

lemma demo_user_svc_ok:
  "user_svc_ok demo_env demo_user_start" "user_svc_ok demo_env demo_dm_sent"
proof -
  have "user_db_ok demo_user_db"
    by (simp add: user_db_ok_def demo_user_db_def demo_db_ok)
       (simp add: relations_ok_def demo_relation_def rel_key_def has_user_def demo_db_def demo_user_def)
  then show start: "user_svc_ok demo_env demo_user_start"
    by (simp add: user_svc_ok_def demo_user_start_def user_service_of_def infra.extend_def
        demo_infra_def dm_ids_ok_def demo_user_db_def demo_db_def empty_db_def NewUserCache_def NewRelationCache_def new_cache_agrees)
  show "user_svc_ok demo_env demo_dm_sent"
    unfolding demo_dm_sent_def
    using preserves_user_handlers(4) [OF user_handler_safe_ok [OF demo_env_ok]] start
    by (simp add: preserves_def)
qed

section \<open>Sending\<close>

text \<open>What a successful \<open>SendDM\<close> went through; its last steps keep messages and conversations.\<close>

lemma SendDM_steps:
  assumes run: "run_state (SendDM P caller rTarget rContent files) s = (Inr pb, s')"
  obtains rel rel2 conv msg and s1 s2 s3 s4 :: user_svc where
    "run_state (RelationCache_Get P (trim_space rTarget) caller) s = (Inr rel, s1)" and
    "\<not> is_blocked rel" and
    "run_state (RelationCache_Get P caller (trim_space rTarget)) s1 = (Inr rel2, s2)" and
    "\<not> is_blocked rel2" and
    "run_state (repo_GetOrCreateConversation P caller (trim_space rTarget)) s2 = (Inr conv, s3)" and
    "run_state (repo_InsertDMMessage P (dc_id conv) caller (trim_space rContent)) s3 = (Inr msg, s4)" and
    "dm_messages (db s') = dm_messages (db s4)" and
    "dm_conversations (db s') = dm_conversations (db s4)" and "pb = pb_dm_of msg"
proof -
  let ?tail = "\<lambda>conv msg. do {
     _ \<leftarrow> (if files \<noteq> []
           then do { _ \<leftarrow> repo_InsertAttachments P (map (dm_attachment (dm_id msg)) files); ret () }
           else ret ());
     publishDMCreated (dm_id msg) caller (trim_space rTarget) (dc_id conv) (trim_space rContent)
       (unix (dm_created_at msg)) (dm_seq msg);
     ok (pb_dm_of msg)
     }"
  from run obtain rel rel2 conv msg s1 s2 s3 s4 where
    steps: "run_state (RelationCache_Get P (trim_space rTarget) caller) s = (Inr rel, s1)"
    "\<not> is_blocked rel"
    "run_state (RelationCache_Get P caller (trim_space rTarget)) s1 = (Inr rel2, s2)"
    "\<not> is_blocked rel2"
    "run_state (repo_GetOrCreateConversation P caller (trim_space rTarget)) s2 = (Inr conv, s3)"
    "run_state (repo_InsertDMMessage P (dc_id conv) caller (trim_space rContent)) s3 = (Inr msg, s4)" and
    tail: "run_state (?tail conv msg) s4 = (Inr pb, s')"
    unfolding SendDM_def authenticated_def Let_def by (elim handler_InrE) blast
  let ?Q = "\<lambda>m c. m = dm_messages (db s4) \<and> c = dm_conversations (db s4)"
  have "preserves (\<lambda>s. ?Q (dm_messages (db s)) (dm_conversations (db s))) (?tail conv msg)"
    by (intro preserves_intros after_insert_keeps [where Q = "\<lambda>m c _. ?Q m c"])
  from preservesD [OF this tail] have "?Q (dm_messages (db s')) (dm_conversations (db s'))" by simp
  moreover have "pb = pb_dm_of msg" using tail by (auto simp: ok_def split: prod.splits)
  ultimately show thesis using that [OF steps] by blast
qed

lemma dms_below:
  "user_svc_ok P s \<Longrightarrow> x \<in> set (dm_messages (db s)) \<Longrightarrow> dm_seq x < next_dm_seq (db s)"
  by (simp add: user_svc_ok_def user_db_ok_def db_ok_def dm_ok_def)

lemma conversation_of_distinct:
  "user_svc_ok P s \<Longrightarrow> c \<in> set (dm_conversations (db s)) \<Longrightarrow> conversation_of u v c \<Longrightarrow> u \<noteq> v"
  by (auto simp: user_svc_ok_def user_db_ok_def db_ok_def dm_ok_def conversation_of_def doubleton_eq_iff)

text \<open>C10: A direct message is only sent between two different users neither of whom has blocked
  the other. When \<open>SendDM\<close> succeeds, exactly one message was added: the trimmed content, from the
  caller, in the one conversation of the two, with a sequence number above all earlier ones; and
  it is what the response shows. (The relation cache never has a stale block: no handler changes
  a relation.)\<close>

theorem SendDM_result:
  assumes P: "pg_env_ok P" and inv: "user_svc_ok P s"
    and run: "run_state (SendDM P caller rTarget rContent files) s = (Inr pb, s')"
  shows "\<exists>u v conv m. uuid_in P caller = Some u \<and> uuid_in P (trim_space rTarget) = Some v \<and> u \<noteq> v \<and>
    \<not> is_blocked (relation_of (db s) v u) \<and> \<not> is_blocked (relation_of (db s) u v) \<and>
    conv \<in> set (dm_conversations (db s')) \<and> conversation_of u v conv \<and>
    dm_messages (db s') = dm_messages (db s) @ [m] \<and> (\<forall>x \<in> set (dm_messages (db s)). dm_seq x < dm_seq m) \<and>
    dm_conversation_id m = dc_id conv \<and> dm_sender_id m = u \<and> dm_content m = trim_space rContent \<and>
    pb = pb_dm_of m"
proof -
  from SendDM_steps [OF run] obtain rel rel2 conv msg and s1 s2 s3 s4 :: user_svc where
    r1: "run_state (RelationCache_Get P (trim_space rTarget) caller) s = (Inr rel, s1)" "\<not> is_blocked rel" and
    r2: "run_state (RelationCache_Get P caller (trim_space rTarget)) s1 = (Inr rel2, s2)" "\<not> is_blocked rel2" and
    conv: "run_state (repo_GetOrCreateConversation P caller (trim_space rTarget)) s2 = (Inr conv, s3)" and
    ins: "run_state (repo_InsertDMMessage P (dc_id conv) caller (trim_space rContent)) s3 = (Inr msg, s4)" and
    res: "dm_messages (db s') = dm_messages (db s4)" "dm_conversations (db s') = dm_conversations (db s4)"
      "pb = pb_dm_of msg" .
  note g1 = RelationCache_Get_InrD [OF P inv r1(1)]
  note g2 = RelationCache_Get_InrD [OF P g1(1) r2(1)]
  from GetOrCreateConversation_InrD [OF conv] g1(3) g2(3) obtain u v where
    uv: "uuid_in P caller = Some u" "uuid_in P (trim_space rTarget) = Some v" and
    c: "conversation_of u v conv" "conv \<in> set (dm_conversations (db s3))"
      "dm_messages (db s3) = dm_messages (db s)" "next_dm_seq (db s3) = next_dm_seq (db s)"
    by auto
  have inv3: "user_svc_ok P s3"
    by (rule preservesD [where I = "user_svc_ok P", OF preserves_repo_GetOrCreateConversation conv g2(1)])
       (intro stmt_safe_user_svc_ok P user_keeps user_stays)
  then have id: "uuid_in P (dc_id conv) = Some (dc_id conv)"
    using c(2) by (simp add: user_svc_ok_def dm_ids_ok_def)
  from query_row_wrapped_InrD [OF ins [unfolded repo_InsertDMMessage_def]] obtain t xs where
    "sql_insert_dm_message P (dc_id conv) caller (trim_space rContent) t (db s3) = Inr (msg # xs, db s4)"
    by blast
  from sql_insert_dm_message_InrD [OF this] id uv have
    m: "msg = new_dm_message P (dc_id conv) u (trim_space rContent) t (db s3)" and
    d4: "dm_messages (db s4) = dm_messages (db s) @ [msg]"
      "dm_conversations (db s4) = dm_conversations (db s3)"
    using c(3) by auto
  have "\<not> is_blocked (relation_of (db s) v u)" "\<not> is_blocked (relation_of (db s) u v)"
    using g1(2,3) g2(2) r1(2) r2(2) uv by (auto simp: is_relation_def)
  then show ?thesis
    using uv c m d4 res conversation_of_distinct [OF inv3 c(2,1)] dms_below [OF inv]
    by (intro exI [of _ u] exI [of _ v] exI [of _ conv] exI [of _ msg]) (simp add: new_dm_message_def)
qed

theorem SendDM_result_witness:
  "\<exists>pb s'. run_state (SendDM demo_env ''ua'' ''vb'' '' hello '' []) demo_user_start = (Inr pb, s') \<and>
     (\<exists>m. dm_messages (db s') = [m] \<and> dm_content m = ''hello'')"
proof -
  have "(case fst (run_state (SendDM demo_env ''ua'' ''vb'' '' hello '' []) demo_user_start) of
      Inl _ \<Rightarrow> False | Inr _ \<Rightarrow> True)" by code_simp
  then obtain pb s' where run:
    "run_state (SendDM demo_env ''ua'' ''vb'' '' hello '' []) demo_user_start = (Inr pb, s')"
    by (cases "run_state (SendDM demo_env ''ua'' ''vb'' '' hello '' []) demo_user_start")
       (auto split: sum.splits)
  have "dm_messages (db demo_user_start) = []" and "trim_space '' hello '' = ''hello''" by code_simp+
  with SendDM_result [OF demo_env_ok demo_user_svc_ok(1) run] run show ?thesis by auto
qed

section \<open>The tables\<close>

datatype user_request =
    ReqGetUser string
  | ReqUpdateProfile string string string string
  | ReqListFriends string "pagination_request option"
  | ReqSendDM string string string "string list"
  | ReqGetDMHistory string string "pagination_request option" int
  | ReqGetDMConversations string "pagination_request option"

fun serve_user :: "pg_env \<Rightarrow> user_request \<Rightarrow> (user_svc, unit) state" where
  "serve_user P (ReqGetUser u) = no_result (GetUser P u)"
| "serve_user P (ReqUpdateProfile u n a st) = no_result (UpdateProfile P u n a st)"
| "serve_user P (ReqListFriends u pg) = no_result (ListFriends P u pg)"
| "serve_user P (ReqSendDM u t c fs) = no_result (SendDM P u t c fs)"
| "serve_user P (ReqGetDMHistory u t pg since) = no_result (GetDMHistory P u t pg since)"
| "serve_user P (ReqGetDMConversations u pg) = no_result (GetDMConversations P u pg)"

lemma preserves_serve_user: "pg_env_ok P \<Longrightarrow> preserves (user_svc_ok P) (serve_user P req)"
  by (cases req)
     (auto simp: no_result_def intro!: preserves_bind preserves_return
       preserves_user_handlers [OF user_handler_safe_ok])

text \<open>C26: Whatever requests the user service serves, with any failures of the database in between,
  the tables keep their integrity (keys, references, one conversation and one relation per pair,
  increasing sequence numbers), and its caches stay right: a cached relation is the row, a cached
  profile belongs to a user under the identifier it was asked for.\<close>

theorem user_integrity:
  assumes "pg_env_ok P" and "user_svc_ok P s"
  shows "user_svc_ok P (snd (run_state (for_each (serve_user P) reqs) s))"
  using preserves_for_each [OF preserves_serve_user [OF assms(1)], of id reqs] assms(2)
  by (simp add: preserves_def)

theorem user_integrity_witness:
  "user_svc_ok demo_env (snd (run_state (for_each (serve_user demo_env)
     [ReqUpdateProfile ''ua'' ''n'' [] [], ReqGetUser ''ua'', ReqSendDM ''ua'' ''vb'' ''x'' []])
     demo_user_start))"
  by (rule user_integrity [OF demo_env_ok demo_user_svc_ok(1)])

section \<open>Conversations\<close>

text \<open>A conversation is found again from either side: when \<open>GetOrCreateConversation\<close> of \<open>a\<close>
  and \<open>b\<close> returned a conversation, the call for \<open>b\<close> and \<open>a\<close> (or again for \<open>a\<close> and \<open>b\<close>) returns the
  same one and creates nothing.\<close>

theorem conversation_found_again:
  fixes s s1 :: "'z infra_scheme"
  assumes run: "run_state (repo_GetOrCreateConversation P a b) s = (Inr c, s1)"
    and calm: "outcomes s1 = []"
  shows "run_state (repo_GetOrCreateConversation P b a) s1 = (Inr c, s1) \<and>
    run_state (repo_GetOrCreateConversation P a b) s1 = (Inr c, s1)"
proof -
  obtain small big where sb: "(small, big) = (if a > b then (b, a) else (a, b))"
    by (metis surj_pair)
  have "\<exists>xs. sql_select_conversation P small big (now s1) (db s1) = Inr (c # xs, db s1)"
    using get_or_create_cases [OF run sb]
  proof (elim disjE exE conjE)
    fix t xs assume "sql_select_conversation P small big t (db s) = Inr (c # xs, db s1)"
    then show ?thesis by (auto simp: sql_select_conversation_def stmt_cases)
  next
    fix t1 t2 assume none: "sql_select_conversation P small big t1 (db s) = Inr ([], db s)"
      and "sql_insert_conversation P small big t2 (db s) = Inr ([c], db s1)"
    from sql_insert_conversation_InrD [OF this(2)] none show ?thesis
      by (auto simp: sql_select_conversation_def stmt_cases)
  qed
  then have "run_state (repo_GetOrCreateConversation P small big) s1 = (Inr c, s1)"
    and "run_state (repo_GetOrCreateConversation P big small) s1 = (Inr c, s1)"
    using sb calm
    by (auto simp: repo_GetOrCreateConversation_def run_pg_query_row_calm scan_one_def split: if_splits)
  with sb show ?thesis by (auto split: if_splits)
qed

theorem conversation_found_again_witness:
  "\<exists>c s1. run_state (repo_GetOrCreateConversation demo_env ''vb'' ''ua'') demo_user_start = (Inr c, s1) \<and>
     run_state (repo_GetOrCreateConversation demo_env ''ua'' ''vb'') s1 = (Inr c, s1)"
proof -
  let ?r = "run_state (repo_GetOrCreateConversation demo_env ''vb'' ''ua'') demo_user_start"
  have "(case fst ?r of Inl _ \<Rightarrow> False | Inr _ \<Rightarrow> True) \<and> outcomes (snd ?r) = []" by code_simp
  then obtain c s1 where run: "?r = (Inr c, s1)" and "outcomes s1 = []"
    by (cases ?r) (auto split: sum.splits)
  with conversation_found_again [OF run] show ?thesis by blast
qed

text \<open>A profile that was read is the row of the user.\<close>

lemma profile_row_unique:
  assumes "user_db_ok (db s)" and "run_state (repo_GetUserByID P raw) s = (Inr row, s1)"
    and "db s2 = db s" and "run_state (repo_GetUserByID P raw) s2 = (Inr row', s3)"
  shows "row' = row"
proof -
  from repo_GetUserByID_InrD [OF assms(2)] repo_GetUserByID_InrD [OF assms(4)] assms(3)
  obtain u x y where "x \<in> set (users (db s))" "y \<in> set (users (db s))" "u_id x = u" "u_id y = u"
    and rows: "row = user_row_of x" "row' = user_row_of y" by auto
  moreover have "distinct (map u_id (users (db s)))"
    using assms(1) by (simp add: user_db_ok_def db_ok_def keys_ok_def)
  ultimately have "x = y" using distinct_map_key_eq by metis
  with rows show ?thesis by simp
qed

lemma UpdateProfile_steps:
  assumes run: "run_state (UpdateProfile P caller rName rUrl rStatus) s = (Inr pb, s')"
  obtains user and s1 s2 :: user_svc where
    "run_state (repo_UpdateUserProfile P caller (trim_space rName) (trim_space rUrl) (trim_space rStatus)) s
       = (Inr (), s1)" and
    "s2 = put_userCache (Cache_Remove (user_key caller) (userCache s1)) s1" and
    "run_state (repo_GetUserByID P caller) s2 = (Inr user, s')" and "pb = pb_user_of user"
  using run unfolding UpdateProfile_def authenticated_def UserCache_Invalidate_def
  by (elim handler_InrE run_bindE) (auto elim!: handler_InrE)

lemma sql_update_user_row:
  assumes "sql_update_user P caller n a st t d = Inr (y, d')" and u: "uuid_in P caller = Some u"
    and "x \<in> set (users d')" and x: "u_id x = u"
  shows "u_nickname x = n \<and> u_avatar_url x = a \<and> u_status_message x = st"
proof -
  let ?upd = "\<lambda>r. r\<lparr>u_nickname := n, u_avatar_url := a, u_status_message := st, u_updated_at := t\<rparr>"
  have "users d' = map (\<lambda>r. if u_id r = u then ?upd r else r) (users d)"
    using assms(1) u by (auto simp: sql_update_user_def stmt_cases)
  with assms(3) have "x \<in> (\<lambda>r. if u_id r = u then ?upd r else r) ` set (users d)" by simp
  then obtain r where "x = (if u_id r = u then ?upd r else r)" by (rule imageE)
  with x show ?thesis by (cases "u_id r = u") simp_all
qed

text \<open>After a successful \<open>UpdateProfile\<close> the instance that served it shows the new profile: a
  \<open>GetUser\<close> for the caller returns the trimmed new fields and what the update returned, whatever
  was cached before (the identifier being spelled the same way).\<close>

theorem profile_read_back:
  assumes P: "pg_env_ok P" and inv: "user_svc_ok P s"
    and upd: "run_state (UpdateProfile P caller rName rUrl rStatus) s = (Inr pb, s1)"
    and get: "run_state (GetUser P rUser) s1 = (Inr pb', s2)" and same: "trim_space rUser = caller"
  shows "pb' = pb \<and> uuid_in P caller = Some (pbu_id pb) \<and> pbu_nickname pb = trim_space rName \<and>
    pbu_avatar_url pb = trim_space rUrl \<and> pbu_status_message pb = trim_space rStatus"
proof -
  from UpdateProfile_steps [OF upd] obtain user and sa sb :: user_svc where
    store: "run_state (repo_UpdateUserProfile P caller (trim_space rName) (trim_space rUrl)
       (trim_space rStatus)) s = (Inr (), sa)" and
    sb: "sb = put_userCache (Cache_Remove (user_key caller) (userCache sa)) sa" and
    read: "run_state (repo_GetUserByID P caller) sb = (Inr user, s1)" and pb: "pb = pb_user_of user" .
  have inva: "user_svc_ok P sa"
    by (rule preservesD [where I = "user_svc_ok P", OF preserves_repo_UpdateUserProfile store inv])
       (intro stmt_safe_user_svc_ok P user_keeps user_stays)
  from exec_wrapped_InrD [OF store [unfolded repo_UpdateUserProfile_def]] obtain t where
    "sql_update_user P caller (trim_space rName) (trim_space rUrl) (trim_space rStatus) t (db s)
       = Inr ((), db sa)" by blast
  with repo_GetUserByID_InrD [OF read] sb pb sql_update_user_row
  have fields: "uuid_in P caller = Some (pbu_id pb) \<and> pbu_nickname pb = trim_space rName \<and>
      pbu_avatar_url pb = trim_space rUrl \<and> pbu_status_message pb = trim_space rStatus"
    by (fastforce simp: pb_user_of_def user_row_of_def)
  have "preserves (\<lambda>s. userCache s = userCache sb) (repo_GetUserByID P caller)"
    by (intro preserves_user_reads) (simp add: calls_safe_def)
  from preservesD [OF this read] have cache: "userCache s1 = userCache sb" by simp
  have lru: "lru_inv (lru (userCache sa))" using inva by (simp add: user_svc_ok_def lru.agrees_def)
  have "lru_inv (lru (userCache s1))" and "lru_peek (lru (userCache s1)) (user_key caller) = None"
    unfolding cache sb
    by (simp_all add: put_userCache_def Cache_Remove_def lru.inv_remove [OF lru] lru.remove_peek [OF lru])
  moreover from get same obtain row j and s3 :: user_svc where
    get': "run_state (Cache_Get userCache put_userCache (Some (user_filler P)) (user_key caller)) s1 = (Inr j, s3)"
    and j: "UnmarshalUser j = Inr row" "pb' = pb_user_of row"
    unfolding GetUser_def UserCache_Get_def Let_def
    by (auto elim!: handler_InrE split: prod.splits sum.splits)
  ultimately obtain c1 c2 s4 where fill: "run_state (user_filler P (user_key caller))
      (put_userCache c2 (put_userCache c1 s1)) = (Inr j, s4)"
    using Cache_Get_miss [of userCache put_userCache s1 "user_key caller" "user_filler P" j s3]
    by (auto simp: put_userCache_def)
  then have "run_state (repo_GetUserByID P caller) (put_userCache c2 (put_userCache c1 s1)) = (Inr row, s4)"
    using j(1) by (auto simp: user_filler_def split: prod.splits sum.splits)
  moreover have "db s1 = db sb" using repo_GetUserByID_InrD [OF read] by blast
  moreover have "user_db_ok (db sb)" using inva sb by (simp add: user_svc_ok_def)
  ultimately have "row = user" using profile_row_unique [OF _ read] by (metis user_put_simps(1))
  with fields j pb show ?thesis by simp
qed

theorem profile_read_back_witness:
  "\<exists>pb s1 s2. run_state (UpdateProfile demo_env ''ua'' '' new '' [] ''busy'') demo_user_start = (Inr pb, s1) \<and>
     run_state (GetUser demo_env '' ua'') s1 = (Inr pb, s2) \<and> pbu_nickname pb = ''new''"
proof -
  let ?u = "run_state (UpdateProfile demo_env ''ua'' '' new '' [] ''busy'') demo_user_start"
  let ?g = "run_state (GetUser demo_env '' ua'') (snd ?u)"
  have "(case fst ?u of Inl _ \<Rightarrow> False | Inr _ \<Rightarrow> True) \<and> (case fst ?g of Inl _ \<Rightarrow> False | Inr _ \<Rightarrow> True)"
    by code_simp
  then obtain pb s1 pb' s2 where upd: "?u = (Inr pb, s1)" and get: "run_state (GetUser demo_env '' ua'') s1 = (Inr pb', s2)"
    by (cases ?u; cases ?g) (auto split: sum.splits)
  have "trim_space '' ua'' = ''ua''" and "trim_space '' new '' = ''new''" by code_simp+
  with profile_read_back [OF demo_env_ok demo_user_svc_ok(1) upd get] upd get show ?thesis by auto
qed

section \<open>Paging\<close>

text \<open>The history of a conversation as a keyset pagination.\<close>

definition dm_tables_valid :: "pg_env \<times> database \<times> string \<Rightarrow> bool" where
  "dm_tables_valid = (\<lambda>(P, d, _). db_ok d \<and> next_dm_seq d \<le> 2 ^ 63)"

lemma dms_of_sorted:
  assumes "db_ok d"
  shows "sorted_wrt (<) (map dm_seq (dms_of d c))"
proof -
  have "sorted_wrt (<) (map dm_seq (filter (\<lambda>m. dm_conversation_id m = c) (dm_messages d)))"
    using assms by (intro sorted_wrt_map_filter) (simp add: db_ok_def dm_ok_def)
  then show ?thesis
    unfolding dms_of_def by (intro sorted_sort_key_distinct) (simp add: strict_sorted_iff)
qed

lemma dm_seq_range:
  assumes "dm_tables_valid (P, d, c)" and "m \<in> set (dms_of d c)"
  shows "0 < dm_seq m" and "dm_seq m < 2 ^ 63"
  using assms by (auto simp: dm_tables_valid_def db_ok_def dm_ok_def dms_of_def
      dest!: bspec [of "set (dm_messages d)" _ m])

interpretation dm_pages: keyset dm_tables_valid "\<lambda>(P, d, c). rev (dms_of d c)"
  "\<lambda>m. format_int (dm_seq m)" "\<lambda>_ cursor m. seq_before cursor (dm_seq m)"
proof unfold_locales
  fix x r xs ys assume v: "dm_tables_valid x"
    and rows: "(case x of (P, d, c) \<Rightarrow> rev (dms_of d c)) = xs @ r # ys"
  obtain P d c where x: "x = (P, d, c)" by (cases x)
  with rows have rev: "dms_of d c = rev (xs @ r # ys)" by (metis case_prod_conv rev_rev_ident)
  have "sorted_wrt (<) (map dm_seq (rev (xs @ r # ys)))"
    using dms_of_sorted [of d c] v x rev by (simp add: dm_tables_valid_def)
  from filter_before_sorted [OF this]
  show "filter (\<lambda>m. seq_before (format_int (dm_seq r)) (dm_seq m))
      (case x of (P, d, c) \<Rightarrow> rev (dms_of d c)) = ys"
    unfolding rows using dm_seq_range [of P d c r] v x rev by (simp add: seq_before_format)
qed (simp_all add: seq_before_def)

lemma run_GetDMHistory:
  assumes "outcomes s = []" and "uuid_in P raw = Some c"
    and "cursor = [] \<or> (\<exists>k. parse_int64 cursor = Inr k)"
  shows "run_state (repo_GetDMHistory P raw limit cursor) s =
    (Inr (dm_pages.page (P, db s, c) limit cursor), s)"
proof (cases "cursor = []")
  case True
  then show ?thesis
    unfolding dm_pages.page_def using assms
    by (simp add: repo_GetDMHistory_def run_pg_query_calm sql_dm_history_def uuid_param_def
        before_def seq_before_def)
next
  case False
  then obtain k where "parse_int64 cursor = Inr k" using assms(3) by auto
  then show ?thesis
    unfolding dm_pages.page_def using assms False
    by (simp add: repo_GetDMHistory_def run_pg_query_calm sql_dm_history_def uuid_param_def
        before_def seq_before_def)
qed

text \<open>Scrolling back through a conversation with any page size and following the cursors gives
  every direct message of it exactly once, newest first.\<close>

theorem dm_history_complete:
  assumes ok: "db_ok (db s)" and bound: "next_dm_seq (db s) \<le> 2 ^ 63" and calm: "outcomes s = []"
    and raw: "uuid_in P raw = Some c" and limit: "0 < limit" and fuel: "length (dms_of (db s) c) < n"
  shows "run_state (follow_pages n (repo_GetDMHistory P raw limit) []) s =
    (Inr (rev (dms_of (db s) c)), s)"
proof -
  have valid: "dm_tables_valid (P, db s, c)" using ok bound by (simp add: dm_tables_valid_def)
  have "run_state (repo_GetDMHistory P raw limit cur) s =
      (Inr (dm_pages.page (P, db s, c) limit cur), s)"
    if "cur = [] \<or> cur \<in> (\<lambda>m. format_int (dm_seq m)) ` set (rev (dms_of (db s) c))" for cur
  proof (rule run_GetDMHistory [OF calm raw])
    show "cur = [] \<or> (\<exists>k. parse_int64 cur = Inr k)"
      using that dm_seq_range [OF valid] by (force intro: parse_int64_format_int)
  qed
  then show ?thesis
    using dm_pages.follow_pages_all [OF valid limit, where n = n and s = s and
        f = "repo_GetDMHistory P raw limit"] fuel by simp
qed

theorem dm_history_complete_witness:
  "run_state (follow_pages 3 (repo_GetDMHistory demo_env ''a'' 1) []) demo_dm_sent =
     (Inr (rev (dms_of (db demo_dm_sent) ''a'')), demo_dm_sent) \<and>
   map dm_content (rev (dms_of (db demo_dm_sent) ''a'')) = [''hi'', ''hello'']"
proof (rule conjI [OF dm_history_complete])
  show "db_ok (db demo_dm_sent)"
    using demo_user_svc_ok(2) by (simp add: user_svc_ok_def user_db_ok_def)
  have "next_dm_seq (db demo_dm_sent) = 3" by code_simp
  then show "next_dm_seq (db demo_dm_sent) \<le> 2 ^ 63" by simp
  show "outcomes demo_dm_sent = []" by code_simp
  show "uuid_in demo_env ''a'' = Some ''a''" by code_simp
  show "length (dms_of (db demo_dm_sent) ''a'') < 3" by code_simp
  show "map dm_content (rev (dms_of (db demo_dm_sent) ''a'')) = [''hi'', ''hello'']" by code_simp
qed simp

text \<open>
  The list of conversations: the cursor is the creation time of the first row that is not shown,
  and the next page asks for strictly older ones, so that row is lost; and where the caller is
  \<open>user_a\<close> the cursor is not looked at (\<open>AND\<close> binds tighter than \<open>OR\<close>).
\<close>

definition demo_conversation :: "string \<Rightarrow> string \<Rightarrow> string \<Rightarrow> int \<Rightarrow> dm_conversation_row" where
  "demo_conversation i a b t =
     \<lparr>dc_id = i, dc_user_a_id = a, dc_user_b_id = b, dc_created_at = t\<rparr>"

definition demo_conversations :: user_svc where
  "demo_conversations = user_service_of (demo_infra (demo_db\<lparr>dm_conversations :=
     [demo_conversation ''c1'' ''ua'' ''vb'' 1, demo_conversation ''c2'' ''vb'' ''wc'' 2,
      demo_conversation ''c3'' ''ua'' ''wc'' 3]\<rparr>))"

lemma run_GetDMConversations_state:
  "outcomes s = [] \<Longrightarrow> snd (run_state (repo_GetDMConversations P u limit cursor) s) = s"
  by (simp add: repo_GetDMConversations_def run_pg_query_calm split: sum.split)

text \<open>C28: The paging of \<open>GetDMConversations\<close> is wrong in both ways. \<open>wc\<close>, who has two conversations
  and asks for one per page, never sees the second; and \<open>ua\<close>, who has two as \<open>user_a\<close>, is shown the
  newest on every page and never reaches the end.\<close>

theorem conversation_pages_broken:
  "run_state (follow_pages n (repo_GetDMConversations demo_env ''wc'' 1) []) demo_conversations =
     (if n = 0 then (Inl (Errorf ''out of pages''), demo_conversations)
      else if n = 1 then (Inl (Errorf ''out of pages''), demo_conversations)
      else (Inr [demo_conversation ''c3'' ''ua'' ''wc'' 3], demo_conversations)) \<and>
   fst (run_state (follow_pages n (repo_GetDMConversations demo_env ''ua'' 1) []) demo_conversations) =
     Inl (Errorf ''out of pages'')"
proof (cases n)
  case 0
  then show ?thesis by simp
next
  case (Suc k)
  let ?wc = "repo_GetDMConversations demo_env ''wc'' 1" and ?ua = "repo_GetDMConversations demo_env ''ua'' 1"
  let ?c3 = "demo_conversation ''c3'' ''ua'' ''wc'' 3"
  have calm: "outcomes demo_conversations = []" by code_simp
  have run: "run_state (repo_GetDMConversations P u l c) demo_conversations = (x, demo_conversations)"
    if "fst (run_state (repo_GetDMConversations P u l c) demo_conversations) = x" for P u l c x
    using run_GetDMConversations_state [OF calm] that by (metis prod.collapse)
  have wc: "run_state (?wc []) demo_conversations = (Inr ([?c3], ''2''), demo_conversations)"
    "run_state (?wc ''2'') demo_conversations = (Inr ([], []), demo_conversations)"
    by (rule run, code_simp)+
  have ua: "run_state (?ua []) demo_conversations = (Inr ([?c3], ''1''), demo_conversations)"
    "run_state (?ua ''1'') demo_conversations = (Inr ([?c3], ''1''), demo_conversations)"
    by (rule run, code_simp)+
  have "run_state (follow_pages m ?ua ''1'') demo_conversations =
      (Inl (Errorf ''out of pages''), demo_conversations)" for m
    by (induction m) (simp_all add: ua)
  then show ?thesis using Suc wc ua by (cases k) simp_all
qed

end
