(* ===== verification/Redis.thy ===== *)
theory Redis
  imports Postgres
begin

text \<open>
  What the services use of Redis: \<open>GET\<close>, \<open>EXISTS\<close>, \<open>SET\<close> with an expiry, \<open>DEL\<close>, \<open>MGET\<close> and a pipeline of
  \<open>GET\<close>s. A key that has expired is absent; \<open>SET\<close> without an expiry is not used. Every call
  consumes one outcome, as a statement does.
\<close>

definition live_key :: "'z infra_scheme \<Rightarrow> string \<Rightarrow> string option" where
  "live_key s key =
     (case redis s key of
        None \<Rightarrow> None
      | Some (v, expires) \<Rightarrow> if now s < expires then Some v else None)"

definition get_result :: "'z infra_scheme \<Rightarrow> string \<Rightarrow> go_error + string" where
  "get_result s key = (case live_key s key of None \<Rightarrow> Inl RedisNil | Some v \<Rightarrow> Inr v)"

definition redis_get :: "string \<Rightarrow> ('z infra_scheme, go_error + string) state" where
  "redis_get key = do {
     o1 \<leftarrow> next_outcome;
     s \<leftarrow> State_Monad.get;
     ret (if o1 = Done then get_result s key else Inl RedisFault)
   }"

text \<open>\<open>EXISTS\<close> of one key: the number of keys that are there.\<close>

definition redis_exists :: "string \<Rightarrow> ('z infra_scheme, go_error + int) state" where
  "redis_exists key = do {
     o1 \<leftarrow> next_outcome;
     s \<leftarrow> State_Monad.get;
     ret (if o1 = Done then Inr (if live_key s key = None then 0 else 1) else Inl RedisFault)
   }"

definition redis_set :: "string \<Rightarrow> string \<Rightarrow> int \<Rightarrow> ('z infra_scheme, go_error + unit) state" where
  "redis_set key v ttl = do {
     o1 \<leftarrow> next_outcome;
     (if o1 = Done \<or> o1 = Lost
      then modify (\<lambda>s. s\<lparr>redis := (redis s)(key \<mapsto> (v, now s + ttl))\<rparr>) else ret ());
     ret (if o1 = Done then Inr () else Inl RedisFault)
   }"

definition redis_del :: "string \<Rightarrow> ('z infra_scheme, go_error + unit) state" where
  "redis_del key = do {
     o1 \<leftarrow> next_outcome;
     (if o1 = Done \<or> o1 = Lost
      then modify (\<lambda>s. s\<lparr>redis := (redis s)(key := None)\<rparr>) else ret ());
     ret (if o1 = Done then Inr () else Inl RedisFault)
   }"

definition redis_mget ::
  "string list \<Rightarrow> ('z infra_scheme, go_error + string option list) state" where
  "redis_mget keys = do {
     o1 \<leftarrow> next_outcome;
     s \<leftarrow> State_Monad.get;
     ret (if o1 = Done then Inr (map (live_key s) keys) else Inl RedisFault)
   }"

text \<open>A pipeline may break off: the commands after that have an error each.\<close>

definition redis_pipeline_get ::
  "string list \<Rightarrow> ('z infra_scheme, (go_error + string) list) state" where
  "redis_pipeline_get keys = do {
     o1 \<leftarrow> next_outcome;
     s \<leftarrow> State_Monad.get;
     let answered = (case o1 of Done \<Rightarrow> length keys | Cut n \<Rightarrow> n | _ \<Rightarrow> 0);
     ret (map (get_result s) (take answered keys) @
          map (\<lambda>_. Inl RedisFault) (drop answered keys))
   }"

lemmas redis_defs = redis_get_def redis_exists_def redis_set_def redis_del_def redis_mget_def redis_pipeline_get_def

lemma keeps_db_redis [preserves_intros]:
  "keeps db (redis_get key)" "keeps db (redis_set key v ttl)" "keeps db (redis_del key)"
  "keeps db (redis_mget keys)" "keeps db (redis_pipeline_get keys)"
  "keeps db (redis_exists key)"
  unfolding redis_defs Let_def
  by (auto simp: keeps_def next_outcome_def split: list.split prod.split)

lemma preserves_get [preserves_intros]: "preserves I State_Monad.get"
  by (simp add: preserves_def State_Monad.get_def)

lemma preserves_redis_reads [preserves_intros]:
  "calls_safe I \<Longrightarrow> preserves I (redis_get key)" "calls_safe I \<Longrightarrow> preserves I (redis_exists key)"
  "calls_safe I \<Longrightarrow> preserves I (redis_mget keys)"
  "calls_safe I \<Longrightarrow> preserves I (redis_pipeline_get keys)"
  unfolding redis_defs Let_def by (intro preserves_intros preserves_next_outcome; assumption)+

lemma run_redis_calm [run_simps]:
  assumes "outcomes s = []"
  shows "run_state (redis_get key) s = (get_result s key, s)"
    and "run_state (redis_exists key) s = (Inr (if live_key s key = None then 0 else 1), s)"
    and "run_state (redis_set key v ttl) s = (Inr (), s\<lparr>redis := (redis s)(key \<mapsto> (v, now s + ttl))\<rparr>)"
    and "run_state (redis_del key) s = (Inr (), s\<lparr>redis := (redis s)(key := None)\<rparr>)"
    and "run_state (redis_mget keys) s = (Inr (map (live_key s) keys), s)"
    and "run_state (redis_pipeline_get keys) s = (map (get_result s) keys, s)"
  using assms by (simp_all add: redis_defs run_next_outcome_calm State_Monad.get_def)

end
