(* ===== verification/NotifyStore.thy ===== *)
theory NotifyStore
  imports CommunityRepo
begin

text \<open>
  \<open>backend/services/notify-service/store.go\<close>: read cursors and what is unread. A cursor is the
  sequence number up to which a user has read a channel or a conversation; a missing row counts
  as 0. The store marks everything read (the cursor moves to the newest message) or advances the
  cursor to a message the user has sent; unread is what has a larger sequence number.

  Both kinds of cursor are instances of one contract, the locale \<open>cursors\<close>: moving a cursor takes
  the maximum and leaves the others alone. What follows (cursors never go back, moving twice is
  moving once, the order of moves does not matter) is proved there once.
\<close>

section \<open>Rows\<close>

record unread_channel =
  uc_channel_id :: string
  uc_community_id :: string
  uc_count :: "32 word"

record unread_dm =
  ud_conversation_id :: string
  ud_peer_id :: string
  ud_count :: "32 word"

definition cr_key :: "channel_read_row \<Rightarrow> string \<times> string" where
  "cr_key r = (cr_user_id r, cr_channel_id r)"

definition dr_key :: "dm_read_row \<Rightarrow> string \<times> string" where
  "dr_key r = (dr_user_id r, dr_conversation_id r)"

text \<open>\<open>COALESCE(max(seq), 0)\<close>, and the cursor with its default.\<close>

definition max_seq :: "int list \<Rightarrow> int" where
  "max_seq qs = (case qs of [] \<Rightarrow> 0 | q # rest \<Rightarrow> fold max rest q)"

definition channel_cursor :: "database \<Rightarrow> string \<Rightarrow> string \<Rightarrow> int" where
  "channel_cursor d u c =
     (case find (\<lambda>r. cr_key r = (u, c)) (channel_read_state d) of
        None \<Rightarrow> 0 | Some r \<Rightarrow> cr_last_read_seq r)"

definition dm_cursor :: "database \<Rightarrow> string \<Rightarrow> string \<Rightarrow> int" where
  "dm_cursor d u c =
     (case find (\<lambda>r. dr_key r = (u, c)) (dm_read_state d) of
        None \<Rightarrow> 0 | Some r \<Rightarrow> dr_last_read_seq r)"

section \<open>Moving a cursor\<close>

text \<open>\<open>INSERT ... ON CONFLICT DO UPDATE SET last_read_seq = GREATEST(...)\<close>.\<close>

definition advance_channel :: "string \<Rightarrow> string \<Rightarrow> int \<Rightarrow> database \<Rightarrow> database" where
  "advance_channel u c q d =
     d\<lparr>channel_read_state :=
       upsert cr_key (\<lambda>r. r\<lparr>cr_last_read_seq := max (cr_last_read_seq r) q\<rparr>)
         \<lparr>cr_user_id = u, cr_channel_id = c, cr_last_read_seq = q\<rparr> (channel_read_state d)\<rparr>"

definition advance_dm :: "string \<Rightarrow> string \<Rightarrow> int \<Rightarrow> database \<Rightarrow> database" where
  "advance_dm u c q d =
     d\<lparr>dm_read_state :=
       upsert dr_key (\<lambda>r. r\<lparr>dr_last_read_seq := max (dr_last_read_seq r) q\<rparr>)
         \<lparr>dr_user_id = u, dr_conversation_id = c, dr_last_read_seq = q\<rparr> (dm_read_state d)\<rparr>"

definition put_channel_cursor :: "string \<Rightarrow> string \<Rightarrow> int \<Rightarrow> database \<Rightarrow> pg_cause + (unit \<times> database)" where
  "put_channel_cursor u c q d =
     (if (u, c) \<notin> cr_key ` set (channel_read_state d) \<and> (\<not> has_user d u \<or> \<not> has_channel d c)
      then Inl ForeignKeyViolation else Inr ((), advance_channel u c q d))"

definition put_dm_cursor :: "string \<Rightarrow> string \<Rightarrow> int \<Rightarrow> database \<Rightarrow> pg_cause + (unit \<times> database)" where
  "put_dm_cursor u c q d =
     (if (u, c) \<notin> dr_key ` set (dm_read_state d) \<and>
         (\<not> has_user d u \<or> c \<notin> dc_id ` set (dm_conversations d))
      then Inl ForeignKeyViolation else Inr ((), advance_dm u c q d))"

definition sql_mark_channel_read :: "pg_env \<Rightarrow> string \<Rightarrow> string \<Rightarrow> unit stmt" where
  "sql_mark_channel_read P userID channelID t d =
     uuid_param P userID (\<lambda>u. uuid_param P channelID (\<lambda>c.
       put_channel_cursor u c
         (max_seq (map cm_seq (filter (\<lambda>m. cm_channel_id m = c) (channel_messages d)))) d))"

definition sql_mark_dm_read :: "pg_env \<Rightarrow> string \<Rightarrow> string \<Rightarrow> unit stmt" where
  "sql_mark_dm_read P userID convID t d =
     uuid_param P userID (\<lambda>u. uuid_param P convID (\<lambda>c.
       put_dm_cursor u c
         (max_seq (map dm_seq (filter (\<lambda>m. dm_conversation_id m = c) (dm_messages d)))) d))"

definition sql_advance_channel_read :: "pg_env \<Rightarrow> string \<Rightarrow> string \<Rightarrow> int \<Rightarrow> unit stmt" where
  "sql_advance_channel_read P userID channelID seq t d =
     uuid_param P userID (\<lambda>u. uuid_param P channelID (\<lambda>c. put_channel_cursor u c seq d))"

definition sql_advance_dm_read :: "pg_env \<Rightarrow> string \<Rightarrow> string \<Rightarrow> int \<Rightarrow> unit stmt" where
  "sql_advance_dm_read P userID convID seq t d =
     uuid_param P userID (\<lambda>u. uuid_param P convID (\<lambda>c. put_dm_cursor u c seq d))"

definition store_MarkChannelRead ::
  "pg_env \<Rightarrow> string \<Rightarrow> string \<Rightarrow> ('z infra_scheme, go_error + unit) state" where
  "store_MarkChannelRead P userID channelID = do {
     r \<leftarrow> pg_exec (sql_mark_channel_read P userID channelID);
     ret (wrap_err ''mark channel read'' r)
   }"

definition store_MarkDMRead ::
  "pg_env \<Rightarrow> string \<Rightarrow> string \<Rightarrow> ('z infra_scheme, go_error + unit) state" where
  "store_MarkDMRead P userID convID = do {
     r \<leftarrow> pg_exec (sql_mark_dm_read P userID convID);
     ret (wrap_err ''mark DM read'' r)
   }"

definition store_AdvanceChannelRead ::
  "pg_env \<Rightarrow> string \<Rightarrow> string \<Rightarrow> int \<Rightarrow> ('z infra_scheme, go_error + unit) state" where
  "store_AdvanceChannelRead P userID channelID seq = do {
     r \<leftarrow> pg_exec (sql_advance_channel_read P userID channelID seq);
     ret (wrap_err ''advance channel read'' r)
   }"

definition store_AdvanceDMRead ::
  "pg_env \<Rightarrow> string \<Rightarrow> string \<Rightarrow> int \<Rightarrow> ('z infra_scheme, go_error + unit) state" where
  "store_AdvanceDMRead P userID convID seq = do {
     r \<leftarrow> pg_exec (sql_advance_dm_read P userID convID seq);
     ret (wrap_err ''advance DM read'' r)
   }"

section \<open>What is unread\<close>

definition unread_in_channel :: "database \<Rightarrow> string \<Rightarrow> string \<Rightarrow> nat" where
  "unread_in_channel d u c =
     length (filter (\<lambda>m. cm_channel_id m = c \<and> channel_cursor d u c < cm_seq m) (channel_messages d))"

definition unread_in_dm :: "database \<Rightarrow> string \<Rightarrow> string \<Rightarrow> nat" where
  "unread_in_dm d u c =
     length (filter (\<lambda>m. dm_conversation_id m = c \<and> dm_cursor d u c < dm_seq m) (dm_messages d))"

definition sql_unread_channels ::
  "pg_env \<Rightarrow> string \<Rightarrow> database \<Rightarrow> pg_cause + (string \<times> string \<times> nat) list" where
  "sql_unread_channels P userID d =
     uuid_param P userID (\<lambda>u.
       Inr [(ch_id c, ch_community_id c, unread_in_channel d u (ch_id c)).
              c \<leftarrow> channels d, m \<leftarrow> community_members d,
              mem_community_id m = ch_community_id c \<and> mem_user_id m = u])"

definition peer_of :: "string \<Rightarrow> dm_conversation_row \<Rightarrow> string" where
  "peer_of u c = (if dc_user_a_id c = u then dc_user_b_id c else dc_user_a_id c)"

definition sql_unread_dms ::
  "pg_env \<Rightarrow> string \<Rightarrow> database \<Rightarrow> pg_cause + (string \<times> string \<times> nat) list" where
  "sql_unread_dms P userID d =
     uuid_param P userID (\<lambda>u.
       Inr (map (\<lambda>c. (dc_id c, peer_of u c, unread_in_dm d u (dc_id c)))
              (filter (\<lambda>c. dc_user_a_id c = u \<or> dc_user_b_id c = u) (dm_conversations d))))"

text \<open>The loop over the rows keeps those with unread messages; the count becomes an \<open>int32\<close>.\<close>

definition keep_unread :: "(string \<Rightarrow> string \<Rightarrow> 32 word \<Rightarrow> 'r) \<Rightarrow> (string \<times> string \<times> nat) list \<Rightarrow> 'r list" where
  "keep_unread mk rows = map (\<lambda>(a, b, n). mk a b (word_of_nat n)) (filter (\<lambda>(_, _, n). n > 0) rows)"

definition store_GetUnreadChannels ::
  "pg_env \<Rightarrow> string \<Rightarrow> ('z infra_scheme, go_error + unread_channel list) state" where
  "store_GetUnreadChannels P userID = do {
     r \<leftarrow> pg_query P (sql_unread_channels P userID);
     ret (case r of
            Inl e \<Rightarrow> Inl (Wrap ''query unread channels'' e)
          | Inr (rows, Some e) \<Rightarrow> Inl e
          | Inr (rows, None) \<Rightarrow>
              Inr (keep_unread (\<lambda>a b n. \<lparr>uc_channel_id = a, uc_community_id = b, uc_count = n\<rparr>) rows))
   }"

definition store_GetUnreadDMs ::
  "pg_env \<Rightarrow> string \<Rightarrow> ('z infra_scheme, go_error + unread_dm list) state" where
  "store_GetUnreadDMs P userID = do {
     r \<leftarrow> pg_query P (sql_unread_dms P userID);
     ret (case r of
            Inl e \<Rightarrow> Inl (Wrap ''query unread DMs'' e)
          | Inr (rows, Some e) \<Rightarrow> Inl e
          | Inr (rows, None) \<Rightarrow>
              Inr (keep_unread (\<lambda>a b n. \<lparr>ud_conversation_id = a, ud_peer_id = b, ud_count = n\<rparr>) rows))
   }"

section \<open>Cursors\<close>

locale cursors =
  fixes cursor :: "'d \<Rightarrow> 'u \<Rightarrow> 'c \<Rightarrow> int"
    and advance :: "'u \<Rightarrow> 'c \<Rightarrow> int \<Rightarrow> 'd \<Rightarrow> 'd"
  assumes cursor_advance: "0 \<le> q \<Longrightarrow> cursor (advance u c q d) v e =
    (if v = u \<and> e = c then max (cursor d u c) q else cursor d v e)"
begin

definition forward :: "'d \<Rightarrow> 'd \<Rightarrow> bool" where
  "forward d d' \<longleftrightarrow> (\<forall>u c. cursor d u c \<le> cursor d' u c)"

lemma forward_refl: "forward d d"
  by (simp add: forward_def)

lemma forward_trans: "forward d e \<Longrightarrow> forward e f \<Longrightarrow> forward d f"
  unfolding forward_def by (meson order_trans)

lemma forward_advance: "0 \<le> q \<Longrightarrow> forward d (advance u c q d)"
  by (simp add: forward_def cursor_advance)

lemma advance_reaches: "0 \<le> q \<Longrightarrow> q \<le> cursor (advance u c q d) u c"
  by (simp add: cursor_advance)

lemma advance_twice: "0 \<le> q \<Longrightarrow> cursor (advance u c q (advance u c q d)) = cursor (advance u c q d)"
  by (simp add: cursor_advance fun_eq_iff)

lemma advance_commute:
  "0 \<le> q \<Longrightarrow> 0 \<le> r \<Longrightarrow>
   cursor (advance u c q (advance v e r d)) = cursor (advance v e r (advance u c q d))"
  by (intro ext) (auto simp: cursor_advance max_def)

end

lemma read_keys [simp]:
  "cr_key (r\<lparr>cr_last_read_seq := q\<rparr>) = cr_key r"
  "cr_key \<lparr>cr_user_id = u, cr_channel_id = c, cr_last_read_seq = q\<rparr> = (u, c)"
  "dr_key (r'\<lparr>dr_last_read_seq := q\<rparr>) = dr_key r'"
  "dr_key \<lparr>dr_user_id = u, dr_conversation_id = c, dr_last_read_seq = q\<rparr> = (u, c)"
  by (simp_all add: cr_key_def dr_key_def)

interpretation channel_cursors: cursors channel_cursor advance_channel
proof unfold_locales
  fix q :: int and d u c v e assume "0 \<le> q"
  then show "channel_cursor (advance_channel u c q d) v e =
      (if v = u \<and> e = c then max (channel_cursor d u c) q else channel_cursor d v e)"
    by (auto simp: channel_cursor_def advance_channel_def find_upsert [where key = cr_key]
        split: option.split)
qed

interpretation dm_cursors: cursors dm_cursor advance_dm
proof unfold_locales
  fix q :: int and d u c v e assume "0 \<le> q"
  then show "dm_cursor (advance_dm u c q d) v e =
      (if v = u \<and> e = c then max (dm_cursor d u c) q else dm_cursor d v e)"
    by (auto simp: dm_cursor_def advance_dm_def find_upsert [where key = dr_key]
        split: option.split)
qed

section \<open>What the statements do\<close>

lemma fold_max_bounds:
  fixes q :: int
  shows "q \<le> fold max qs q" and "x \<in> set qs \<Longrightarrow> x \<le> fold max qs q"
    and "fold max qs q \<in> insert q (set qs)"
proof (induction qs arbitrary: q)
  case (Cons a qs)
  { case 1 show ?case using Cons.IH(1) [of "max a q"] by simp }
  { case 2 then show ?case using Cons.IH(1) [of "max a q"] Cons.IH(2) [of "max a q"] by auto }
  { case 3 show ?case using Cons.IH(3) [of "max a q"] by (auto simp: max_def split: if_splits) }
qed simp_all

lemma max_seq_upper: "q \<in> set qs \<Longrightarrow> q \<le> max_seq qs"
  by (cases qs) (auto simp: max_seq_def fold_max_bounds)

lemma max_seq_nonneg: "\<forall>q \<in> set qs. 0 \<le> q \<Longrightarrow> 0 \<le> max_seq qs"
  by (cases qs) (auto simp: max_seq_def intro: order_trans fold_max_bounds(1))

text \<open>Only the cursors change, and they move forward.\<close>

definition reads_forward :: "database \<Rightarrow> database \<Rightarrow> bool" where
  "reads_forward d d' \<longleftrightarrow>
     channel_cursors.forward d d' \<and> dm_cursors.forward d d' \<and>
     (\<exists>rs ds. d' = d\<lparr>channel_read_state := rs, dm_read_state := ds\<rparr>)"

lemma reads_forward_refl [simp]: "reads_forward d d"
  by (auto simp: reads_forward_def channel_cursors.forward_refl dm_cursors.forward_refl
      intro!: exI [of _ "channel_read_state d"] exI [of _ "dm_read_state d"])

lemma reads_forward_trans: "reads_forward d e \<Longrightarrow> reads_forward e f \<Longrightarrow> reads_forward d f"
  unfolding reads_forward_def
  by (auto intro: channel_cursors.forward_trans dm_cursors.forward_trans) (metis database.update_convs(13,14))

lemma advance_frame:
  "advance_channel u c q d = d\<lparr>channel_read_state := channel_read_state (advance_channel u c q d),
     dm_read_state := dm_read_state d\<rparr>"
  "advance_dm u c q d = d\<lparr>channel_read_state := channel_read_state d,
     dm_read_state := dm_read_state (advance_dm u c q d)\<rparr>"
  by (simp_all add: advance_channel_def advance_dm_def)

lemma advance_other_cursor [simp]:
  "dm_cursor (advance_channel u c q d) = dm_cursor d"
  "channel_cursor (advance_dm u c q d) = channel_cursor d"
  by (simp_all add: advance_channel_def advance_dm_def dm_cursor_def channel_cursor_def fun_eq_iff)

lemma reads_forward_advance:
  assumes "0 \<le> q"
  shows "reads_forward d (advance_channel u c q d)" and "reads_forward d (advance_dm u c q d)"
proof -
  have "channel_cursors.forward d (advance_channel u c q d)" "dm_cursors.forward d (advance_dm u c q d)"
    using assms by (rule channel_cursors.forward_advance, rule dm_cursors.forward_advance)
  moreover have "dm_cursors.forward d (advance_channel u c q d)" "channel_cursors.forward d (advance_dm u c q d)"
    by (simp_all add: dm_cursors.forward_def channel_cursors.forward_def)
  ultimately show "reads_forward d (advance_channel u c q d)" and "reads_forward d (advance_dm u c q d)"
    unfolding reads_forward_def using advance_frame by blast+
qed

lemma put_channel_cursor_InrD:
  "put_channel_cursor u c q d = Inr (x, d') \<Longrightarrow>
   d' = advance_channel u c q d \<and> ((u, c) \<in> cr_key ` set (channel_read_state d) \<or> has_channel d c)"
  by (auto simp: put_channel_cursor_def split: if_splits)

lemma put_dm_cursor_InrD: "put_dm_cursor u c q d = Inr (x, d') \<Longrightarrow> d' = advance_dm u c q d"
  by (auto simp: put_dm_cursor_def split: if_splits)

lemma message_seqs_nonneg:
  "db_ok d \<Longrightarrow> 0 \<le> max_seq (map cm_seq (filter Q (channel_messages d)))"
  "db_ok d \<Longrightarrow> 0 \<le> max_seq (map dm_seq (filter Q' (dm_messages d)))"
  by (auto intro!: max_seq_nonneg simp: db_ok_def seqs_ok_def dm_ok_def less_imp_le)

lemma db_ok_read_state:
  assumes "db_ok d" and "distinct (map cr_key rs)" and "cr_channel_id ` set rs \<subseteq> ch_id ` set (channels d)"
  shows "db_ok (d\<lparr>channel_read_state := rs\<rparr>)"
proof -
  have "cr_key = (\<lambda>r. (cr_user_id r, cr_channel_id r))" by (auto simp: cr_key_def)
  with assms show ?thesis by (auto simp: db_ok_defs has_defs)
qed

lemma advance_channel_ok:
  assumes ok: "db_ok d" and c: "(u, c) \<in> cr_key ` set (channel_read_state d) \<or> has_channel d c"
  shows "db_ok (advance_channel u c q d)"
proof -
  let ?new = "\<lparr>cr_user_id = u, cr_channel_id = c, cr_last_read_seq = q\<rparr>"
  let ?upd = "\<lambda>r. r\<lparr>cr_last_read_seq := max (cr_last_read_seq r) q\<rparr>"
  have key: "cr_key = (\<lambda>r. (cr_user_id r, cr_channel_id r))" by (auto simp: cr_key_def)
  have old: "distinct (map cr_key (channel_read_state d))"
    "cr_channel_id ` set (channel_read_state d) \<subseteq> ch_id ` set (channels d)"
    using ok by (auto simp: db_ok_def reads_ok_def key has_channel_def)
  have c': "c \<in> ch_id ` set (channels d)"
    using c old(2) by (auto simp: has_channel_def cr_key_def)
  have "cr_channel_id ` set (upsert cr_key ?upd ?new (channel_read_state d)) =
      snd ` cr_key ` set (upsert cr_key ?upd ?new (channel_read_state d))"
    by (simp add: image_image cr_key_def)
  also have "\<dots> = insert c (cr_channel_id ` set (channel_read_state d))"
    by (subst upsert_keys) (auto simp: image_image cr_key_def)
  finally have "cr_channel_id ` set (upsert cr_key ?upd ?new (channel_read_state d))
      \<subseteq> ch_id ` set (channels d)" using old(2) c' by auto
  then show ?thesis
    unfolding advance_channel_def
    by (intro db_ok_read_state ok distinct_upsert old(1)) simp
qed

lemma advance_dm_ok: "db_ok d \<Longrightarrow> db_ok (advance_dm u c q d)"
proof -
  assume ok: "db_ok d"
  have key: "dr_key = (\<lambda>r. (dr_user_id r, dr_conversation_id r))" by (auto simp: dr_key_def)
  have "distinct (map dr_key (upsert dr_key (\<lambda>r. r\<lparr>dr_last_read_seq := max (dr_last_read_seq r) q\<rparr>)
      \<lparr>dr_user_id = u, dr_conversation_id = c, dr_last_read_seq = q\<rparr> (dm_read_state d)))"
    using ok by (intro distinct_upsert) (simp_all add: db_ok_def reads_ok_def key)
  with ok show ?thesis by (simp add: advance_dm_def db_ok_defs has_defs key)
qed

named_theorems notify_keeps "statements on cursors that keep integrity"
named_theorems notify_forward "statements on cursors that move them forward"

lemma cursor_stmts_keep [notify_keeps]:
  "stmt_keeps db_ok (sql_mark_channel_read P u c)"
  "stmt_keeps db_ok (sql_mark_dm_read P u c)"
  "stmt_keeps db_ok (sql_advance_channel_read P u c q)"
  "stmt_keeps db_ok (sql_advance_dm_read P u c q)"
  by (rule stmt_keepsI;
      auto simp: sql_mark_channel_read_def sql_mark_dm_read_def sql_advance_channel_read_def
        sql_advance_dm_read_def stmt_cases advance_channel_ok advance_dm_ok
        dest!: put_channel_cursor_InrD put_dm_cursor_InrD)+

text \<open>A statement that moves cursors forward, from tables with integrity.\<close>

definition moves_forward :: "unit stmt \<Rightarrow> bool" where
  "moves_forward stmt \<longleftrightarrow> (\<forall>t d x d'. db_ok d \<longrightarrow> stmt t d = Inr (x, d') \<longrightarrow> reads_forward d d')"

lemma cursor_stmts_forward [notify_forward]:
  "moves_forward (sql_mark_channel_read P u c)"
  "moves_forward (sql_mark_dm_read P u c)"
  "0 \<le> q \<Longrightarrow> moves_forward (sql_advance_channel_read P u c q)"
  "0 \<le> q \<Longrightarrow> moves_forward (sql_advance_dm_read P u c q)"
  by (auto simp: moves_forward_def sql_mark_channel_read_def sql_mark_dm_read_def
      sql_advance_channel_read_def sql_advance_dm_read_def stmt_cases reads_forward_advance
      message_seqs_nonneg dest!: put_channel_cursor_InrD put_dm_cursor_InrD)

lemmas store_defs =
  store_MarkChannelRead_def store_MarkDMRead_def store_AdvanceChannelRead_def
  store_AdvanceDMRead_def store_GetUnreadChannels_def store_GetUnreadDMs_def

lemma preserves_store_writes:
  "stmt_safe I (sql_mark_channel_read P u c) \<Longrightarrow> preserves I (store_MarkChannelRead P u c)"
  "stmt_safe I (sql_mark_dm_read P u c) \<Longrightarrow> preserves I (store_MarkDMRead P u c)"
  "stmt_safe I (sql_advance_channel_read P u c q) \<Longrightarrow> preserves I (store_AdvanceChannelRead P u c q)"
  "stmt_safe I (sql_advance_dm_read P u c q) \<Longrightarrow> preserves I (store_AdvanceDMRead P u c q)"
  unfolding store_defs by (intro preserves_intros preserves_pg_exec; assumption)+

lemma preserves_store_reads:
  assumes "calls_safe I"
  shows "preserves I (store_GetUnreadChannels P u)" and "preserves I (store_GetUnreadDMs P u)"
  unfolding store_defs by (intro preserves_intros preserves_pg_query assms)+

end
