(* ===== verification/NotifyService.thy ===== *)
theory NotifyService
  imports NotifyStore Redis CommunityService
begin

text \<open>
  \<open>backend/services/notify-service/service.go\<close> and \<open>subscriber.go\<close>. The RPC handlers read and mark;
  the event handlers advance the sender's cursor and push to whoever is connected. A NATS message
  is the document in it, or nothing when its data is no JSON; acknowledging one is counted in the
  state. The log is left out.

  Go iterates over a map in no particular order: where the code ranges over one, the order is a
  parameter \<open>ord\<close> (a function that rearranges a list).
\<close>

record notify_svc = infra +
  acked :: nat
  subscribed :: "(string \<times> string) list"     \<comment> \<open>subject and durable name\<close>

section \<open>RPC handlers\<close>

record unread_counts =
  un_dm_total :: "32 word"
  un_dms :: "unread_dm list"
  un_channel_total :: "32 word"
  un_channels :: "unread_channel list"

fun total_of :: "('r \<Rightarrow> 32 word) \<Rightarrow> 32 word \<Rightarrow> 'r list \<Rightarrow> 32 word" where
  "total_of count acc [] = acc"
| "total_of count acc (r # rs) = total_of count (acc + count r) rs"

definition GetUnreadCounts :: "pg_env \<Rightarrow> string \<Rightarrow> ('z infra_scheme, unread_counts) handler" where
  "GetUnreadCounts P userID =
     guard_that (userID \<noteq> []) CodeUnauthenticated ''missing user ID'' (
     try_call (wrapped CodeInternal ''get unread channels'') (store_GetUnreadChannels P userID) (\<lambda>chs.
     try_call (wrapped CodeInternal ''get unread DMs'') (store_GetUnreadDMs P userID) (\<lambda>dms.
     ok \<lparr>un_dm_total = total_of ud_count 0 dms, un_dms = dms,
         un_channel_total = total_of uc_count 0 chs, un_channels = chs\<rparr>)))"

definition MarkDMRead :: "pg_env \<Rightarrow> string \<Rightarrow> string \<Rightarrow> ('z infra_scheme, unit) handler" where
  "MarkDMRead P userID convID =
     guard_that (userID \<noteq> []) CodeUnauthenticated ''missing user ID'' (
     guard_that (convID \<noteq> []) CodeInvalidArgument ''conversation_id is required'' (
     try_call (wrapped CodeInternal ''mark DM read'') (store_MarkDMRead P userID convID) (\<lambda>_.
     ok ())))"

definition MarkChannelRead :: "pg_env \<Rightarrow> string \<Rightarrow> string \<Rightarrow> ('z infra_scheme, unit) handler" where
  "MarkChannelRead P userID channelID =
     guard_that (userID \<noteq> []) CodeUnauthenticated ''missing user ID'' (
     guard_that (channelID \<noteq> []) CodeInvalidArgument ''channel_id is required'' (
     try_call (wrapped CodeInternal ''mark channel read'') (store_MarkChannelRead P userID channelID) (\<lambda>_.
     ok ())))"

section \<open>Events\<close>

record dm_created_event =
  de_message_id :: string
  de_sender_id :: string
  de_receiver_id :: string
  de_conversation_id :: string
  de_content :: string
  de_created_at :: int
  de_seq :: int

record message_created_event =
  me_message_id :: string
  me_channel_id :: string
  me_community_id :: string
  me_sender_id :: string
  me_content :: string
  me_member_ids :: "string list"
  me_created_at :: int
  me_seq :: int

text \<open>An \<open>int64\<close> field refuses a number it cannot hold.\<close>

definition json_int64 :: "json \<Rightarrow> go_error + int" where
  "json_int64 j = sum_bind (json_int j) (\<lambda>n.
     if - (2 ^ 63) \<le> n \<and> n < 2 ^ 63 then Inr n else Inl JsonError)"

definition read_DMCreatedEvent :: "json \<Rightarrow> go_error + dm_created_event" where
  "read_DMCreatedEvent j =
     (if \<not> json_is_object j then Inl JsonError else
      sum_bind (json_str (json_field j ''message_id'')) (\<lambda>m.
      sum_bind (json_str (json_field j ''sender_id'')) (\<lambda>s.
      sum_bind (json_str (json_field j ''receiver_id'')) (\<lambda>r.
      sum_bind (json_str (json_field j ''conversation_id'')) (\<lambda>c.
      sum_bind (json_str (json_field j ''content'')) (\<lambda>t.
      sum_bind (json_int64 (json_field j ''created_at'')) (\<lambda>at.
      sum_bind (json_int64 (json_field j ''seq'')) (\<lambda>q.
        Inr \<lparr>de_message_id = m, de_sender_id = s, de_receiver_id = r, de_conversation_id = c,
             de_content = t, de_created_at = at, de_seq = q\<rparr>))))))))"

definition read_MessageCreatedEvent :: "json \<Rightarrow> go_error + message_created_event" where
  "read_MessageCreatedEvent j =
     (if \<not> json_is_object j then Inl JsonError else
      sum_bind (json_str (json_field j ''message_id'')) (\<lambda>m.
      sum_bind (json_str (json_field j ''channel_id'')) (\<lambda>c.
      sum_bind (json_str (json_field j ''community_id'')) (\<lambda>k.
      sum_bind (json_str (json_field j ''sender_id'')) (\<lambda>s.
      sum_bind (json_str (json_field j ''content'')) (\<lambda>t.
      sum_bind (json_arr json_str (json_field j ''member_ids'')) (\<lambda>ms.
      sum_bind (json_int64 (json_field j ''created_at'')) (\<lambda>at.
      sum_bind (json_int64 (json_field j ''seq'')) (\<lambda>q.
        Inr \<lparr>me_message_id = m, me_channel_id = c, me_community_id = k, me_sender_id = s,
             me_content = t, me_member_ids = ms, me_created_at = at, me_seq = q\<rparr>)))))))))"

definition read_user_id :: "json \<Rightarrow> go_error + string" where
  "read_user_id j =
     (if \<not> json_is_object j then Inl JsonError else json_str (json_field j ''user_id''))"

text \<open>The online event has a second field that must be a string and is not used.\<close>

definition read_user_online :: "json \<Rightarrow> go_error + string" where
  "read_user_online j =
     sum_bind (read_user_id j) (\<lambda>u. sum_bind (json_str (json_field j ''gw_id'')) (\<lambda>_. Inr u))"

section \<open>Pushes\<close>

record notification_push =
  np_targets :: "string list"
  np_event_type :: string
  np_payload :: "(string \<times> json) list"

text \<open>
  The texts of an event have come out of a JSON document already; the preview is the one text that
  may have to be made UTF-8 again.
\<close>

definition utf8_value :: "json \<Rightarrow> json" where
  "utf8_value j = (case j of JStr s \<Rightarrow> JStr (json_text s) | _ \<Rightarrow> j)"

definition marshal_push :: "notification_push \<Rightarrow> json" where
  "marshal_push p =
     JObj [(''targets'', JArr (map JStr (np_targets p))), (''event_type'', JStr (np_event_type p)),
           (''payload'', JObj (map (\<lambda>(k, v). (k, utf8_value v)) (np_payload p)))]"

definition gateway_key :: "string \<Rightarrow> string" where
  "gateway_key userID = ''ws:uid:'' @ userID"

definition gateway_topic :: "string \<Rightarrow> string" where
  "gateway_topic gwID = ''gw.push.'' @ gwID"

text \<open>The length is counted in bytes.\<close>

definition truncate :: "string \<Rightarrow> int \<Rightarrow> string" where
  "truncate s maxLen =
     (if int (length s) \<le> maxLen then s
      else if maxLen \<le> 3 then take (nat maxLen) s
      else take (nat (maxLen - 3)) s @ ''...'')"

definition pushToUser :: "string \<Rightarrow> notification_push \<Rightarrow> (notify_svc, unit) state" where
  "pushToUser userID payload = do {
     gw \<leftarrow> redis_get (gateway_key userID);
     (case gw of
        Inl err \<Rightarrow> ret ()
      | Inr gwID \<Rightarrow> do { _ \<leftarrow> nats_publish (gateway_topic gwID) (marshal_push payload); ret () })
   }"

text \<open>The users of each gateway, in the order of the list; the gateways in any order.\<close>

definition on_gateway :: "(string \<times> (go_error + string)) list \<Rightarrow> string \<Rightarrow> string list" where
  "on_gateway found gwID = map fst (filter (\<lambda>(_, r). r = Inr gwID) found)"

definition gateways_of :: "(string \<times> (go_error + string)) list \<Rightarrow> string list" where
  "gateways_of found = remdups [gw. (u, r) \<leftarrow> found, gw \<leftarrow> (case r of Inl _ \<Rightarrow> [] | Inr gw \<Rightarrow> [gw])]"

definition pushToUsers ::
  "(string list \<Rightarrow> string list) \<Rightarrow> string list \<Rightarrow> notification_push \<Rightarrow> (notify_svc, unit) state" where
  "pushToUsers ord userIDs payload = do {
     results \<leftarrow> redis_pipeline_get (map gateway_key userIDs);
     let found = zip userIDs results;
     for_each (\<lambda>gwID. do {
       _ \<leftarrow> nats_publish (gateway_topic gwID)
             (marshal_push (payload\<lparr>np_targets := on_gateway found gwID\<rparr>));
       ret ()
     }) (ord (gateways_of found))
   }"

section \<open>Event handlers\<close>

definition Ack :: "(notify_svc, unit) state" where
  "Ack = modify (\<lambda>s. s\<lparr>acked := Suc (acked s)\<rparr>)"

definition unmarshal :: "(json \<Rightarrow> go_error + 'a) \<Rightarrow> json option \<Rightarrow> go_error + 'a" where
  "unmarshal f data = (case data of None \<Rightarrow> Inl JsonError | Some j \<Rightarrow> f j)"

definition handleDMCreated :: "pg_env \<Rightarrow> json option \<Rightarrow> (notify_svc, unit) state" where
  "handleDMCreated P data =
     (case unmarshal read_DMCreatedEvent data of
        Inl err \<Rightarrow> Ack
      | Inr evt \<Rightarrow> do {
          _ \<leftarrow> store_AdvanceDMRead P (de_sender_id evt) (de_conversation_id evt) (de_seq evt);
          let push = \<lparr>np_targets = [de_receiver_id evt], np_event_type = ''DM_RECEIVED'',
            np_payload = [(''message_id'', JStr (de_message_id evt)),
              (''sender_id'', JStr (de_sender_id evt)),
              (''content'', JStr (truncate (de_content evt) 200)),
              (''created_at'', JNum (de_created_at evt)), (''seq'', JNum (de_seq evt))]\<rparr>;
          pushToUser (de_receiver_id evt) push;
          Ack
        })"

definition handleMessageCreated :: "pg_env \<Rightarrow> json option \<Rightarrow> (notify_svc, unit) state" where
  "handleMessageCreated P data =
     (case unmarshal read_MessageCreatedEvent data of
        Inl err \<Rightarrow> Ack
      | Inr evt \<Rightarrow> do {
          (if me_sender_id evt \<noteq> []
           then do {
             _ \<leftarrow> store_AdvanceChannelRead P (me_sender_id evt) (me_channel_id evt) (me_seq evt);
             ret ()
           }
           else ret ());
          let targets = filter (\<lambda>mid. mid \<noteq> me_sender_id evt) (me_member_ids evt);
          (if targets \<noteq> []
           then
             let push = \<lparr>np_targets = targets, np_event_type = ''CHANNEL_MESSAGE_RECEIVED'',
               np_payload = [(''message_id'', JStr (me_message_id evt)),
                 (''channel_id'', JStr (me_channel_id evt)),
                 (''sender_id'', JStr (me_sender_id evt)),
                 (''content'', JStr (truncate (me_content evt) 200)),
                 (''created_at'', JNum (me_created_at evt)), (''seq'', JNum (me_seq evt))]\<rparr>
             in for_each (\<lambda>target. pushToUser target push) targets
           else ret ());
          Ack
        })"

definition sql_friends_of :: "pg_env \<Rightarrow> string \<Rightarrow> database \<Rightarrow> pg_cause + string list" where
  "sql_friends_of P userID d =
     uuid_param P userID (\<lambda>u.
       Inr (map (\<lambda>r. if rel_user_id r = u then rel_target_user_id r else rel_user_id r)
              (filter (\<lambda>r. (rel_user_id r = u \<or> rel_target_user_id r = u) \<and> rel_type r = ''friend'')
                 (user_relations d))))"

definition sql_co_members :: "pg_env \<Rightarrow> string \<Rightarrow> database \<Rightarrow> pg_cause + string list" where
  "sql_co_members P userID d =
     uuid_param P userID (\<lambda>u.
       Inr (remdups [mem_user_id m2. m1 \<leftarrow> community_members d, m2 \<leftarrow> community_members d,
              mem_community_id m1 = mem_community_id m2 \<and> mem_user_id m1 = u \<and> mem_user_id m2 \<noteq> u]))"

text \<open>The rows of a query that may fail or break off: the code keeps what it got.\<close>

definition rows_of :: "go_error + ('r list \<times> go_error option) \<Rightarrow> 'r list" where
  "rows_of r = (case r of Inl e \<Rightarrow> [] | Inr (rows, _) \<Rightarrow> rows)"

definition pushPresenceToContacts ::
  "pg_env \<Rightarrow> (string list \<Rightarrow> string list) \<Rightarrow> string \<Rightarrow> string \<Rightarrow> (notify_svc, unit) state" where
  "pushPresenceToContacts P ord userID eventType = do {
     friendRows \<leftarrow> pg_query P (sql_friends_of P userID);
     memberRows \<leftarrow> pg_query P (sql_co_members P userID);
     let contacts = remdups (rows_of friendRows @ rows_of memberRows);
     (if contacts = [] then ret ()
      else
        let targetIDs = ord contacts;
            push = \<lparr>np_targets = targetIDs, np_event_type = eventType,
                    np_payload = [(''user_id'', JStr userID)]\<rparr>
        in pushToUsers ord targetIDs push)
   }"

definition handleUserOnline ::
  "pg_env \<Rightarrow> (string list \<Rightarrow> string list) \<Rightarrow> json option \<Rightarrow> (notify_svc, unit) state" where
  "handleUserOnline P ord data =
     (case unmarshal read_user_online data of
        Inl err \<Rightarrow> Ack
      | Inr userID \<Rightarrow> do { pushPresenceToContacts P ord userID ''USER_ONLINE''; Ack })"

definition handleUserOffline ::
  "pg_env \<Rightarrow> (string list \<Rightarrow> string list) \<Rightarrow> json option \<Rightarrow> (notify_svc, unit) state" where
  "handleUserOffline P ord data =
     (case unmarshal read_user_id data of
        Inl err \<Rightarrow> Ack
      | Inr userID \<Rightarrow> do { pushPresenceToContacts P ord userID ''USER_OFFLINE''; Ack })"

section \<open>Subscriptions\<close>

definition subscriptions ::
  "pg_env \<Rightarrow> (string list \<Rightarrow> string list) \<Rightarrow> (string \<times> (json option \<Rightarrow> (notify_svc, unit) state)) list" where
  "subscriptions P ord =
     [(''constell.dm.created'', handleDMCreated P),
      (''constell.message.created'', handleMessageCreated P),
      (''constell.user.online'', handleUserOnline P ord),
      (''constell.user.offline'', handleUserOffline P ord)]"

definition durable_name :: "string \<Rightarrow> string" where
  "durable_name subject = ''notify-'' @ map (\<lambda>c. if c = CHR ''.'' then CHR ''-'' else c) subject"

definition js_Subscribe :: "string \<Rightarrow> string \<Rightarrow> (notify_svc, go_error + unit) state" where
  "js_Subscribe subject durable = do {
     o1 \<leftarrow> next_outcome;
     (if o1 = Done
      then do { modify (\<lambda>s. s\<lparr>subscribed := subscribed s @ [(subject, durable)]\<rparr>); ret (Inr ()) }
      else ret (Inl (Errorf ''nats'')))
   }"

fun subscribe_each :: "string list \<Rightarrow> (notify_svc, go_error + unit) state" where
  "subscribe_each [] = ret (Inr ())"
| "subscribe_each (subject # rest) = do {
     r \<leftarrow> js_Subscribe subject (durable_name subject);
     (case r of
        Inl e \<Rightarrow> ret (Inl (Wrap (''subscribe to '' @ subject) e))
      | Inr _ \<Rightarrow> subscribe_each rest)
   }"

definition SubscribeAll ::
  "pg_env \<Rightarrow> (string list \<Rightarrow> string list) \<Rightarrow> (notify_svc, go_error + unit) state" where
  "SubscribeAll P ord = subscribe_each (map fst (subscriptions P ord))"

text \<open>What JetStream does with a message of a subject: the handler subscribed to it runs.\<close>

definition deliver ::
  "pg_env \<Rightarrow> (string list \<Rightarrow> string list) \<Rightarrow> string \<times> json option \<Rightarrow> (notify_svc, unit) state" where
  "deliver P ord msg =
     (case map_of (subscriptions P ord) (fst msg) of None \<Rightarrow> ret () | Some h \<Rightarrow> h (snd msg))"

end
