(* ===== verification/NotifyFacts.thy ===== *)
theory NotifyFacts
  imports NotifyService UserFacts
begin

text \<open>
  What the notify service promises: read cursors only move forward, marking read clears the
  unread count, the counts are exact, every event is acknowledged once, and who is told what.
\<close>

section \<open>Requests and events\<close>

datatype notify_request =
    ReqGetUnreadCounts string
  | ReqMarkDMRead string string
  | ReqMarkChannelRead string string
  | Event string "json option"

definition serve_notify ::
  "pg_env \<Rightarrow> (string list \<Rightarrow> string list) \<Rightarrow> notify_request \<Rightarrow> (notify_svc, unit) state" where
  "serve_notify P ord req =
     (case req of
        ReqGetUnreadCounts u \<Rightarrow> no_result (GetUnreadCounts P u)
      | ReqMarkDMRead u c \<Rightarrow> no_result (MarkDMRead P u c)
      | ReqMarkChannelRead u c \<Rightarrow> no_result (MarkChannelRead P u c)
      | Event subject data \<Rightarrow> deliver P ord (subject, data))"

text \<open>The numbers in events are those of messages.\<close>

definition event_ok :: "notify_request \<Rightarrow> bool" where
  "event_ok req =
     (case req of
        Event subject data \<Rightarrow>
          (case unmarshal read_DMCreatedEvent data of Inl _ \<Rightarrow> True | Inr e \<Rightarrow> 0 \<le> de_seq e) \<and>
          (case unmarshal read_MessageCreatedEvent data of Inl _ \<Rightarrow> True | Inr e \<Rightarrow> 0 \<le> me_seq e)
      | _ \<Rightarrow> True)"

text \<open>A predicate on states that the notify service's calls cannot break.\<close>

definition notify_safe :: "(notify_svc \<Rightarrow> bool) \<Rightarrow> bool" where
  "notify_safe I \<longleftrightarrow>
     calls_safe I \<and> (\<forall>s p. I s \<longrightarrow> I (s\<lparr>published := p\<rparr>)) \<and> (\<forall>s n. I s \<longrightarrow> I (s\<lparr>acked := n\<rparr>)) \<and>
     (\<forall>stmt :: unit stmt. stmt_keeps db_ok stmt \<longrightarrow> moves_forward stmt \<longrightarrow> stmt_safe I stmt)"

lemma preserves_pushes:
  assumes I: "notify_safe I"
  shows "preserves I (pushToUser u p)" and "preserves I (pushToUsers ord us p)"
    and "preserves I (pushPresenceToContacts P ord u ty)" and "preserves I Ack"
proof -
  have calls: "calls_safe I" and pub: "\<And>s p. I s \<Longrightarrow> I (s\<lparr>published := p\<rparr>)"
    and ack: "\<And>s n. I s \<Longrightarrow> I (s\<lparr>acked := n\<rparr>)"
    using I by (auto simp: notify_safe_def)
  note nats = preserves_nats_publish [OF calls pub]
  show "preserves I (pushToUser u p)" "preserves I (pushToUsers ord us p)" for u us p
    unfolding pushToUser_def pushToUsers_def Let_def
    by (intro preserves_intros nats preserves_redis_reads calls; assumption)+
  then show "preserves I (pushPresenceToContacts P ord u ty)"
    unfolding pushPresenceToContacts_def Let_def by (intro preserves_intros preserves_pg_query calls)
  show "preserves I Ack" unfolding Ack_def by (rule preserves_modify) (rule ack)
qed

lemma preserves_serve_notify:
  assumes I: "notify_safe I" and ok: "event_ok req"
  shows "preserves I (serve_notify P ord req)"
proof -
  have calls: "calls_safe I" and stmt: "\<And>st :: unit stmt. stmt_keeps db_ok st \<Longrightarrow> moves_forward st \<Longrightarrow> stmt_safe I st"
    using I by (auto simp: notify_safe_def)
  note store = preserves_store_writes preserves_store_reads stmt notify_keeps notify_forward calls
  show ?thesis
  proof (cases req)
    case (Event subject data)
    have "preserves I (handleDMCreated P data)" "preserves I (handleMessageCreated P data)"
      using ok unfolding handleDMCreated_def handleMessageCreated_def Let_def
      by (auto simp: Event event_ok_def split: sum.splits
          intro!: preserves_intros preserves_pushes [OF I] store)
    moreover have "preserves I (handleUserOnline P ord data)" "preserves I (handleUserOffline P ord data)"
      unfolding handleUserOnline_def handleUserOffline_def
      by (intro preserves_intros preserves_pushes [OF I])+
    ultimately show ?thesis
      by (auto simp: Event serve_notify_def deliver_def subscriptions_def intro: preserves_intros)
  qed (auto simp: serve_notify_def no_result_def GetUnreadCounts_def MarkDMRead_def
      MarkChannelRead_def intro!: preserves_intros store)
qed

lemma notify_safe_forward: "notify_safe (\<lambda>s. db_ok (db s) \<and> reads_forward d (db s))"
  unfolding notify_safe_def calls_safe_def stmt_safe_def stmt_keeps_def moves_forward_def
  by (auto intro: reads_forward_trans)

section \<open>An example\<close>

text \<open>The tables after the message of the community example; \<open>ua\<close> and \<open>vb\<close> are connected to one
  gateway.\<close>

definition notify_service_of :: "infra \<Rightarrow> notify_svc" where
  "notify_service_of e = infra.extend e \<lparr>acked = 0, subscribed = []\<rparr>"

definition demo_notify :: notify_svc where
  "demo_notify = notify_service_of ((demo_infra (db demo_sent))\<lparr>redis :=
     [''ws:uid:ua'' \<mapsto> (''g1'', 2000000), ''ws:uid:vb'' \<mapsto> (''g1'', 2000000)]\<rparr>)"

lemma demo_notify_ok: "db_ok (db demo_notify)" "outcomes demo_notify = []"
  using demo_svc_ok(4)
  by (simp_all add: demo_notify_def notify_service_of_def infra.extend_def demo_infra_def svc_ok_def)

lemma demo_notify_db: "db demo_notify = db demo_sent"
  by (simp add: demo_notify_def notify_service_of_def infra.extend_def demo_infra_def)

section \<open>Cursors\<close>

text \<open>C16: Read cursors never go back: over any sequence of requests and events, with any failures
  of the database in between and in any order, every cursor of every user only grows, nothing
  else in the tables changes, and the tables keep their integrity.\<close>

theorem cursors_only_grow:
  assumes ok: "db_ok (db s)" and events: "\<forall>req \<in> set reqs. event_ok req"
    and run: "run_state (for_each (serve_notify P ord) reqs) s = ((), s')"
  shows "db_ok (db s') \<and> channel_cursor (db s) u c \<le> channel_cursor (db s') u c \<and>
    dm_cursor (db s) u k \<le> dm_cursor (db s') u k \<and>
    (\<exists>rs ds. db s' = (db s)\<lparr>channel_read_state := rs, dm_read_state := ds\<rparr>)"
proof -
  let ?I = "\<lambda>x. db_ok (db x) \<and> reads_forward (db s) (db x)"
  have "preserves ?I (for_each (serve_notify P ord) reqs)"
    using events by (induction reqs)
      (auto intro!: preserves_intros preserves_serve_notify [OF notify_safe_forward])
  from preservesD [OF this run] ok have "?I s'" by simp
  then show ?thesis
    by (auto simp: reads_forward_def channel_cursors.forward_def dm_cursors.forward_def)
qed

theorem cursors_only_grow_witness:
  "\<exists>s'. run_state (for_each (serve_notify demo_env id)
       [ReqMarkChannelRead ''ua'' ''abb'', Event ''constell.user.offline'' None]) demo_notify = ((), s') \<and>
     channel_cursor (db demo_notify) ''ua'' ''abb'' \<le> channel_cursor (db s') ''ua'' ''abb''"
proof -
  let ?r = "[ReqMarkChannelRead ''ua'' ''abb'', Event ''constell.user.offline'' None]"
  obtain s' where run: "run_state (for_each (serve_notify demo_env id) ?r) demo_notify = ((), s')"
    by (cases "run_state (for_each (serve_notify demo_env id) ?r) demo_notify") simp
  have "\<forall>req \<in> set ?r. event_ok req" by (simp add: event_ok_def unmarshal_def)
  from cursors_only_grow [OF demo_notify_ok(1) this run] run show ?thesis by blast
qed

section \<open>Unread counts\<close>

lemma GetUnreadCounts_InrD:
  fixes s s' :: "'z infra_scheme"
  assumes run: "run_state (GetUnreadCounts P userID) s = (Inr r, s')"
  shows "\<exists>u. uuid_in P userID = Some u \<and>
    un_channels r = keep_unread (\<lambda>a b n. \<lparr>uc_channel_id = a, uc_community_id = b, uc_count = n\<rparr>)
      [(ch_id c, ch_community_id c, unread_in_channel (db s) u (ch_id c)).
        c \<leftarrow> channels (db s), m \<leftarrow> community_members (db s),
        mem_community_id m = ch_community_id c \<and> mem_user_id m = u] \<and>
    un_dms r = keep_unread (\<lambda>a b n. \<lparr>ud_conversation_id = a, ud_peer_id = b, ud_count = n\<rparr>)
      (map (\<lambda>c. (dc_id c, peer_of u c, unread_in_dm (db s) u (dc_id c)))
        (filter (\<lambda>c. dc_user_a_id c = u \<or> dc_user_b_id c = u) (dm_conversations (db s)))) \<and>
    un_channel_total r = total_of uc_count 0 (un_channels r) \<and>
    un_dm_total r = total_of ud_count 0 (un_dms r)"
proof -
  from run obtain chs dms and s1 s2 :: "'z infra_scheme" where
    chs: "run_state (store_GetUnreadChannels P userID) s = (Inr chs, s1)" and
    dms: "run_state (store_GetUnreadDMs P userID) s1 = (Inr dms, s2)" and
    r: "r = \<lparr>un_dm_total = total_of ud_count 0 dms, un_dms = dms,
             un_channel_total = total_of uc_count 0 chs, un_channels = chs\<rparr>"
    unfolding GetUnreadCounts_def by (elim handler_InrE) blast
  from chs obtain rows where q1: "run_state (pg_query P (sql_unread_channels P userID)) s = (Inr (rows, None), s1)"
    and chs': "chs = keep_unread (\<lambda>a b n. \<lparr>uc_channel_id = a, uc_community_id = b, uc_count = n\<rparr>) rows"
    by (auto simp: store_GetUnreadChannels_def split: prod.splits sum.splits option.splits)
  from dms obtain rows' where q2: "run_state (pg_query P (sql_unread_dms P userID)) s1 = (Inr (rows', None), s2)"
    and dms': "dms = keep_unread (\<lambda>a b n. \<lparr>ud_conversation_id = a, ud_peer_id = b, ud_count = n\<rparr>) rows'"
    by (auto simp: store_GetUnreadDMs_def split: prod.splits sum.splits option.splits)
  from pg_query_InrD [OF q1] have sel1: "sql_unread_channels P userID (db s) = Inr rows" "db s1 = db s"
    by auto
  from pg_query_InrD [OF q2] sel1(2) have sel2: "sql_unread_dms P userID (db s) = Inr rows'" by auto
  from sel1(1) obtain u where "uuid_in P userID = Some u"
    by (auto simp: sql_unread_channels_def uuid_param_Inr)
  with sel1(1) sel2 chs' dms' r show ?thesis
    by (simp add: sql_unread_channels_def sql_unread_dms_def uuid_param_def)
qed


lemma set_keep_unread:
  "set (keep_unread mk rows) = {mk a b (word_of_nat n) | a b n. (a, b, n) \<in> set rows \<and> 0 < n}"
  by (force simp: keep_unread_def)



text \<open>After a successful \<open>MarkChannelRead\<close> the channel is not unread: a \<open>GetUnreadCounts\<close> that
  answers does not list it.\<close>

theorem mark_channel_read_clears:
  fixes s s1 s2 :: "'z infra_scheme"
  assumes ok: "db_ok (db s)" and mark: "run_state (MarkChannelRead P userID channelID) s = (Inr (), s1)"
    and get: "run_state (GetUnreadCounts P userID) s1 = (Inr r, s2)"
  shows "\<exists>c. uuid_in P channelID = Some c \<and> c \<notin> uc_channel_id ` set (un_channels r)"
proof -
  from mark have "run_state (store_MarkChannelRead P userID channelID) s = (Inr (), s1)"
    unfolding MarkChannelRead_def by (elim handler_InrE) simp
  from exec_wrapped_InrD [OF this [unfolded store_MarkChannelRead_def]] obtain t where
    "sql_mark_channel_read P userID channelID t (db s) = Inr ((), db s1)" by blast
  then obtain u c where u: "uuid_in P userID = Some u" and c: "uuid_in P channelID = Some c"
    and put: "put_channel_cursor u c (max_seq (map cm_seq (filter (\<lambda>m. cm_channel_id m = c)
      (channel_messages (db s))))) (db s) = Inr ((), db s1)"
    by (auto simp: sql_mark_channel_read_def stmt_cases)
  define q where "q = max_seq (map cm_seq (filter (\<lambda>m. cm_channel_id m = c) (channel_messages (db s))))"
  have d1: "db s1 = advance_channel u c q (db s)"
    using put_channel_cursor_InrD [OF put] by (simp add: q_def)
  have "q \<le> channel_cursor (db s1) u c"
    unfolding d1 using message_seqs_nonneg(1) [OF ok]
    by (intro channel_cursors.advance_reaches) (simp add: q_def)
  moreover have "cm_seq m \<le> q" if "m \<in> set (channel_messages (db s1))" "cm_channel_id m = c" for m
    using that unfolding q_def d1 by (intro max_seq_upper) (auto simp: advance_channel_def)
  ultimately have "unread_in_channel (db s1) u c = 0"
    by (force simp: unread_in_channel_def filter_empty_conv)
  with GetUnreadCounts_InrD [OF get] u have "c \<notin> uc_channel_id ` set (un_channels r)"
    by (auto simp: set_keep_unread)
  with c show ?thesis by blast
qed

theorem mark_channel_read_clears_witness:
  "\<exists>s1 r s2. run_state (MarkChannelRead demo_env ''ua'' ''Abb'') demo_notify = (Inr (), s1) \<and>
     run_state (GetUnreadCounts demo_env ''ua'') s1 = (Inr r, s2) \<and> ''abb'' \<notin> uc_channel_id ` set (un_channels r)"
proof -
  let ?m = "run_state (MarkChannelRead demo_env ''ua'' ''Abb'') demo_notify"
  let ?g = "run_state (GetUnreadCounts demo_env ''ua'') (snd ?m)"
  have "fst ?m = Inr ()" and "(case fst ?g of Inl _ \<Rightarrow> False | Inr _ \<Rightarrow> True)"
    and abb: "uuid_in demo_env ''Abb'' = Some ''abb''" by code_simp+
  then obtain s1 r s2 where mark: "?m = (Inr (), s1)" and
    get: "run_state (GetUnreadCounts demo_env ''ua'') s1 = (Inr r, s2)"
    by (cases ?m; cases ?g) (auto split: sum.splits)
  from mark_channel_read_clears [OF demo_notify_ok(1) mark get] mark get abb show ?thesis by auto
qed

section \<open>Acknowledging\<close>

definition ignores_calls :: "('z infra_scheme \<Rightarrow> 'b) \<Rightarrow> bool" where
  "ignores_calls f \<longleftrightarrow>
     (\<forall>s os t d p. f (s\<lparr>outcomes := os, now := t\<rparr>) = f s \<and> f (s\<lparr>db := d\<rparr>) = f s \<and>
        f (s\<lparr>published := p\<rparr>) = f s)"

lemma keeps_calls:
  assumes "ignores_calls f"
  shows "keeps f (pg_exec stmt)" and "keeps f (pg_query P sel)" and "keeps f (nats_publish subj j)"
    and "keeps f (redis_get key)" and "keeps f (redis_pipeline_get keys)"
proof -
  have out: "keeps f next_outcome"
    using assms by (intro keeps_next_outcome) (simp add: ignores_calls_def)
  have f: "f (s\<lparr>db := d\<rparr>) = f s" "f (s\<lparr>published := p\<rparr>) = f s" for s d p
    using assms by (simp_all add: ignores_calls_def)
  show "keeps f (pg_exec stmt)"
    unfolding pg_exec_def
    by (rule keeps_bind [OF out])
       (auto simp: keeps_def f split: outcome.split sum.split prod.split)
  show "keeps f (pg_query P sel)" "keeps f (redis_get key)" "keeps f (redis_pipeline_get keys)"
    unfolding pg_query_def redis_get_def redis_pipeline_get_def Let_def
    by (intro keeps_bind [OF out] keeps_bind keeps_return; simp add: keeps_def)+
  show "keeps f (nats_publish subj j)"
    unfolding nats_publish_def
    by (rule keeps_bind [OF out])
       (auto simp: f split: outcome.split intro!: keeps_bind keeps_return keeps_modify)
qed

lemma ignores_acked: "ignores_calls acked"
  by (simp add: ignores_calls_def)

lemma keeps_acked_store:
  "keeps acked (store_AdvanceDMRead P u c q)" "keeps acked (store_AdvanceChannelRead P u c q)"
  unfolding store_AdvanceDMRead_def store_AdvanceChannelRead_def
  by (intro keeps_bind keeps_return keeps_calls ignores_acked)+

lemma keeps_acked_pushes:
  shows "keeps acked (pushToUser u p)" and "keeps acked (pushToUsers ord us p)"
    and "keeps acked (pushPresenceToContacts P ord u ty)"
proof -
  show "keeps acked (pushToUser u p)" "keeps acked (pushToUsers ord us p)" for u us p
    unfolding pushToUser_def pushToUsers_def Let_def
    by (intro preserves_intros keeps_calls ignores_acked)+
  then show "keeps acked (pushPresenceToContacts P ord u ty)"
    unfolding pushPresenceToContacts_def Let_def
    by (intro preserves_intros keeps_calls ignores_acked)
qed

definition acks_once :: "(notify_svc, unit) state \<Rightarrow> bool" where
  "acks_once m \<longleftrightarrow> (\<forall>s. acked (snd (run_state m s)) = Suc (acked s))"

lemma acks_once_intros:
  "acks_once Ack" "keeps acked m \<Longrightarrow> (\<And>x. acks_once (k x)) \<Longrightarrow> acks_once (State_Monad.bind m k)"
  "(\<And>e. acks_once (f e)) \<Longrightarrow> (\<And>x. acks_once (g x)) \<Longrightarrow> acks_once (case r of Inl e \<Rightarrow> f e | Inr x \<Rightarrow> g x)"
  by (auto simp: acks_once_def Ack_def keeps_def split: prod.split sum.split) (metis snd_conv)

text \<open>C19: Every event delivered on one of the four subjects is acknowledged exactly once, whether it
  can be read or not and whatever fails on the way, so JetStream never sends it again.\<close>

theorem event_acked_once:
  assumes "subject \<in> {''constell.dm.created'', ''constell.message.created'', ''constell.user.online'',
      ''constell.user.offline''}"
  shows "acked (snd (run_state (deliver P ord (subject, data)) s)) = Suc (acked s)"
proof -
  have "acks_once (handleDMCreated P data)" "acks_once (handleMessageCreated P data)"
    "acks_once (handleUserOnline P ord data)" "acks_once (handleUserOffline P ord data)"
    unfolding handleDMCreated_def handleMessageCreated_def handleUserOnline_def
      handleUserOffline_def Let_def
    by (intro acks_once_intros preserves_intros keeps_acked_store keeps_acked_pushes)+
  then have "acks_once (deliver P ord (subject, data))"
    using assms by (auto simp: deliver_def subscriptions_def)
  then show ?thesis by (simp add: acks_once_def)
qed

theorem event_acked_once_witness:
  "acked (snd (run_state (deliver demo_env id (''constell.dm.created'', None)) demo_notify)) = 1"
proof -
  have "acked demo_notify = 0" by (simp add: demo_notify_def notify_service_of_def infra.extend_def)
  then show ?thesis using event_acked_once [of "''constell.dm.created''"] by simp
qed

section \<open>Who is told of a message\<close>

text \<open>The gateways where some users are connected, one entry for each user who is.\<close>

definition gateways_online :: "'z infra_scheme \<Rightarrow> string list \<Rightarrow> string list" where
  "gateways_online s us = [g. u \<leftarrow> us, g \<leftarrow> (case live_key s (gateway_key u) of None \<Rightarrow> [] | Some g \<Rightarrow> [g])]"

lemma live_key_update [simp]:
  "live_key (s\<lparr>published := p\<rparr>) = live_key s" "live_key (s\<lparr>db := d\<rparr>) = live_key s"
  by (auto simp: live_key_def fun_eq_iff split: option.split)

lemma run_nats_publish_calm [run_simps]:
  "outcomes s = [] \<Longrightarrow> run_state (nats_publish subj j) s =
     (Inr (), s\<lparr>published := published s @ [(subj, j)]\<rparr>)"
  by (simp add: nats_publish_def run_next_outcome_calm)

lemma run_pushToUser_calm:
  "outcomes s = [] \<Longrightarrow> run_state (pushToUser u p) s =
     ((), s\<lparr>published := published s @ map (\<lambda>g. (gateway_topic g, marshal_push p)) (gateways_online s [u])\<rparr>)"
  by (simp add: pushToUser_def run_simps get_result_def gateways_online_def split: option.split)

lemma gateways_online_published [simp]:
  "gateways_online (s\<lparr>published := p\<rparr>) us = gateways_online s us"
  by (simp add: gateways_online_def)

lemma run_pushes_calm:
  "outcomes s = [] \<Longrightarrow> run_state (for_each (\<lambda>u. pushToUser u p) us) s =
     ((), s\<lparr>published := published s @ map (\<lambda>g. (gateway_topic g, marshal_push p)) (gateways_online s us)\<rparr>)"
proof (induction us arbitrary: s)
  case Nil
  then show ?case by (simp add: gateways_online_def)
next
  case (Cons u us)
  have "gateways_online s (u # us) = gateways_online s [u] @ gateways_online s us"
    by (simp add: gateways_online_def)
  with Cons show ?case by (simp add: run_pushToUser_calm)
qed

lemma store_AdvanceChannelRead_calm:
  "outcomes s = [] \<Longrightarrow> \<exists>r d. run_state (store_AdvanceChannelRead P u c q) s = (r, s\<lparr>db := d\<rparr>)"
  by (auto simp: store_AdvanceChannelRead_def run_simps split: sum.split prod.split)
     (metis infra.surjective infra.update_convs(1))+

definition message_payload :: "message_created_event \<Rightarrow> (string \<times> json) list" where
  "message_payload evt =
     [(''message_id'', JStr (me_message_id evt)), (''channel_id'', JStr (me_channel_id evt)),
      (''sender_id'', JStr (me_sender_id evt)), (''content'', JStr (NotifyService.truncate (me_content evt) 200)),
      (''created_at'', JNum (me_created_at evt)), (''seq'', JNum (me_seq evt))]"

definition message_targets :: "message_created_event \<Rightarrow> string list" where
  "message_targets evt = filter (\<lambda>m. m \<noteq> me_sender_id evt) (me_member_ids evt)"

definition message_push :: "message_created_event \<Rightarrow> notification_push" where
  "message_push evt = \<lparr>np_targets = message_targets evt, np_event_type = ''CHANNEL_MESSAGE_RECEIVED'',
     np_payload = message_payload evt\<rparr>"

lemma published_message_pushes:
  assumes calm: "outcomes s = []" and event: "read_MessageCreatedEvent j = Inr evt"
  shows "published (snd (run_state (handleMessageCreated P (Some j)) s)) = published s @
    map (\<lambda>g. (gateway_topic g, marshal_push (message_push evt))) (gateways_online s (message_targets evt))"
proof -
  let ?adv = "if me_sender_id evt \<noteq> [] then do {
      _ \<leftarrow> store_AdvanceChannelRead P (me_sender_id evt) (me_channel_id evt) (me_seq evt); ret () } else ret ()"
  obtain d where adv: "run_state ?adv s = ((), s\<lparr>db := d\<rparr>)"
    using store_AdvanceChannelRead_calm [OF calm, of P "me_sender_id evt" "me_channel_id evt" "me_seq evt"]
    by (cases "me_sender_id evt = []") (auto intro: that [of "db s"])
  have "gateways_online (s\<lparr>db := d\<rparr>) us = gateways_online s us" "gateways_online s [] = []" for us
    by (simp_all add: gateways_online_def)
  then show ?thesis
    using calm unfolding handleMessageCreated_def unmarshal_def option.case event sum.case Let_def
      message_targets_def [symmetric] message_payload_def [symmetric] message_push_def [symmetric]
    by (cases "message_targets evt = []") (simp_all add: adv run_pushes_calm Ack_def)
qed

text \<open>When nothing fails, a message event makes one push for every member other than the sender
  who is connected somewhere, on the topic of that member's gateway; each push lists all members
  but the sender, whichever gateway they are on. Members who are not connected get none.\<close>

theorem message_pushes:
  assumes "outcomes s = []" and "read_MessageCreatedEvent j = Inr evt"
  shows "published (snd (run_state (handleMessageCreated P (Some j)) s)) = published s @
    map (\<lambda>g. (gateway_topic g, marshal_push \<lparr>np_targets = message_targets evt,
      np_event_type = ''CHANNEL_MESSAGE_RECEIVED'', np_payload = message_payload evt\<rparr>))
      (gateways_online s (message_targets evt))"
  using published_message_pushes [OF assms] by (simp add: message_push_def)

theorem message_pushes_witness:
  "\<exists>payload. published (snd (run_state (handleMessageCreated demo_env
      (Some (JObj [(''sender_id'', JStr ''ua''), (''member_ids'', JArr [JStr ''ua'', JStr ''vb''])]))) demo_notify)) =
    [(''gw.push.g1'', marshal_push \<lparr>np_targets = [''vb''],
      np_event_type = ''CHANNEL_MESSAGE_RECEIVED'', np_payload = payload\<rparr>)]"
proof -
  let ?j = "JObj [(''sender_id'', JStr ''ua''), (''member_ids'', JArr [JStr ''ua'', JStr ''vb''])]"
  define evt where "evt = \<lparr>me_message_id = [], me_channel_id = [], me_community_id = [], me_sender_id = ''ua'',
    me_content = [], me_member_ids = [''ua'', ''vb''], me_created_at = 0, me_seq = 0\<rparr>"
  have "read_MessageCreatedEvent ?j = Inr evt"
    by (simp add: read_MessageCreatedEvent_def json_is_object_def json_field_def json_int64_def evt_def)
  from message_pushes [OF demo_notify_ok(2) this, of demo_env]
  show ?thesis
    by (simp add: evt_def message_targets_def demo_notify_def notify_service_of_def infra.extend_def demo_infra_def
        gateways_online_def live_key_def gateway_key_def gateway_topic_def) blast
qed

section \<open>Who is told of a presence\<close>

definition contact :: "database \<Rightarrow> string \<Rightarrow> string \<Rightarrow> bool" where
  "contact d u v \<longleftrightarrow>
     (\<exists>r \<in> set (user_relations d). rel_type r = ''friend'' \<and>
        (rel_user_id r, rel_target_user_id r) \<in> {(u, v), (v, u)}) \<or>
     (v \<noteq> u \<and> (\<exists>c. has_member d c u \<and> has_member d c v))"

lemma set_contacts:
  assumes u: "uuid_in P userID = Some u"
    and fr: "sql_friends_of P userID d = Inr fs" and co: "sql_co_members P userID d = Inr ms"
  shows "set fs \<union> set ms = {v. contact d u v}"
proof -
  have fs: "fs = map (\<lambda>r. if rel_user_id r = u then rel_target_user_id r else rel_user_id r)
      (filter (\<lambda>r. (rel_user_id r = u \<or> rel_target_user_id r = u) \<and> rel_type r = ''friend'') (user_relations d))"
    using fr u by (simp add: sql_friends_of_def uuid_param_def)
  have A: "v \<in> set fs \<longleftrightarrow> (\<exists>r \<in> set (user_relations d). rel_type r = ''friend'' \<and>
      (rel_user_id r = u \<or> rel_target_user_id r = u) \<and>
      v = (if rel_user_id r = u then rel_target_user_id r else rel_user_id r))" for v
    unfolding fs set_map set_filter by blast
  have B: "(\<exists>r \<in> set (user_relations d). rel_type r = ''friend'' \<and>
      (rel_user_id r = u \<or> rel_target_user_id r = u) \<and>
      v = (if rel_user_id r = u then rel_target_user_id r else rel_user_id r)) \<longleftrightarrow> (\<exists>r \<in> set (user_relations d). rel_type r = ''friend'' \<and>
      (rel_user_id r, rel_target_user_id r) \<in> {(u, v), (v, u)})" for v
    by (rule bex_cong) auto
  have "set fs = {v. \<exists>r \<in> set (user_relations d). rel_type r = ''friend'' \<and>
      (rel_user_id r, rel_target_user_id r) \<in> {(u, v), (v, u)}}"
    by (rule set_eqI) (simp only: A B mem_Collect_eq)
  moreover have "set ms = {v. v \<noteq> u \<and> (\<exists>c. has_member d c u \<and> has_member d c v)}"
  proof -
    have member: "has_member d c x \<longleftrightarrow>
        (\<exists>m \<in> set (community_members d). mem_community_id m = c \<and> mem_user_id m = x)" for c x
      by (auto simp: has_member_def member_key_def)
    have "set ms = {mem_user_id m2 | m1 m2. m1 \<in> set (community_members d) \<and> m2 \<in> set (community_members d) \<and>
        mem_community_id m1 = mem_community_id m2 \<and> mem_user_id m1 = u \<and> mem_user_id m2 \<noteq> u}"
    proof -
      have "ms = remdups [mem_user_id m2. m1 \<leftarrow> community_members d, m2 \<leftarrow> community_members d,
          mem_community_id m1 = mem_community_id m2 \<and> mem_user_id m1 = u \<and> mem_user_id m2 \<noteq> u]"
        using co u by (simp add: sql_co_members_def uuid_param_def)
      then show ?thesis by (simp, blast)
    qed
    then show ?thesis unfolding member by (simp add: set_eq_iff) metis
  qed
  ultimately show ?thesis by (auto simp: contact_def)
qed

lemma on_gateway_online:
  "on_gateway (zip us (map (get_result s) (map gateway_key us))) g =
   filter (\<lambda>u. live_key s (gateway_key u) = Some g) us"
  by (induction us) (auto simp: on_gateway_def get_result_def split: option.split)

lemma gateways_of_online:
  "set (gateways_of (zip us (map (get_result s) (map gateway_key us)))) =
   {g. \<exists>u \<in> set us. live_key s (gateway_key u) = Some g}"
  by (induction us) (auto simp: gateways_of_def get_result_def split: option.splits)

lemma run_publishes_calm:
  "outcomes s = [] \<Longrightarrow> run_state (for_each (\<lambda>x. do { _ \<leftarrow> nats_publish (t x) (f x); ret () }) xs) s =
     ((), s\<lparr>published := published s @ map (\<lambda>x. (t x, f x)) xs\<rparr>)"
  by (induction xs arbitrary: s) (simp_all add: run_nats_publish_calm)

lemma run_pushToUsers_calm:
  assumes "outcomes s = []"
  shows "run_state (pushToUsers ord us p) s = ((), s\<lparr>published := published s @
    map (\<lambda>g. (gateway_topic g, marshal_push (p\<lparr>np_targets :=
      filter (\<lambda>u. live_key s (gateway_key u) = Some g) us\<rparr>)))
    (ord (gateways_of (zip us (map (get_result s) (map gateway_key us)))))\<rparr>)"
  using assms
  by (simp add: pushToUsers_def run_simps run_publishes_calm Let_def on_gateway_online del: map_map)

text \<open>When nothing fails, a user's coming online is told to exactly the friends and co-members who
  are connected: there is one push for each gateway that holds such a contact, on the gateway's
  topic, and it lists each contact connected there once, in whatever order the maps are iterated.\<close>

theorem presence_pushes:
  fixes ord :: "string list \<Rightarrow> string list"
  assumes calm: "outcomes s = []" and set_ord: "\<And>xs. set (ord xs) = set xs"
    and distinct_ord: "\<And>xs. distinct xs \<Longrightarrow> distinct (ord xs)"
    and event: "read_user_online j = Inr userID" and u: "uuid_in P userID = Some u"
  shows "\<exists>ps. published (snd (run_state (handleUserOnline P ord (Some j)) s)) =
      published s @ map (\<lambda>(g, p). (gateway_topic g, marshal_push p)) ps \<and>
    distinct (map fst ps) \<and>
    fst ` set ps = {g. \<exists>v. contact (db s) u v \<and> live_key s (gateway_key v) = Some g} \<and>
    (\<forall>(g, p) \<in> set ps. distinct (np_targets p) \<and> np_event_type p = ''USER_ONLINE'' \<and>
      np_payload p = [(''user_id'', JStr userID)] \<and>
      set (np_targets p) = {v. contact (db s) u v \<and> live_key s (gateway_key v) = Some g})"
proof -
  obtain fs ms where sel: "sql_friends_of P userID (db s) = Inr fs" "sql_co_members P userID (db s) = Inr ms"
    using u by (simp add: sql_friends_of_def sql_co_members_def uuid_param_def)
  define contacts where "contacts = ord (remdups (fs @ ms))"
  have contacts: "set contacts = {v. contact (db s) u v}" "distinct contacts"
    using set_contacts [OF u sel] by (simp_all add: contacts_def set_ord distinct_ord)
  define gs where "gs = ord (gateways_of (zip contacts (map (get_result s) (map gateway_key contacts))))"
  have gs: "set gs = {g. \<exists>v. contact (db s) u v \<and> live_key s (gateway_key v) = Some g}" "distinct gs"
    using gateways_of_online [of contacts s] contacts(1)
    by (auto simp: gs_def set_ord intro!: distinct_ord) (simp add: gateways_of_def)
  define push where "push g = \<lparr>np_targets = filter (\<lambda>v. live_key s (gateway_key v) = Some g) contacts,
    np_event_type = ''USER_ONLINE'', np_payload = [(''user_id'', JStr userID)]\<rparr>" for g
  have "published (snd (run_state (handleUserOnline P ord (Some j)) s)) =
      published s @ map (\<lambda>g. (gateway_topic g, marshal_push (push g))) gs"
  proof (cases "remdups (fs @ ms) = []")
    case True
    then have "contacts = []" using set_ord [of "[]"] by (simp add: contacts_def)
    then have "gs = []" using gs(1) contacts(1) by auto
    with True show ?thesis
      using calm sel
      by (simp add: handleUserOnline_def unmarshal_def event pushPresenceToContacts_def run_simps
          rows_of_def Ack_def)
  next
    case False
    show ?thesis
      using calm sel False
      by (simp add: handleUserOnline_def unmarshal_def event pushPresenceToContacts_def run_simps
          run_pushToUsers_calm rows_of_def Ack_def contacts_def gs_def push_def Let_def
          del: remdups_eq_nil_iff)
  qed
  then show ?thesis
    using gs contacts by (intro exI [of _ "map (\<lambda>g. (g, push g)) gs"])
      (auto simp: push_def image_image comp_def)
qed

theorem presence_pushes_witness:
  "\<exists>ps. published (snd (run_state (handleUserOnline demo_env id
      (Some (JObj [(''user_id'', JStr ''ua''), (''gw_id'', JStr ''g1'')]))) demo_notify)) =
      map (\<lambda>(g, p). (gateway_topic g, marshal_push p)) ps \<and>
    fst ` set ps = {''g1''}"
proof -
  let ?j = "JObj [(''user_id'', JStr ''ua''), (''gw_id'', JStr ''g1'')]"
  have event: "read_user_online ?j = Inr ''ua''"
    by (simp add: read_user_online_def read_user_id_def json_is_object_def json_field_def)
  have u: "uuid_in demo_env ''ua'' = Some ''ua''" by code_simp
  have members: "map member_key (community_members (db demo_sent)) = [(''a'', ''ua''), (''a'', ''vb'')]"
    and rels: "user_relations (db demo_sent) = []" by code_simp+
  have "member_key ` set (community_members (db demo_sent)) = {(''a'', ''ua''), (''a'', ''vb'')}"
    using arg_cong [OF members, of set] by simp
  then have "has_member (db demo_sent) c x \<longleftrightarrow> c = ''a'' \<and> x \<in> {''ua'', ''vb''}" for c x
    by (auto simp: has_member_def)
  then have contact: "contact (db demo_notify) ''ua'' v \<longleftrightarrow> v = ''vb''" for v
    by (auto simp: contact_def demo_notify_db rels)
  have "live_key demo_notify (gateway_key ''vb'') = Some ''g1''"
    by (simp add: live_key_def gateway_key_def demo_notify_def notify_service_of_def
        infra.extend_def demo_infra_def)
  moreover have "published demo_notify = []"
    by (simp add: demo_notify_def notify_service_of_def infra.extend_def demo_infra_def)
  ultimately show ?thesis
    using presence_pushes [OF demo_notify_ok(2) _ _ event u, of id] by (auto simp: contact)
qed

end
