(* ===== verification/Jwt.thy ===== *)
theory Jwt
  imports Postgres
begin

text \<open>
  \<open>backend/pkg/jwt/jwt.go\<close> and \<open>backend/pkg/middleware/auth.go\<close>: making a token for a user, reading
  one, and the interceptor in front of every service that needs a caller.

  The library \<open>golang-jwt\<close> is a parameter: signing claims with a secret, and parsing a token at an
  instant, which checks the signature, the method and the expiry. \<open>jwt_ok\<close> states what its
  documentation promises of a token that was signed with the same secret.
\<close>

section \<open>Tokens\<close>

text \<open>Instants in claims are whole seconds (\<open>jwt.NewNumericDate\<close>).\<close>

record claims =
  cl_sub :: string
  cl_iat :: int
  cl_exp :: int

record jwt_env =
  jwt_sign :: "string \<Rightarrow> claims \<Rightarrow> go_error + string"
  jwt_parse :: "string \<Rightarrow> int \<Rightarrow> string \<Rightarrow> go_error + string"   \<comment> \<open>secret, instant, token; the subject\<close>

definition jwt_ok :: "'e jwt_env_scheme \<Rightarrow> string \<Rightarrow> bool" where
  "jwt_ok E secret \<longleftrightarrow>
     (\<forall>c tok. jwt_sign E secret c = Inr tok \<longrightarrow>
        tok \<noteq> [] \<and>
        (\<forall>t. if t < cl_exp c * 1000000 then jwt_parse E secret t tok = Inr (cl_sub c)
             else \<exists>e. jwt_parse E secret t tok = Inl e))"

lemma jwt_okD:
  assumes "jwt_ok E secret" and "jwt_sign E secret c = Inr tok"
  shows "tok \<noteq> []" and "t < cl_exp c * 1000000 \<Longrightarrow> jwt_parse E secret t tok = Inr (cl_sub c)"
    and "\<not> t < cl_exp c * 1000000 \<Longrightarrow> \<exists>e. jwt_parse E secret t tok = Inl e"
  using assms unfolding jwt_ok_def by (blast, (metis (full_types))+)

definition GenerateToken ::
  "'e jwt_env_scheme \<Rightarrow> string \<Rightarrow> string \<Rightarrow> int \<Rightarrow> ('z infra_scheme, go_error + (string \<times> int)) state" where
  "GenerateToken E secret userID ttl = do {
     t \<leftarrow> gets now;
     let expiresAt = t + ttl;
     ret (case jwt_sign E secret
                 \<lparr>cl_sub = userID, cl_iat = unix t, cl_exp = unix expiresAt\<rparr> of
            Inl err \<Rightarrow> Inl (Wrap ''sign token'' err)
          | Inr tok \<Rightarrow> Inr (tok, unix expiresAt))
   }"

definition ParseToken ::
  "'e jwt_env_scheme \<Rightarrow> string \<Rightarrow> string \<Rightarrow> ('z infra_scheme, go_error + string) state" where
  "ParseToken E secret tokenString = do {
     t \<leftarrow> gets now;
     ret (if tokenString = [] then Inl (Errorf ''empty token'')
          else wrap_err ''parse token'' (jwt_parse E secret t tokenString))
   }"

lemma preserves_tokens [preserves_intros]:
  "preserves I (GenerateToken E k u ttl)" "preserves I (ParseToken E k tok)"
  unfolding GenerateToken_def ParseToken_def Let_def by (intro preserves_intros)+

lemma run_ParseToken [run_simps]:
  "run_state (ParseToken E k tok) s =
     (if tok = [] then Inl (Errorf ''empty token'') else wrap_err ''parse token'' (jwt_parse E k (now s) tok), s)"
  by (simp add: ParseToken_def)

lemma GenerateToken_InrD:
  "run_state (GenerateToken E k u ttl) s = (Inr (tok, e), s') \<Longrightarrow>
   s' = s \<and> e = unix (now s + ttl) \<and>
   jwt_sign E k \<lparr>cl_sub = u, cl_iat = unix (now s), cl_exp = unix (now s + ttl)\<rparr> = Inr tok"
  by (auto simp: GenerateToken_def Let_def split: sum.splits)

section \<open>The interceptor\<close>

text \<open>
  \<open>strings.SplitN(s, " ", 2)\<close>, and \<open>strings.EqualFold\<close> with a text of ASCII letters that have no
  other case variants.
\<close>

definition split_space :: "string \<Rightarrow> string list" where
  "split_space s =
     (case dropWhile (\<lambda>c. c \<noteq> CHR '' '') s of
        [] \<Rightarrow> [s]
      | _ # rest \<Rightarrow> [takeWhile (\<lambda>c. c \<noteq> CHR '' '') s, rest])"

definition ascii_lower :: "char \<Rightarrow> char" where
  "ascii_lower c =
     (let n = (of_char c :: nat) in if 65 \<le> n \<and> n \<le> 90 then char_of (n + 32) else c)"

definition equal_fold :: "string \<Rightarrow> string \<Rightarrow> bool" where
  "equal_fold s t \<longleftrightarrow> map ascii_lower s = map ascii_lower t"

text \<open>
  A request carries its procedure and its \<open>Authorization\<close> header (empty when it is absent); the
  user id that the interceptor puts into the context is the argument of the next handler, empty
  when there is none.
\<close>

definition AuthInterceptor ::
  "'e jwt_env_scheme \<Rightarrow> string \<Rightarrow> string list \<Rightarrow> (string \<Rightarrow> ('z infra_scheme, 'a) handler) \<Rightarrow>
   string \<Rightarrow> string \<Rightarrow> ('z infra_scheme, 'a) handler" where
  "AuthInterceptor E jwtSecret skipPaths next procedure authHeader =
     (if procedure \<in> set skipPaths then next []
      else
        guard_that (authHeader \<noteq> []) CodeUnauthenticated ''missing Authorization header'' (
        let parts = split_space authHeader in
        guard_that (length parts = 2 \<and> equal_fold (parts ! 0) ''Bearer'') CodeUnauthenticated
          ''invalid Authorization header format, expected Bearer <token>'' (
        let tokenString = parts ! 1 in
        try_call (wrapped CodeUnauthenticated ''invalid token'')
          (ParseToken E jwtSecret tokenString) next)))"

lemma preserves_AuthInterceptor [preserves_intros]:
  "(\<And>u. preserves I (next u)) \<Longrightarrow> preserves I (AuthInterceptor E k skip next p h)"
  unfolding AuthInterceptor_def Let_def by (intro preserves_intros)

lemma split_bearer: "CHR '' '' \<notin> set a \<Longrightarrow> split_space (a @ CHR '' '' # tok) = [a, tok]"
  by (induction a) (auto simp: split_space_def split: list.splits)

text \<open>The one thing the interceptor decides: either it refuses, or the next handler runs for the
  subject of the token in the header.\<close>

definition header_token :: "string \<Rightarrow> string option" where
  "header_token h =
     (case split_space h of
        [scheme, tok] \<Rightarrow> (if equal_fold scheme ''Bearer'' \<and> tok \<noteq> [] then Some tok else None)
      | _ \<Rightarrow> None)"

lemma header_token_bearer: "tok \<noteq> [] \<Longrightarrow> header_token (''Bearer '' @ tok) = Some tok"
  using split_bearer [of "''Bearer''" tok] by (simp add: header_token_def equal_fold_def)

lemma AuthInterceptor_cases:
  assumes "procedure \<notin> set skipPaths"
  obtains (refused) m where
      "run_state (AuthInterceptor E k skipPaths next procedure h) s = (Inl (NewError CodeUnauthenticated m), s)"
  | (passed) tok u where "header_token h = Some tok" "jwt_parse E k (now s) tok = Inr u"
      "run_state (AuthInterceptor E k skipPaths next procedure h) s = run_state (next u) s"
proof -
  let ?run = "run_state (AuthInterceptor E k skipPaths next procedure h) s"
  consider "h = []" | "h \<noteq> []" "\<not> (length (split_space h) = 2 \<and> equal_fold (split_space h ! 0) ''Bearer'')"
    | a tok where "h \<noteq> []" "split_space h = [a, tok]" "equal_fold a ''Bearer''"
    by (cases "split_space h"; cases "tl (split_space h)"; cases "tl (tl (split_space h))") auto
  then show thesis
  proof cases
    case 1
    with assms have "?run = (Inl (NewError CodeUnauthenticated (Errorf ''missing Authorization header'')), s)"
      by (simp add: AuthInterceptor_def run_simps)
    then show thesis by (rule refused)
  next
    case 2
    with assms have "?run = (Inl (NewError CodeUnauthenticated
        (Errorf ''invalid Authorization header format, expected Bearer <token>'')), s)"
      by (auto simp: AuthInterceptor_def run_simps Let_def)
    then show thesis by (rule refused)
  next
    case (3 a tok)
    with assms have run: "?run = (case (if tok = [] then Inl (Errorf ''empty token'')
        else wrap_err ''parse token'' (jwt_parse E k (now s) tok)) of
          Inl e \<Rightarrow> (Inl (wrapped CodeUnauthenticated ''invalid token'' e), s) | Inr u \<Rightarrow> run_state (next u) s)"
      by (simp add: AuthInterceptor_def run_simps split: sum.split)
    show thesis
    proof (cases "if tok = [] then Inl (Errorf ''empty token'') else wrap_err ''parse token'' (jwt_parse E k (now s) tok)")
      case (Inl e)
      with run have "?run = (Inl (NewError CodeUnauthenticated (Wrap ''invalid token'' e)), s)"
        by (simp add: wrapped_def)
      then show thesis by (rule refused)
    next
      case (Inr u)
      then have "tok \<noteq> []" "jwt_parse E k (now s) tok = Inr u" by (auto split: if_splits)
      with 3 run show thesis by (intro passed [of tok u]) (simp_all add: header_token_def)
    qed
  qed
qed

lemma AuthInterceptor_bearer:
  assumes "jwt_parse E k (now s) tok = Inr u" and "tok \<noteq> []" and "procedure \<notin> set skipPaths"
  shows "run_state (AuthInterceptor E k skipPaths next procedure (''Bearer '' @ tok)) s = run_state (next u) s"
  using split_bearer [of "''Bearer''" tok] assms
  by (simp add: AuthInterceptor_def run_simps equal_fold_def)

end
