(* ===== verification/AuthService.thy ===== *)
theory AuthService
  imports Jwt Redis
begin

text \<open>
  \<open>backend/services/auth-service\<close>: registration, login and the rotation of refresh tokens, with
  the two statements on \<open>users\<close> and the refresh tokens in Redis.

  Besides the token library, bcrypt and SHA-256 are parameters: hashing a password at the n-th
  call (the salt is fresh each time), comparing one with a hash, and the hex digest of a text.
\<close>

record auth_env = jwt_env +
  bcrypt_hash :: "nat \<Rightarrow> string \<Rightarrow> go_error + string"
  bcrypt_compare :: "string \<Rightarrow> string \<Rightarrow> bool"       \<comment> \<open>hash, password\<close>
  sha256_hex :: "string \<Rightarrow> string"

record auth_svc = infra +
  salts :: nat     \<comment> \<open>calls of bcrypt so far\<close>

text \<open>A password matches the hash made from it.\<close>

definition auth_env_ok :: "auth_env \<Rightarrow> string \<Rightarrow> bool" where
  "auth_env_ok E secret \<longleftrightarrow>
     jwt_ok E secret \<and> (\<forall>n p h. bcrypt_hash E n p = Inr h \<longrightarrow> bcrypt_compare E h p)"

section \<open>Passwords\<close>

definition hashPassword :: "auth_env \<Rightarrow> string \<Rightarrow> (auth_svc, go_error + string) state" where
  "hashPassword E password = do {
     n \<leftarrow> gets salts;
     modify (\<lambda>s. s\<lparr>salts := Suc n\<rparr>);
     ret (bcrypt_hash E n password)
   }"

definition checkPassword :: "auth_env \<Rightarrow> string \<Rightarrow> string \<Rightarrow> bool" where
  "checkPassword E password hash = bcrypt_compare E hash password"

section \<open>Repository\<close>

definition new_user :: "pg_env \<Rightarrow> string \<Rightarrow> string \<Rightarrow> string \<Rightarrow> int \<Rightarrow> database \<Rightarrow> user_table_row" where
  "new_user P nickname email hash t d =
     \<lparr>u_id = gen_uuid P (uuid_count d), u_email = email, u_password_hash = hash,
      u_nickname = nickname, u_avatar_url = [], u_status_message = [],
      u_created_at = t, u_updated_at = t\<rparr>"

definition sql_insert_user :: "pg_env \<Rightarrow> string \<Rightarrow> string \<Rightarrow> string \<Rightarrow> string list stmt" where
  "sql_insert_user P nickname email hash t d =
     (let r = new_user P nickname email hash t d in
      if has_user d (u_id r) \<or> email \<in> u_email ` set (users d) then Inl UniqueViolation
      else Inr ([u_id r], d\<lparr>users := users d @ [r], uuid_count := Suc (uuid_count d)\<rparr>))"

definition repo_CreateUser ::
  "pg_env \<Rightarrow> string \<Rightarrow> string \<Rightarrow> string \<Rightarrow> (auth_svc, go_error + string) state" where
  "repo_CreateUser P nickname email hashedPassword = do {
     r \<leftarrow> pg_query_row (sql_insert_user P nickname email hashedPassword);
     ret (wrap_err ''insert user'' r)
   }"

record auth_user =
  au_id :: string
  au_email :: string
  au_password_hash :: string
  au_nickname :: string
  au_created_at :: int
  au_updated_at :: int

definition sql_select_user_by_email :: "string \<Rightarrow> auth_user list stmt" where
  "sql_select_user_by_email email t d =
     Inr (map (\<lambda>u. \<lparr>au_id = u_id u, au_email = u_email u, au_password_hash = u_password_hash u,
                    au_nickname = u_nickname u, au_created_at = u_created_at u,
                    au_updated_at = u_updated_at u\<rparr>)
            (filter (\<lambda>u. u_email u = email) (users d)), d)"

definition repo_GetUserByEmail :: "string \<Rightarrow> (auth_svc, go_error + auth_user) state" where
  "repo_GetUserByEmail email = do {
     r \<leftarrow> pg_query_row (sql_select_user_by_email email);
     ret (case r of
            Inl e \<Rightarrow> if e = NoRows then Inl (Wrap ''user not found'' e)
                     else Inl (Wrap ''query user by email'' e)
          | Inr u \<Rightarrow> Inr u)
   }"

section \<open>Tokens\<close>

definition accessTokenExpiry :: int where
  "accessTokenExpiry = 15 * 60 * 1000000"

definition refreshTokenExpiry :: int where
  "refreshTokenExpiry = 7 * 24 * 3600 * 1000000"

record token_pair =
  AccessToken :: string
  Refresh_Token :: string
  ExpiresAt :: int

definition hashToken :: "auth_env \<Rightarrow> string \<Rightarrow> string" where
  "hashToken E token = sha256_hex E token"

definition refresh_prefix :: string where
  "refresh_prefix = ''refresh:''"

definition refresh_key :: "auth_env \<Rightarrow> string \<Rightarrow> string" where
  "refresh_key E token = refresh_prefix @ hashToken E token"

definition try_go :: "string \<Rightarrow> ('s, go_error + 'a) state \<Rightarrow> ('a \<Rightarrow> ('s, go_error + 'b) state) \<Rightarrow>
    ('s, go_error + 'b) state" where
  "try_go msg m k = do { r \<leftarrow> m; (case r of Inl e \<Rightarrow> ret (Inl (Wrap msg e)) | Inr x \<Rightarrow> k x) }"

definition generateTokenPair ::
  "auth_env \<Rightarrow> string \<Rightarrow> string \<Rightarrow> (auth_svc, go_error + token_pair) state" where
  "generateTokenPair E jwtSecret userID =
     try_go ''generate access token'' (GenerateToken E jwtSecret userID accessTokenExpiry)
       (\<lambda>(accessToken, _).
     try_go ''generate refresh token'' (GenerateToken E jwtSecret userID refreshTokenExpiry)
       (\<lambda>(refreshToken, _).
     try_go ''store refresh token''
       (redis_set (refresh_key E refreshToken) userID refreshTokenExpiry) (\<lambda>_. do {
     t \<leftarrow> gets now;
     ret (Inr \<lparr>AccessToken = accessToken, Refresh_Token = refreshToken,
               ExpiresAt = unix (t + accessTokenExpiry)\<rparr>)
     })))"

section \<open>Handlers\<close>

definition Register ::
  "pg_env \<Rightarrow> auth_env \<Rightarrow> string \<Rightarrow> string \<Rightarrow> string \<Rightarrow> string \<Rightarrow> (auth_svc, string \<times> token_pair) handler" where
  "Register P E jwtSecret mEmail password mNickname =
     (let email = trim_space mEmail; nickname = trim_space mNickname in
     guard_that (email \<noteq> [] \<and> password \<noteq> [] \<and> nickname \<noteq> []) CodeInvalidArgument
       ''email, password, and nickname are required'' (
     guard_that (8 \<le> length password) CodeInvalidArgument
       ''password must be at least 8 characters'' (do {
     taken \<leftarrow> repo_GetUserByEmail email;
     guard_that (isl taken) CodeAlreadyExists ''email already registered'' (
     try_call (wrapped CodeInternal ''failed to hash password'') (hashPassword E password)
       (\<lambda>hashedPassword.
     try_call (wrapped CodeInternal ''failed to create user'')
       (repo_CreateUser P nickname email hashedPassword) (\<lambda>userID.
     try_call (wrapped CodeInternal ''failed to generate tokens'')
       (generateTokenPair E jwtSecret userID) (\<lambda>pair.
     ok (userID, pair)))))
     })))"

definition Login ::
  "auth_env \<Rightarrow> string \<Rightarrow> string \<Rightarrow> string \<Rightarrow> (auth_svc, string \<times> token_pair) handler" where
  "Login E jwtSecret mEmail password =
     (let email = trim_space mEmail in
     guard_that (email \<noteq> [] \<and> password \<noteq> []) CodeInvalidArgument
       ''email and password are required'' (
     try_call (replaced CodeUnauthenticated ''invalid email or password'')
       (repo_GetUserByEmail email) (\<lambda>user.
     guard_that (checkPassword E password (au_password_hash user)) CodeUnauthenticated
       ''invalid email or password'' (
     try_call (wrapped CodeInternal ''failed to generate tokens'')
       (generateTokenPair E jwtSecret (au_id user)) (\<lambda>pair.
     ok (au_id user, pair))))))"

definition RefreshToken :: "auth_env \<Rightarrow> string \<Rightarrow> string \<Rightarrow> (auth_svc, token_pair) handler" where
  "RefreshToken E jwtSecret token =
     guard_that (token \<noteq> []) CodeInvalidArgument ''refresh_token is required'' (do {
     let redisKey = refresh_key E token;
     found \<leftarrow> redis_get redisKey;
     (case found of
        Inl err \<Rightarrow>
          if err = RedisNil then fail CodeUnauthenticated ''invalid or expired refresh token''
          else ret (Inl (wrapped CodeInternal ''redis lookup failed'' err))
      | Inr userID \<Rightarrow> do {
          _ \<leftarrow> redis_del redisKey;
          try_call (wrapped CodeInternal ''failed to generate tokens'')
            (generateTokenPair E jwtSecret userID) ok
        })
     })"

section \<open>What the parts do\<close>

lemma run_try_go [run_simps]:
  "run_state (try_go msg m k) s =
     (case run_state m s of (Inl e, s1) \<Rightarrow> (Inl (Wrap msg e), s1) | (Inr x, s1) \<Rightarrow> run_state (k x) s1)"
  by (simp add: try_go_def split: prod.split sum.split)

lemma try_go_InrE:
  assumes "run_state (try_go msg m k) s = (Inr y, s')"
  obtains x s1 where "run_state m s = (Inr x, s1)" and "run_state (k x) s1 = (Inr y, s')"
  using assms by (auto simp: try_go_def split: prod.splits sum.splits)

lemma preserves_try_go [preserves_intros]:
  "preserves I m \<Longrightarrow> (\<And>x. preserves I (k x)) \<Longrightarrow> preserves I (try_go msg m k)"
  unfolding try_go_def by (intro preserves_intros)

lemma next_outcome_time:
  assumes "run_state next_outcome s = (o1, s1)"
  shows "\<exists>os t. s1 = s\<lparr>outcomes := os, now := t\<rparr> \<and> now s \<le> t"
proof (cases "outcomes s")
  case Nil
  with assms have "s1 = s\<lparr>outcomes := outcomes s, now := now s\<rparr>" by (simp add: next_outcome_def)
  then show ?thesis by blast
next
  case (Cons a os)
  with assms have "s1 = s\<lparr>outcomes := os, now := now s + int (snd a)\<rparr>"
    by (simp add: next_outcome_def split: prod.splits)
  then show ?thesis by (intro exI [of _ os] exI [of _ "now s + int (snd a)"]) simp
qed

lemma redis_set_InrD:
  assumes "run_state (redis_set key v ttl) s = (Inr x, s')"
  shows "\<exists>os t. now s \<le> t \<and> s' = s\<lparr>outcomes := os, now := t, redis := (redis s)(key \<mapsto> (v, t + ttl))\<rparr>"
proof -
  obtain o1 s1 where o1: "run_state next_outcome s = (o1, s1)" by fastforce
  then obtain os t where s1: "s1 = s\<lparr>outcomes := os, now := t\<rparr>" "now s \<le> t"
    using next_outcome_time by blast
  with assms o1 show ?thesis
    by (auto simp: redis_set_def split: if_splits)
qed

lemma redis_get_InrD:
  assumes "run_state (redis_get key) s = (Inr v, s')"
  shows "\<exists>os t e. now s \<le> t \<and> s' = s\<lparr>outcomes := os, now := t\<rparr> \<and> redis s key = Some (v, e) \<and> t < e"
proof -
  obtain o1 s1 where o1: "run_state next_outcome s = (o1, s1)" by fastforce
  then obtain os t where s1: "s1 = s\<lparr>outcomes := os, now := t\<rparr>" "now s \<le> t"
    using next_outcome_time by blast
  with assms o1 show ?thesis
    by (auto simp: redis_get_def get_result_def live_key_def State_Monad.get_def
        split: if_splits option.splits) blast
qed

text \<open>What a pair of tokens is: two tokens of the user made now, the refresh token in Redis.\<close>

definition token_pair_for :: "auth_env \<Rightarrow> string \<Rightarrow> string \<Rightarrow> int \<Rightarrow> token_pair \<Rightarrow> bool" where
  "token_pair_for E k u t pair \<longleftrightarrow>
     jwt_sign E k \<lparr>cl_sub = u, cl_iat = unix t, cl_exp = unix (t + accessTokenExpiry)\<rparr> = Inr (AccessToken pair) \<and>
     jwt_sign E k \<lparr>cl_sub = u, cl_iat = unix t, cl_exp = unix (t + refreshTokenExpiry)\<rparr> = Inr (Refresh_Token pair)"

lemma generateTokenPair_InrD:
  assumes "run_state (generateTokenPair E k u) s = (Inr pair, s')"
  shows "token_pair_for E k u (now s) pair \<and> (\<exists>os t. now s \<le> t \<and>
    s' = s\<lparr>outcomes := os, now := t,
      redis := (redis s)(refresh_key E (Refresh_Token pair) \<mapsto> (u, t + refreshTokenExpiry))\<rparr> \<and>
    ExpiresAt pair = unix (t + accessTokenExpiry))"
  using assms unfolding generateTokenPair_def
  by (elim try_go_InrE)
     (auto simp: token_pair_for_def dest!: GenerateToken_InrD redis_set_InrD elim!: try_go_InrE;
      blast)

lemma sql_insert_user_InrD:
  "sql_insert_user P nick email h t d = Inr (xs, d') \<Longrightarrow>
   xs = [gen_uuid P (uuid_count d)] \<and> email \<notin> u_email ` set (users d) \<and>
   \<not> has_user d (gen_uuid P (uuid_count d)) \<and>
   d' = d\<lparr>users := users d @ [new_user P nick email h t d], uuid_count := Suc (uuid_count d)\<rparr>"
  by (auto simp: sql_insert_user_def Let_def new_user_def split: if_splits)

lemma reads_only_select_user: "reads_only (sql_select_user_by_email e)"
  by (simp add: reads_only_def sql_select_user_by_email_def)

end
