(* ===== verification/AuthFacts.thy ===== *)
theory AuthFacts
  imports AuthService
begin

text \<open>
  What the auth service and the interceptor promise: accounts keep their identifiers and emails
  apart, only a password that matches opens an account, a token speaks for the user it was made
  for and for nobody else, and what rotation does to a refresh token.
\<close>

section \<open>Accounts\<close>

lemma db_ok_add_user:
  "db_ok d \<Longrightarrow> \<not> has_user d (u_id r) \<Longrightarrow> db_ok (d\<lparr>users := users d @ [r], uuid_count := n\<rparr>)"
  unfolding db_ok_defs has_defs by auto

text \<open>Refresh tokens belong to users; nothing else in Redis has their prefix.\<close>

definition tokens_ok :: "'z infra_scheme \<Rightarrow> bool" where
  "tokens_ok s \<longleftrightarrow> (\<forall>key u e. redis s (refresh_prefix @ key) = Some (u, e) \<longrightarrow> has_user (db s) u)"

definition auth_ok :: "auth_svc \<Rightarrow> bool" where
  "auth_ok s \<longleftrightarrow> db_ok (db s) \<and> distinct (map u_email (users (db s))) \<and> tokens_ok s"

datatype auth_request =
    ReqRegister string string string
  | ReqLogin string string
  | ReqRefreshToken string

fun serve_auth :: "pg_env \<Rightarrow> auth_env \<Rightarrow> string \<Rightarrow> auth_request \<Rightarrow> (auth_svc, unit) state" where
  "serve_auth P E k (ReqRegister email pw nick) = no_result (Register P E k email pw nick)"
| "serve_auth P E k (ReqLogin email pw) = no_result (Login E k email pw)"
| "serve_auth P E k (ReqRefreshToken tok) = no_result (RefreshToken E k tok)"

text \<open>The invariant with the accounts that were there before; \<open>u\<close> is a user of the tables.\<close>

definition accounts_from :: "user_table_row list \<Rightarrow> auth_svc \<Rightarrow> bool" where
  "accounts_from us s \<longleftrightarrow> auth_ok s \<and> (\<exists>new. users (db s) = us @ new)"

lemma auth_ok_calls: "calls_safe (accounts_from us)"
  by (simp add: calls_safe_def accounts_from_def auth_ok_def tokens_ok_def)

lemma accounts_insert:
  assumes "accounts_from us s" and "sql_insert_user P nick email h t (db s) = Inr (x, d)"
  shows "accounts_from us (s\<lparr>db := d\<rparr>)"
proof -
  from sql_insert_user_InrD [OF assms(2)] have fresh: "\<not> has_user (db s) (u_id (new_user P nick email h t (db s)))"
    "email \<notin> u_email ` set (users (db s))" and d: "d = (db s)\<lparr>users := users (db s) @ [new_user P nick email h t (db s)],
      uuid_count := Suc (uuid_count (db s))\<rparr>" by (simp_all add: new_user_def)
  have "db_ok d" unfolding d using assms(1) fresh
    by (intro db_ok_add_user) (simp_all add: accounts_from_def auth_ok_def)
  moreover have "distinct (map u_email (users d))"
    using assms(1) fresh(2) by (simp add: d accounts_from_def auth_ok_def new_user_def)
  moreover have "has_user d u" if "has_user (db s) u" for u
    using that by (auto simp: d has_user_def)
  then have "tokens_ok (s\<lparr>db := d\<rparr>)"
    using assms(1) by (auto simp: accounts_from_def auth_ok_def tokens_ok_def)
  ultimately show ?thesis
    using assms(1) by (auto simp: accounts_from_def auth_ok_def d)
qed

lemma preserves_auth_calls:
  shows "preserves (accounts_from us) (repo_GetUserByEmail email)"
    and "preserves (accounts_from us) (repo_CreateUser P nick email h)"
    and "preserves (accounts_from us) (hashPassword E pw)"
    and "preserves (accounts_from us) (redis_get key)" and "preserves (accounts_from us) (redis_del key)"
proof -
  show "preserves (accounts_from us) (repo_GetUserByEmail email)"
    unfolding repo_GetUserByEmail_def
    by (intro preserves_intros preserves_pg_query_row stmt_safe_reads_only reads_only_select_user auth_ok_calls)
  have "stmt_safe (accounts_from us) (sql_insert_user P nick email h)"
    using accounts_insert auth_ok_calls by (auto simp: stmt_safe_def)
  then show "preserves (accounts_from us) (repo_CreateUser P nick email h)"
    unfolding repo_CreateUser_def by (intro preserves_intros preserves_pg_query_row)
  show "preserves (accounts_from us) (hashPassword E pw)"
    unfolding hashPassword_def
    by (intro preserves_intros preserves_modify) (simp add: accounts_from_def auth_ok_def tokens_ok_def)
  show "preserves (accounts_from us) (redis_get key)"
    by (rule preserves_redis_reads(1) [OF auth_ok_calls])
  show "preserves (accounts_from us) (redis_del key)"
    unfolding redis_del_def
    by (intro preserves_intros preserves_modify preserves_next_outcome auth_ok_calls)
       (auto simp: accounts_from_def auth_ok_def tokens_ok_def)
qed

text \<open>A token pair is stored for a user there is.\<close>

lemma accounts_generateTokenPair:
  assumes "run_state (generateTokenPair E k u) s = (r, s')" and "accounts_from us s" and "has_user (db s) u"
  shows "accounts_from us s'"
proof -
  have "preserves (\<lambda>s. accounts_from us s \<and> has_user (db s) u) (redis_set key u ttl)" for key ttl
    unfolding redis_set_def
    by (intro preserves_intros preserves_modify preserves_next_outcome)
       (auto simp: calls_safe_def accounts_from_def auth_ok_def tokens_ok_def)
  then have "preserves (\<lambda>s. accounts_from us s \<and> has_user (db s) u) (generateTokenPair E k u)"
    unfolding generateTokenPair_def by (intro preserves_intros)
  from preservesD [OF this assms(1)] assms(2,3) show ?thesis by simp
qed

lemma repo_GetUserByEmail_InrD:
  assumes "run_state (repo_GetUserByEmail email) s = (Inr u, s')"
  shows "\<exists>row \<in> set (users (db s)). u_email row = email \<and> au_id u = u_id row \<and>
    au_password_hash u = u_password_hash row" and "db s' = db s"
proof -
  from assms have "run_state (pg_query_row (sql_select_user_by_email email)) s = (Inr u, s')"
    by (auto simp: repo_GetUserByEmail_def split: prod.splits sum.splits if_splits)
  from pg_query_row_InrD [OF this] obtain t os d xs where
    sel: "sql_select_user_by_email email t (db s) = Inr (u # xs, d)"
    and s': "s' = s\<lparr>outcomes := os, now := t, db := d\<rparr>" by blast
  from sel show "db s' = db s" by (simp add: s' sql_select_user_by_email_def)
  from sel obtain row rs where "filter (\<lambda>r. u_email r = email) (users (db s)) = row # rs"
    and u: "au_id u = u_id row" "au_password_hash u = u_password_hash row"
    by (auto simp: sql_select_user_by_email_def map_eq_Cons_conv)
  then have "row \<in> set (filter (\<lambda>r. u_email r = email) (users (db s)))" by simp
  then have "row \<in> set (users (db s)) \<and> u_email row = email" by simp
  with u show "\<exists>row \<in> set (users (db s)). u_email row = email \<and> au_id u = u_id row \<and>
    au_password_hash u = u_password_hash row" by blast
qed

lemma repo_CreateUser_InrD:
  assumes "run_state (repo_CreateUser P nick email h) s = (Inr u, s')"
  shows "\<exists>t d. sql_insert_user P nick email h t (db s) = Inr ([u], d) \<and> db s' = d"
  using query_row_wrapped_InrD [OF assms [unfolded repo_CreateUser_def]]
  by (auto dest: sql_insert_user_InrD)

text \<open>A call that finds a user, then a use of what it found.\<close>

lemma preserves_for_user:
  assumes "\<And>s x s'. accounts_from us s \<Longrightarrow> run_state m s = (Inr x, s') \<Longrightarrow> has_user (db s') (user_of x)"
    and "preserves (accounts_from us) m"
    and "\<And>x s r s'. run_state (k x) s = (r, s') \<Longrightarrow> accounts_from us s \<Longrightarrow> has_user (db s) (user_of x) \<Longrightarrow>
      accounts_from us s'"
  shows "preserves (accounts_from us) (try_call f m k)"
proof (rule preservesI)
  fix s assume I: "accounts_from us s"
  obtain r s1 where m: "run_state m s = (r, s1)" by fastforce
  have I1: "accounts_from us s1" by (rule preservesD [OF assms(2) m I])
  show "accounts_from us (snd (run_state (try_call f m k) s))"
  proof (cases r)
    case (Inl e)
    with m I1 show ?thesis by (simp add: run_simps)
  next
    case (Inr x)
    obtain r2 s2 where "run_state (k x) s1 = (r2, s2)" by fastforce
    with assms(3) [OF this I1] assms(1) [OF I m [unfolded Inr]] m Inr show ?thesis
      by (simp add: run_simps)
  qed
qed

lemma accounts_tokens_handler:
  assumes "run_state (try_call f (generateTokenPair E k u) g) s = (r, s')"
    and "accounts_from us s" and "has_user (db s) u" and "\<And>x. preserves (accounts_from us) (g x)"
  shows "accounts_from us s'"
  using assms accounts_generateTokenPair
  by (fastforce simp: run_simps split: prod.splits sum.splits dest: preservesD)

lemma preserves_auth_handlers:
  "preserves (accounts_from us) (Register P E k email pw nick)"
  "preserves (accounts_from us) (Login E k email pw)"
  "preserves (accounts_from us) (RefreshToken E k tok)"
proof -
  let ?I = "accounts_from us"
  have create: "preserves ?I (try_call f (repo_CreateUser P n e h)
      (\<lambda>u. try_call g (generateTokenPair E k u) (\<lambda>pair. ok (u, pair))))" for f g n e h
  proof (rule preserves_for_user [where user_of = id])
    fix s u s' assume "run_state (repo_CreateUser P n e h) s = (Inr u, s')"
    from repo_CreateUser_InrD [OF this] show "has_user (db s') (id u)"
      by (auto simp: has_user_def new_user_def dest!: sql_insert_user_InrD)
  qed (auto elim!: accounts_tokens_handler intro: preserves_intros preserves_auth_calls)
  show "preserves ?I (Register P E k email pw nick)"
    unfolding Register_def Let_def
    by (rule create | rule preserves_handlers preserves_bind preserves_auth_calls)+
  show "preserves ?I (Login E k email pw)"
    unfolding Login_def Let_def
  proof (rule preserves_handlers(5), rule preserves_for_user [where user_of = au_id])
    fix s u s' assume "run_state (repo_GetUserByEmail (trim_space email)) s = (Inr u, s')"
    from repo_GetUserByEmail_InrD [OF this] show "has_user (db s') (au_id u)"
      by (auto simp: has_user_def)
  qed (auto simp: guard_that_def fail_def split: if_splits elim!: accounts_tokens_handler
      intro: preserves_intros preserves_auth_calls)
  have found: "has_user (db s1) u"
    if "?I s" "run_state (redis_get (refresh_key E tok)) s = (Inr u, s1)" for s u s1
  proof -
    from redis_get_InrD [OF that(2)] obtain os t e where
      "s1 = s\<lparr>outcomes := os, now := t\<rparr>" "redis s (refresh_key E tok) = Some (u, e)" by blast
    with that(1) show ?thesis
      unfolding accounts_from_def auth_ok_def tokens_ok_def refresh_key_def by simp blast
  qed
  show "preserves ?I (RefreshToken E k tok)"
  proof (rule preservesI)
    fix s assume I: "?I s"
    obtain r s1 where get: "run_state (redis_get (refresh_key E tok)) s = (r, s1)" by fastforce
    have I1: "?I s1" by (rule preservesD [OF preserves_auth_calls(4) get I])
    show "?I (snd (run_state (RefreshToken E k tok) s))"
    proof (cases r)
      case (Inl e)
      with get I I1 show ?thesis by (simp add: RefreshToken_def run_simps Let_def)
    next
      case (Inr u)
      obtain x s2 where del: "run_state (redis_del (refresh_key E tok)) s1 = (x, s2)" by fastforce
      have "has_user (db s1) u" using get I unfolding Inr by (rule found [rotated])
      moreover have "db s2 = db s1" by (rule keepsD [OF keeps_db_redis(3) del])
      moreover have "?I s2" by (rule preservesD [OF preserves_auth_calls(5) del I1])
      moreover obtain r3 s3 where gen: "run_state (try_call (wrapped CodeInternal ''failed to generate tokens'')
          (generateTokenPair E k u) ok) s2 = (r3, s3)" by fastforce
      ultimately have "?I s3"
        by (intro accounts_tokens_handler [OF gen]) (auto intro: preserves_intros)
      with get del gen I Inr show ?thesis by (auto simp: RefreshToken_def run_simps Let_def)
    qed
  qed
qed


text \<open>Whatever requests the auth service serves, with any failures in between: emails and
  identifiers stay unique, the tables keep their integrity, no account that was there changes or
  goes, and every refresh token in Redis belongs to an account.\<close>

theorem accounts_integrity:
  assumes "auth_ok s"
  shows "auth_ok (snd (run_state (for_each (serve_auth P E k) reqs) s)) \<and>
    (\<exists>new. users (db (snd (run_state (for_each (serve_auth P E k) reqs) s))) = users (db s) @ new)"
proof -
  have "preserves (accounts_from (users (db s))) (serve_auth P E k req)" for req
    by (cases req) (auto simp: no_result_def intro!: preserves_bind preserves_return preserves_auth_handlers)
  then have "preserves (accounts_from (users (db s))) (for_each (serve_auth P E k) reqs)"
    by (rule preserves_for_each)
  moreover have "accounts_from (users (db s)) s" using assms by (simp add: accounts_from_def)
  ultimately show ?thesis by (auto simp: preserves_def accounts_from_def)
qed

section \<open>Without failures\<close>

definition signs :: "'e jwt_env_scheme \<Rightarrow> string \<Rightarrow> bool" where
  "signs E k \<longleftrightarrow> (\<forall>c. \<exists>tok. jwt_sign E k c = Inr tok)"

lemma generateTokenPair_calm:
  assumes "outcomes s = []" and "signs E k"
  shows "\<exists>pair. token_pair_for E k u (now s) pair \<and> run_state (generateTokenPair E k u) s =
    (Inr pair, s\<lparr>redis := (redis s)(refresh_key E (Refresh_Token pair) \<mapsto> (u, now s + refreshTokenExpiry))\<rparr>)"
proof -
  obtain a r where "jwt_sign E k \<lparr>cl_sub = u, cl_iat = unix (now s), cl_exp = unix (now s + accessTokenExpiry)\<rparr> = Inr a"
    "jwt_sign E k \<lparr>cl_sub = u, cl_iat = unix (now s), cl_exp = unix (now s + refreshTokenExpiry)\<rparr> = Inr r"
    using assms(2) unfolding signs_def by blast
  with assms(1) show ?thesis
    by (intro exI [of _ "\<lparr>AccessToken = a, Refresh_Token = r, ExpiresAt = unix (now s + accessTokenExpiry)\<rparr>"])
       (simp add: generateTokenPair_def GenerateToken_def run_simps Let_def token_pair_for_def)
qed

lemma run_GetUserByEmail_calm:
  "outcomes s = [] \<Longrightarrow> run_state (repo_GetUserByEmail email) s =
     (case filter (\<lambda>u. u_email u = email) (users (db s)) of
        [] \<Rightarrow> Inl (Wrap ''user not found'' NoRows)
      | u # _ \<Rightarrow> Inr \<lparr>au_id = u_id u, au_email = u_email u, au_password_hash = u_password_hash u,
          au_nickname = u_nickname u, au_created_at = u_created_at u, au_updated_at = u_updated_at u\<rparr>, s)"
  by (simp add: repo_GetUserByEmail_def run_simps sql_select_user_by_email_def scan_one_def split: list.split)

lemma Register_calm:
  assumes calm: "outcomes s = []" and signs: "signs E k"
    and fields: "trim_space email \<noteq> []" "trim_space nick \<noteq> []" "8 \<le> length pw"
    and new: "trim_space email \<notin> u_email ` set (users (db s))" "\<not> has_user (db s) (gen_uuid P (uuid_count (db s)))"
    and hash: "bcrypt_hash E (salts s) pw = Inr h"
  shows "\<exists>pair s'. run_state (Register P E k email pw nick) s = (Inr (gen_uuid P (uuid_count (db s)), pair), s') \<and>
    outcomes s' = [] \<and> now s' = now s \<and>
    redis s' (refresh_key E (Refresh_Token pair)) =
      Some (gen_uuid P (uuid_count (db s)), now s + refreshTokenExpiry) \<and>
    token_pair_for E k (gen_uuid P (uuid_count (db s))) (now s) pair"
proof -
  have "filter (\<lambda>u. u_email u = trim_space email) (users (db s)) = []"
    using new(1) by (auto simp: filter_empty_conv image_iff)
  moreover have "pw \<noteq> []" using fields(3) by auto
  moreover let ?s = "s\<lparr>salts := Suc (salts s)\<rparr>"
  let ?d = "(db s)\<lparr>users := users (db s) @ [new_user P (trim_space nick) (trim_space email) h (now s) (db s)],
    uuid_count := Suc (uuid_count (db s))\<rparr>"
  have "sql_insert_user P (trim_space nick) (trim_space email) h (now s) (db s) =
      Inr ([gen_uuid P (uuid_count (db s))], ?d)"
    using new by (simp add: sql_insert_user_def new_user_def)
  moreover obtain pair where "token_pair_for E k (gen_uuid P (uuid_count (db s))) (now s) pair"
    "run_state (generateTokenPair E k (gen_uuid P (uuid_count (db s)))) (?s\<lparr>db := ?d\<rparr>) =
      (Inr pair, (?s\<lparr>db := ?d\<rparr>)\<lparr>redis := (redis (?s\<lparr>db := ?d\<rparr>))(refresh_key E (Refresh_Token pair) \<mapsto>
        (gen_uuid P (uuid_count (db s)), now (?s\<lparr>db := ?d\<rparr>) + refreshTokenExpiry))\<rparr>)"
    using generateTokenPair_calm [of "?s\<lparr>db := ?d\<rparr>" E k "gen_uuid P (uuid_count (db s))"] calm signs by auto
  ultimately show ?thesis
    using calm fields hash
    by (simp add: Register_def run_simps run_GetUserByEmail_calm hashPassword_def repo_CreateUser_def
        scan_one_def Let_def)
qed

section \<open>An example\<close>

text \<open>Tokens that name the second they expire and the user, passwords kept as they are.\<close>

definition read_int :: "string \<Rightarrow> int option" where
  "read_int s =
     (case s of
        [] \<Rightarrow> None
      | c # cs \<Rightarrow> if c = CHR ''-'' then map_option (\<lambda>n. - int n) (parse_unsigned cs)
                  else map_option int (parse_unsigned s))"

lemma read_format_int: "read_int (format_int n) = Some n"
proof (cases "n < 0")
  case True
  then show ?thesis
    by (simp add: read_int_def format_int_def parse_unsigned_def parse_digits_nat_digits)
next
  case False
  obtain d cs where d: "d < 10" "nat_digits (nat n) = digit_char d # cs"
    using nat_digits_hd by blast
  with False digit_char_not_sign [OF d(1)] parse_digits_nat_digits [of "nat n"] show ?thesis
    by (simp add: read_int_def format_int_def parse_unsigned_def)
qed

definition demo_auth :: auth_env where
  "demo_auth =
     \<lparr>jwt_sign = (\<lambda>k c. Inr (format_int (cl_exp c) @ CHR ''.'' # cl_sub c)),
      jwt_parse = (\<lambda>k t tok.
        case read_int (takeWhile (\<lambda>c. c \<noteq> CHR ''.'') tok) of
          None \<Rightarrow> Inl (Errorf ''malformed'')
        | Some x \<Rightarrow> if t < x * 1000000 then Inr (tl (dropWhile (\<lambda>c. c \<noteq> CHR ''.'') tok))
                   else Inl (Errorf ''expired'')),
      bcrypt_hash = (\<lambda>n p. Inr (''$'' @ p)), bcrypt_compare = (\<lambda>h p. h = ''$'' @ p), sha256_hex = id\<rparr>"

lemma digit_char_not_dot: "d < 10 \<Longrightarrow> digit_char d \<noteq> CHR ''.''"
proof
  assume d: "d < 10" and "digit_char d = CHR ''.''"
  then have "char_digit (CHR ''.'') = Some d" using char_digit_digit_char [OF d] by simp
  then show False by (simp add: char_digit_def)
qed

lemma nat_digits_no_dot: "CHR ''.'' \<notin> set (nat_digits n)"
proof (induction n rule: nat_digits.induct)
  case (1 n)
  show ?case
  proof (cases "n < 10")
    case True
    then show ?thesis using digit_char_not_dot [of n] by (simp add: nat_digits.simps [of n])
  next
    case False
    with 1 show ?thesis
      using digit_char_not_dot [of "n mod 10"] by (simp add: nat_digits.simps [of n])
  qed
qed

lemma format_int_no_dot: "CHR ''.'' \<notin> set (format_int n)"
  using nat_digits_no_dot by (simp add: format_int_def)

lemma demo_auth_ok: "auth_env_ok demo_auth k"
proof -
  have "takeWhile (\<lambda>c. c \<noteq> CHR ''.'') (format_int n @ CHR ''.'' # r) = format_int n"
    "dropWhile (\<lambda>c. c \<noteq> CHR ''.'') (format_int n @ CHR ''.'' # r) = CHR ''.'' # r" for n r
    using format_int_no_dot [of n] by (auto simp: takeWhile_append dropWhile_append)
  then show ?thesis
    by (auto simp: auth_env_ok_def jwt_ok_def demo_auth_def read_format_int)
qed

definition demo_auth_start :: auth_svc where
  "demo_auth_start =
     \<lparr>db = empty_db, now = 5000000, outcomes = [], nats_connected = False, published = [],
      redis = (\<lambda>_. None), salts = 0\<rparr>"

lemma demo_auth_start_ok: "auth_ok demo_auth_start" "outcomes demo_auth_start = []"
  by (simp_all add: auth_ok_def tokens_ok_def demo_auth_start_def db_ok_empty) (simp add: empty_db_def)

lemma demo_auth_signs: "signs demo_auth k"
  by (simp add: signs_def demo_auth_def)

lemma demo_auth_start_simps:
  "users (db demo_auth_start) = []" "uuid_count (db demo_auth_start) = 0" "now demo_auth_start = 5000000" "salts demo_auth_start = 0"
  "trim_space ''a@x'' = ''a@x''" "trim_space ''Ann'' = ''Ann''"
proof -
  show "trim_space ''a@x'' = ''a@x''" "trim_space ''Ann'' = ''Ann''" by code_simp+
qed (simp_all add: demo_auth_start_def empty_db_def)

definition demo_registered :: auth_svc where
  "demo_registered =
     snd (run_state (Register demo_env demo_auth ''k'' ''a@x'' ''password'' ''Ann'') demo_auth_start)"

definition demo_pair :: token_pair where
  "demo_pair = (case fst (run_state (Register demo_env demo_auth ''k'' ''a@x'' ''password'' ''Ann'') demo_auth_start) of
     Inl _ \<Rightarrow> \<lparr>AccessToken = [], Refresh_Token = [], ExpiresAt = 0\<rparr> | Inr (_, pair) \<Rightarrow> pair)"

lemma demo_Register:
  "run_state (Register demo_env demo_auth ''k'' ''a@x'' ''password'' ''Ann'') demo_auth_start =
     (Inr (''a'', demo_pair), demo_registered)" (is ?run)
  and demo_registered_simps: "auth_ok demo_registered" "outcomes demo_registered = []"
  and demo_pair_tokens: "token_pair_for demo_auth ''k'' ''a'' 5000000 demo_pair" "now demo_registered = 5000000"
    "redis demo_registered (refresh_key demo_auth (Refresh_Token demo_pair)) = Some (''a'', 5000000 + refreshTokenExpiry)"
proof -
  have "gen_uuid demo_env 0 = ''a''" by (simp add: demo_env_def)
  moreover have "bcrypt_hash demo_auth 0 ''password'' = Inr ''$password''" by (simp add: demo_auth_def)
  ultimately obtain pair s' where s': "run_state (Register demo_env demo_auth ''k'' ''a@x'' ''password'' ''Ann'') demo_auth_start =
      (Inr (''a'', pair), s')" "outcomes s' = []" "now s' = 5000000" "token_pair_for demo_auth ''k'' ''a'' 5000000 pair"
      "redis s' (refresh_key demo_auth (Refresh_Token pair)) = Some (''a'', 5000000 + refreshTokenExpiry)"
    using Register_calm [OF demo_auth_start_ok(2) demo_auth_signs [of "''k''"], of "''a@x''" "''Ann''" "''password''" demo_env]
    by (auto simp: demo_auth_start_simps has_user_def)
  then show ?run "outcomes demo_registered = []" "token_pair_for demo_auth ''k'' ''a'' 5000000 demo_pair"
    "now demo_registered = 5000000"
    "redis demo_registered (refresh_key demo_auth (Refresh_Token demo_pair)) = Some (''a'', 5000000 + refreshTokenExpiry)" by (simp_all add: demo_pair_def demo_registered_def)
  have "accounts_from [] demo_auth_start"
    using demo_auth_start_ok(1) by (simp add: accounts_from_def)
  from preservesD [OF preserves_auth_handlers(1) s'(1) this] s'(1) show "auth_ok demo_registered"
    by (simp add: demo_registered_def accounts_from_def)
qed

theorem accounts_integrity_witness:
  "auth_ok (snd (run_state (for_each (serve_auth demo_env demo_auth ''k'')
     [ReqRegister ''a@x'' ''password'' ''Ann'', ReqLogin ''a@x'' ''password'']) demo_auth_start))"
  using accounts_integrity [OF demo_auth_start_ok(1)] by blast

section \<open>Registration and login\<close>

lemma Register_InrD:
  assumes env: "auth_env_ok E k"
    and run: "run_state (Register P E k email pw nick) s = (Inr (u, pair), s')"
  shows "\<exists>row t. users (db s') = users (db s) @ [row] \<and> u_id row = u \<and> \<not> has_user (db s) u \<and>
    u_email row = trim_space email \<and> u_nickname row = trim_space nick \<and>
    trim_space email \<notin> u_email ` set (users (db s)) \<and> 8 \<le> length pw \<and>
    checkPassword E pw (u_password_hash row) \<and> token_pair_for E k u t pair"
proof -
  from run obtain taken s1 h s2 s3 where
    get: "run_state (repo_GetUserByEmail (trim_space email)) s = (taken, s1)" and len: "8 \<le> length pw" and
    hash: "run_state (hashPassword E pw) s1 = (Inr h, s2)" and
    create: "run_state (repo_CreateUser P (trim_space nick) (trim_space email) h) s2 = (Inr u, s3)" and
    tokens: "run_state (generateTokenPair E k u) s3 = (Inr pair, s')"
    unfolding Register_def Let_def by (elim handler_InrE run_bindE) auto
  have "preserves (\<lambda>x :: auth_svc. db x = db s) (repo_GetUserByEmail (trim_space email))"
    unfolding repo_GetUserByEmail_def
    by (intro preserves_intros keeps_preserves [where f = db] keeps_db_pg_query_row reads_only_select_user)
  from preservesD [OF this get] have "db s1 = db s" by simp
  with hash have db2: "db s2 = db s" and h: "\<exists>n. bcrypt_hash E n pw = Inr h"
    by (auto simp: hashPassword_def)
  from repo_CreateUser_InrD [OF create] db2 obtain t where
    "sql_insert_user P (trim_space nick) (trim_space email) h t (db s) = Inr ([u], db s3)" by auto
  from sql_insert_user_InrD [OF this] generateTokenPair_InrD [OF tokens] h env len show ?thesis
    by (intro exI [of _ "new_user P (trim_space nick) (trim_space email) h t (db s)"] exI [of _ "now s3"])
       (auto simp: new_user_def checkPassword_def auth_env_ok_def)
qed

text \<open>A successful \<open>Register\<close> adds exactly one account: a new identifier, an email nobody else
  has, the trimmed email and nickname, a password of at least 8 bytes that the stored hash
  accepts; the two tokens that are returned are the new user's.\<close>

theorem Register_result:
  assumes env: "auth_env_ok E k"
    and run: "run_state (Register P E k email pw nick) s = (Inr (u, pair), s')"
  shows "\<exists>row t. users (db s') = users (db s) @ [row] \<and> u_id row = u \<and> \<not> has_user (db s) u \<and>
    u_email row = trim_space email \<and> u_nickname row = trim_space nick \<and>
    trim_space email \<notin> u_email ` set (users (db s)) \<and> 8 \<le> length pw \<and>
    checkPassword E pw (u_password_hash row) \<and> token_pair_for E k u t pair"
  by (rule Register_InrD [OF assms])

theorem Register_result_witness:
  "\<exists>u pair s' row. run_state (Register demo_env demo_auth ''k'' ''a@x'' ''password'' ''Ann'') demo_auth_start =
     (Inr (u, pair), s') \<and> users (db s') = [row] \<and> u_email row = ''a@x''"
  using demo_Register Register_result [OF demo_auth_ok demo_Register] by (auto simp: demo_auth_start_simps)

lemma Login_InrD:
  assumes run: "run_state (Login E k email pw) s = (Inr (u, pair), s')"
  shows "db s' = db s \<and> (\<exists>row \<in> set (users (db s)). \<exists>t. u_id row = u \<and> u_email row = trim_space email \<and>
    checkPassword E pw (u_password_hash row) \<and> token_pair_for E k u t pair)"
proof -
  from run obtain user s1 where
    get: "run_state (repo_GetUserByEmail (trim_space email)) s = (Inr user, s1)" and
    pw: "checkPassword E pw (au_password_hash user)" and
    tokens: "run_state (generateTokenPair E k (au_id user)) s1 = (Inr pair, s')" and u: "u = au_id user"
    unfolding Login_def Let_def by (elim handler_InrE run_bindE) auto
  from generateTokenPair_InrD [OF tokens] have "db s' = db s1" by auto
  with repo_GetUserByEmail_InrD [OF get] generateTokenPair_InrD [OF tokens] pw u show ?thesis by fastforce
qed

text \<open>A successful \<open>Login\<close> was for an account with that email whose stored hash accepts the
  password; the tokens are that account's, and nothing in the tables changes.\<close>

theorem Login_result:
  assumes run: "run_state (Login E k email pw) s = (Inr (u, pair), s')"
  shows "db s' = db s \<and> (\<exists>row \<in> set (users (db s)). \<exists>t. u_id row = u \<and> u_email row = trim_space email \<and>
    checkPassword E pw (u_password_hash row) \<and> token_pair_for E k u t pair)"
  by (rule Login_InrD [OF assms])

lemma Login_calm:
  assumes calm: "outcomes s = []" and signs: "signs E k"
    and mails: "distinct (map u_email (users (db s)))"
    and row: "row \<in> set (users (db s))" "u_email row = trim_space email" "trim_space email \<noteq> []"
    and pw: "pw \<noteq> []" "checkPassword E pw (u_password_hash row)"
  shows "\<exists>pair s'. run_state (Login E k email pw) s = (Inr (u_id row, pair), s') \<and>
    token_pair_for E k (u_id row) (now s) pair"
proof -
  have "filter (\<lambda>u. u_email u = trim_space email) (users (db s)) = [row]"
    using filter_single_key [OF mails row(1)] row(2) by simp
  moreover obtain pair where "token_pair_for E k (u_id row) (now s) pair"
    "run_state (generateTokenPair E k (u_id row)) s = (Inr pair,
      s\<lparr>redis := (redis s)(refresh_key E (Refresh_Token pair) \<mapsto> (u_id row, now s + refreshTokenExpiry))\<rparr>)"
    using generateTokenPair_calm [OF calm signs] by blast
  ultimately show ?thesis
    using row(3) pw by (simp add: Login_def run_simps run_GetUserByEmail_calm calm Let_def)
qed

lemma demo_login:
  "\<exists>pair s'. run_state (Login demo_auth ''k'' ''a@x'' ''password'') demo_registered = (Inr (''a'', pair), s')"
proof -
  from Register_InrD [OF demo_auth_ok demo_Register] obtain row where
    "users (db demo_registered) = [row]" "u_id row = ''a''" "u_email row = trim_space ''a@x''"
    "checkPassword demo_auth ''password'' (u_password_hash row)"
    by (auto simp: demo_auth_start_simps)
  with Login_calm [OF demo_registered_simps(2) demo_auth_signs [of "''k''"], of row "''a@x''" "''password''"]
  show ?thesis by (auto simp: demo_auth_start_simps)
qed

theorem Login_result_witness:
  "\<exists>pair s'. run_state (Login demo_auth ''k'' ''a@x'' ''password'') demo_registered = (Inr (''a'', pair), s') \<and>
     db s' = db demo_registered"
proof -
  from demo_login obtain pair s' where run: "run_state (Login demo_auth ''k'' ''a@x'' ''password'') demo_registered =
      (Inr (''a'', pair), s')" by blast
  with Login_result [OF run] show ?thesis by blast
qed

text \<open>C29: Who has registered can log in: with the tables as \<open>Register\<close> left them, whatever happened to
  the rest of the state, \<open>Login\<close> with the same email (up to white space around it) and password
  answers with the same user and a pair of tokens for that user.\<close>

theorem register_then_login:
  assumes env: "auth_env_ok E k" "signs E k" and inv: "auth_ok s"
    and reg: "run_state (Register P E k email pw nick) s = (Inr (u, pair), s1)"
    and later: "db s2 = db s1" "outcomes s2 = []" "trim_space email' = trim_space email"
  shows "\<exists>pair' s3. run_state (Login E k email' pw) s2 = (Inr (u, pair'), s3) \<and>
    token_pair_for E k u (now s2) pair'"
proof -
  from Register_InrD [OF env(1) reg] obtain row where
    row: "users (db s1) = users (db s) @ [row]" "u_id row = u" "u_email row = trim_space email"
    "trim_space email \<notin> u_email ` set (users (db s))" "8 \<le> length pw" "checkPassword E pw (u_password_hash row)"
    by blast
  from reg have "trim_space email \<noteq> []"
    unfolding Register_def Let_def by (elim handler_InrE run_bindE) auto
  moreover have "distinct (map u_email (users (db s2)))"
    using row(1,3,4) inv later(1) by (simp add: auth_ok_def)
  moreover have "pw \<noteq> []" using row(5) by auto
  ultimately show ?thesis
    using Login_calm [OF later(2) env(2), of row email' pw] row later by auto
qed

theorem register_then_login_witness:
  "\<exists>pair s. run_state (Login demo_auth ''k'' '' a@x'' ''password'') demo_registered = (Inr (''a'', pair), s)"
proof -
  have "trim_space '' a@x'' = trim_space ''a@x''" by code_simp
  from register_then_login [OF demo_auth_ok demo_auth_signs demo_auth_start_ok(1) demo_Register refl
      demo_registered_simps(2) this]
  show ?thesis by blast
qed

section \<open>Tokens\<close>

lemma unix_after: "unix (t + accessTokenExpiry) = unix t + 900" "unix (t + refreshTokenExpiry) = unix t + 604800"
  by (simp_all add: unix_def accessTokenExpiry_def refreshTokenExpiry_def)

lemma token_pair_signs:
  assumes "token_pair_for E k u t pair"
  shows "jwt_sign E k \<lparr>cl_sub = u, cl_iat = unix t, cl_exp = unix t + 900\<rparr> = Inr (AccessToken pair)"
    and "jwt_sign E k \<lparr>cl_sub = u, cl_iat = unix t, cl_exp = unix t + 604800\<rparr> = Inr (Refresh_Token pair)"
  using assms by (simp_all add: token_pair_for_def unix_after)

text \<open>A token that was signed with the secret, as a bearer token.\<close>

lemma token_opens:
  assumes env: "jwt_ok E k" and sign: "jwt_sign E k c = Inr tok" and path: "procedure \<notin> set skipPaths"
  shows "now s < cl_exp c * 1000000 \<Longrightarrow> run_state (AuthInterceptor E k skipPaths endpoint procedure (''Bearer '' @ tok)) s = run_state (endpoint (cl_sub c)) s"
    and "\<not> now s < cl_exp c * 1000000 \<Longrightarrow>
      \<exists>m. run_state (AuthInterceptor E k skipPaths endpoint procedure (''Bearer '' @ tok)) s = (Inl (NewError CodeUnauthenticated m), s)"
proof -
  note tok = jwt_okD [OF env sign]
  note cases = AuthInterceptor_cases [OF path, of E k endpoint "''Bearer '' @ tok" s]
  { assume "now s < cl_exp c * 1000000"
    with tok(2) have "jwt_parse E k (now s) tok = Inr (cl_sub c)" by simp
    with header_token_bearer [OF tok(1)] path tok(1) show "run_state (AuthInterceptor E k skipPaths endpoint procedure (''Bearer '' @ tok)) s = run_state (endpoint (cl_sub c)) s"
      by (intro AuthInterceptor_bearer) }
  { assume "\<not> now s < cl_exp c * 1000000"
    with tok(3) obtain e where "jwt_parse E k (now s) tok = Inl e" by auto
    with header_token_bearer [OF tok(1)] show "\<exists>m. run_state (AuthInterceptor E k skipPaths endpoint procedure (''Bearer '' @ tok)) s =
        (Inl (NewError CodeUnauthenticated m), s)"
      by (cases rule: cases) auto }
qed

text \<open>C30: A handler behind the interceptor runs only for the subject of a valid token: a request
  whose procedure is not exempt either is refused as unauthenticated and changes nothing, or its
  header carries a token that the secret accepts at that instant and the handler runs for the
  token's subject.\<close>

theorem interceptor_only_subject:
  assumes "procedure \<notin> set skipPaths"
  shows "(\<exists>m. run_state (AuthInterceptor E k skipPaths endpoint procedure h) s =
      (Inl (NewError CodeUnauthenticated m), s)) \<or>
    (\<exists>tok u. header_token h = Some tok \<and> jwt_parse E k (now s) tok = Inr u \<and>
      run_state (AuthInterceptor E k skipPaths endpoint procedure h) s = run_state (endpoint u) s)"
  using assms by (cases rule: AuthInterceptor_cases [of procedure skipPaths E k endpoint h s]) blast+

theorem interceptor_only_subject_witness:
  "\<exists>m. run_state (AuthInterceptor demo_auth ''k'' [''/q''] ok ''/p'' ''Basic 9.ua'') demo_auth_start =
     (Inl (NewError CodeUnauthenticated m), demo_auth_start)"
proof -
  have "header_token ''Basic 9.ua'' = None" by code_simp
  with interceptor_only_subject [of "''/p''" "[''/q'']" demo_auth "''k''" ok "''Basic 9.ua''" demo_auth_start]
  show ?thesis by auto
qed

text \<open>The access token of a pair opens the services for its user and for a quarter of an hour,
  to the second: until then a request with it runs as that user, afterwards it is refused.\<close>

theorem access_token_opens:
  assumes env: "jwt_ok E k" and pair: "token_pair_for E k u t pair" and "procedure \<notin> set skipPaths"
  shows "if now s < (unix t + 900) * 1000000
    then run_state (AuthInterceptor E k skipPaths endpoint procedure (''Bearer '' @ AccessToken pair)) s = run_state (endpoint u) s
    else \<exists>m. run_state (AuthInterceptor E k skipPaths endpoint procedure (''Bearer '' @ AccessToken pair)) s = (Inl (NewError CodeUnauthenticated m), s)"
  using token_opens(1) [OF env token_pair_signs(1) [OF pair] assms(3), of s endpoint]
    token_opens(2) [OF env token_pair_signs(1) [OF pair] assms(3), of s endpoint] by simp

theorem access_token_opens_witness:
  "run_state (AuthInterceptor demo_auth ''k'' [] ok ''/p'' (''Bearer '' @ AccessToken demo_pair)) demo_registered =
     (Inr ''a'', demo_registered)"
proof -
  have "jwt_ok demo_auth ''k''" using demo_auth_ok by (simp add: auth_env_ok_def)
  from access_token_opens [OF this demo_pair_tokens(1), where procedure = "''/p''" and skipPaths = "[]"
      and endpoint = ok and s = demo_registered]
  show ?thesis using demo_pair_tokens(2) by (simp add: run_simps unix_def)
qed

text \<open>C31: The refresh token is an access token too: nothing in it says what it is for, so the
  services accept it as a bearer token, for seven days instead of a quarter of an hour.\<close>

theorem refresh_token_opens:
  assumes env: "jwt_ok E k" and pair: "token_pair_for E k u t pair" and "procedure \<notin> set skipPaths"
    and "now s < (unix t + 604800) * 1000000"
  shows "run_state (AuthInterceptor E k skipPaths endpoint procedure (''Bearer '' @ Refresh_Token pair)) s =
    run_state (endpoint u) s"
  using token_opens(1) [OF env token_pair_signs(2) [OF pair] assms(3), of s endpoint] assms(4) by simp

theorem refresh_token_opens_witness:
  "run_state (AuthInterceptor demo_auth ''k'' [] ok ''/p'' (''Bearer '' @ Refresh_Token demo_pair))
     (demo_registered\<lparr>now := 86400000000\<rparr>) = (Inr ''a'', demo_registered\<lparr>now := 86400000000\<rparr>)"
proof -
  have "jwt_ok demo_auth ''k''" using demo_auth_ok by (simp add: auth_env_ok_def)
  from refresh_token_opens [OF this demo_pair_tokens(1), where procedure = "''/p''" and skipPaths = "[]"
      and endpoint = ok and s = "demo_registered\<lparr>now := 86400000000\<rparr>"]
  show ?thesis by (simp add: run_simps unix_def)
qed

section \<open>Rotation\<close>

lemma RefreshToken_InrD:
  assumes run: "run_state (RefreshToken E k tok) s = (Inr pair, s')"
  shows "\<exists>u e t. redis s (refresh_key E tok) = Some (u, e) \<and> now s < e \<and>
    token_pair_for E k u t pair \<and> db s' = db s"
proof -
  obtain r s1 where get: "run_state (redis_get (refresh_key E tok)) s = (r, s1)" by fastforce
  obtain x s2 where del: "run_state (redis_del (refresh_key E tok)) s1 = (x, s2)" by fastforce
  from run get del obtain u where u: "r = Inr u" and gen: "run_state (generateTokenPair E k u) s2 = (Inr pair, s')"
    by (auto simp: RefreshToken_def run_simps Let_def split: if_splits sum.splits prod.splits)
  from redis_get_InrD [OF get [unfolded u]] obtain os t e where
    "s1 = s\<lparr>outcomes := os, now := t\<rparr>" "redis s (refresh_key E tok) = Some (u, e)" "now s < e"
    by fastforce
  moreover have "db s2 = db s1" by (rule keepsD [OF keeps_db_redis(3) del])
  ultimately show ?thesis using generateTokenPair_InrD [OF gen] by auto
qed

lemma RefreshToken_calm:
  assumes calm: "outcomes s = []" and signs: "signs E k" and tok: "tok \<noteq> []"
    and stored: "live_key s (refresh_key E tok) = Some u"
  shows "\<exists>pair. token_pair_for E k u (now s) pair \<and> run_state (RefreshToken E k tok) s = (Inr pair,
    s\<lparr>redis := (redis s)(refresh_key E tok := None,
      refresh_key E (Refresh_Token pair) \<mapsto> (u, now s + refreshTokenExpiry))\<rparr>)"
proof -
  let ?s = "s\<lparr>redis := (redis s)(refresh_key E tok := None)\<rparr>"
  obtain pair where "token_pair_for E k u (now ?s) pair" "run_state (generateTokenPair E k u) ?s =
    (Inr pair, ?s\<lparr>redis := (redis ?s)(refresh_key E (Refresh_Token pair) \<mapsto> (u, now ?s + refreshTokenExpiry))\<rparr>)"
    using generateTokenPair_calm [of ?s E k u] calm signs by auto
  with assms show ?thesis
    by (intro exI [of _ pair]) (simp add: RefreshToken_def run_simps get_result_def Let_def)
qed

text \<open>A successful \<open>RefreshToken\<close> was called with a token that is stored in Redis and has not
  expired there, returns a pair of tokens for the user it is stored for, and leaves the tables
  alone. Without failures the old token is then gone and cannot be used again, provided that the
  new refresh token is another one.\<close>

theorem RefreshToken_result:
  assumes run: "run_state (RefreshToken E k tok) s = (Inr pair, s')"
  shows "db s' = db s \<and> (\<exists>u e t. redis s (refresh_key E tok) = Some (u, e) \<and> now s < e \<and>
      token_pair_for E k u t pair) \<and>
    (outcomes s = [] \<and> signs E k \<and> refresh_key E (Refresh_Token pair) \<noteq> refresh_key E tok \<longrightarrow>
      run_state (RefreshToken E k tok) s' =
        (Inl (NewError CodeUnauthenticated (Errorf ''invalid or expired refresh token'')), s'))"
proof (intro conjI impI)
  show "db s' = db s" and "\<exists>u e t. redis s (refresh_key E tok) = Some (u, e) \<and> now s < e \<and> token_pair_for E k u t pair"
    using RefreshToken_InrD [OF run] by auto
  assume calm: "outcomes s = [] \<and> signs E k \<and> refresh_key E (Refresh_Token pair) \<noteq> refresh_key E tok"
  have tok: "tok \<noteq> []" using run by (auto simp: RefreshToken_def run_simps split: if_splits)
  from RefreshToken_InrD [OF run] obtain u where "live_key s (refresh_key E tok) = Some u"
    by (auto simp: live_key_def)
  from RefreshToken_calm [OF _ _ tok this, where k = k] calm run
  have "outcomes s' = []" "redis s' (refresh_key E tok) = None" by auto
  with tok show "run_state (RefreshToken E k tok) s' =
      (Inl (NewError CodeUnauthenticated (Errorf ''invalid or expired refresh token'')), s')"
    by (simp add: RefreshToken_def run_simps get_result_def live_key_def Let_def)
qed

theorem RefreshToken_result_witness:
  "\<exists>pair s'. run_state (RefreshToken demo_auth ''k'' (Refresh_Token demo_pair)) (demo_registered\<lparr>now := 7000000\<rparr>) =
     (Inr pair, s') \<and> (\<exists>u e t. redis demo_registered (refresh_key demo_auth (Refresh_Token demo_pair)) = Some (u, e) \<and>
       token_pair_for demo_auth ''k'' u t pair)"
proof -
  let ?s = "demo_registered\<lparr>now := 7000000\<rparr>"
  have "Refresh_Token demo_pair \<noteq> []"
    using jwt_okD(1) [OF _ token_pair_signs(2) [OF demo_pair_tokens(1)]] demo_auth_ok [of "''k''"]
    by (simp add: auth_env_ok_def)
  moreover have "live_key ?s (refresh_key demo_auth (Refresh_Token demo_pair)) = Some ''a''"
    using demo_pair_tokens(3) by (simp add: live_key_def refreshTokenExpiry_def)
  ultimately obtain pair s' where run: "run_state (RefreshToken demo_auth ''k'' (Refresh_Token demo_pair)) ?s = (Inr pair, s')"
    using RefreshToken_calm [of ?s demo_auth "''k''"] demo_registered_simps(2) demo_auth_signs by fastforce
  from RefreshToken_result [OF run] run show ?thesis by auto
qed

text \<open>Within the second in which it was made, a refresh token is not rotated: tokens name whole
  seconds only, so the new refresh token is the old one, it stays valid, and the same token can be
  used again and again.\<close>

theorem refresh_same_second:
  assumes calm: "outcomes s = []" and env: "auth_env_ok E k" "signs E k"
    and pair: "token_pair_for E k u t pair" and second: "unix (now s) = unix t"
    and stored: "live_key s (refresh_key E (Refresh_Token pair)) = Some u"
  shows "\<exists>pair' s'. run_state (RefreshToken E k (Refresh_Token pair)) s = (Inr pair', s') \<and>
    Refresh_Token pair' = Refresh_Token pair \<and>
    (\<exists>pair'' s''. run_state (RefreshToken E k (Refresh_Token pair)) s' = (Inr pair'', s''))"
proof -
  have tok: "Refresh_Token pair \<noteq> []"
    using env(1) token_pair_signs(2) [OF pair] by (auto simp: auth_env_ok_def dest: jwt_okD(1))
  from RefreshToken_calm [OF calm env(2) tok stored] obtain pair' where
    p: "token_pair_for E k u (now s) pair'" and run: "run_state (RefreshToken E k (Refresh_Token pair)) s = (Inr pair',
      s\<lparr>redis := (redis s)(refresh_key E (Refresh_Token pair) := None,
        refresh_key E (Refresh_Token pair') \<mapsto> (u, now s + refreshTokenExpiry))\<rparr>)" (is "_ = (_, ?s')")
    by blast
  have same: "Refresh_Token pair' = Refresh_Token pair"
    using token_pair_signs(2) [OF pair] token_pair_signs(2) [OF p] second by simp
  then have "live_key ?s' (refresh_key E (Refresh_Token pair)) = Some u"
    by (simp add: live_key_def refreshTokenExpiry_def)
  from RefreshToken_calm [OF _ env(2) tok this] calm run same show ?thesis by auto
qed

theorem refresh_same_second_witness:
  "\<exists>pair s'. run_state (RefreshToken demo_auth ''k'' (Refresh_Token demo_pair)) demo_registered = (Inr pair, s') \<and>
     Refresh_Token pair = Refresh_Token demo_pair"
proof -
  from refresh_same_second [OF demo_registered_simps(2) demo_auth_ok demo_auth_signs demo_pair_tokens(1)]
  show ?thesis
    using demo_pair_tokens(2,3) by (auto simp: live_key_def refreshTokenExpiry_def)
qed

end
