(* ===== verification/GatewayFrames.thy ===== *)
theory GatewayFrames
  imports GoStd
begin

text \<open>
  The messages of \<open>proto/gateway/v1/gateway.proto\<close> that pass over a WebSocket, and
  \<open>backend/services/ws-gateway/protocol.go\<close>: a frame is the length of the payload as four bytes,
  most significant first, and the payload. Marshalling a message into a payload is left to the
  protobuf library, a parameter; \<open>wire_ok\<close> is what its documentation promises.
\<close>

unbundle bit_operations_syntax

section \<open>Messages\<close>

text \<open>An enumeration field may hold a number without a name.\<close>

datatype client_message_type =
    CLIENT_UNSPECIFIED | SEND_DM | SEND_CHANNEL_MESSAGE | SUBSCRIBE_CHANNEL
  | UNSUBSCRIBE_CHANNEL | HEARTBEAT | CLIENT_OTHER int

datatype server_event_type =
    SERVER_UNSPECIFIED | DM_RECEIVED | CHANNEL_MESSAGE_RECEIVED | USER_ONLINE | USER_OFFLINE
  | SERVER_ERROR | HEARTBEAT_ACK | ACK | NOTIFICATION | SERVER_OTHER int

record send_dm_request =
  sd_receiver_id :: string
  sd_content :: string
  sd_file_ids :: "string list"

record send_channel_message_request =
  sc_channel_id :: string
  sc_content :: string
  sc_file_ids :: "string list"

record client_message =
  cmsg_type :: client_message_type
  cmsg_request_id :: string
  cmsg_send_dm :: "send_dm_request option"
  cmsg_send_channel :: "send_channel_message_request option"
  cmsg_subscribe :: "string option"       \<comment> \<open>the \<open>channel_id\<close>\<close>
  cmsg_unsubscribe :: "string option"

record dm_received =
  dmr_message_id :: string
  dmr_sender_id :: string
  dmr_sender_nickname :: string
  dmr_content :: string
  dmr_created_at :: int
  dmr_seq :: int

record channel_message_received =
  cmr_message_id :: string
  cmr_channel_id :: string
  cmr_sender_id :: string
  cmr_sender_nickname :: string
  cmr_content :: string
  cmr_created_at :: int
  cmr_seq :: int

record notification =
  nt_notification_type :: string
  nt_source_id :: string
  nt_community_id :: string
  nt_sender_id :: string
  nt_sender_nickname :: string
  nt_preview :: string
  nt_created_at :: int

record server_event =
  ev_type :: server_event_type
  ev_request_id :: string
  ev_ack_message_id :: string
  ev_ack_seq :: int
  ev_dm :: "dm_received option"
  ev_channel :: "channel_message_received option"
  ev_online :: "string option"            \<comment> \<open>the \<open>user_id\<close>\<close>
  ev_offline :: "string option"
  ev_error :: "(string \<times> string) option"    \<comment> \<open>code and message\<close>
  ev_notification :: "notification option"

definition server_event_of :: "server_event_type \<Rightarrow> server_event" where
  "server_event_of t =
     \<lparr>ev_type = t, ev_request_id = [], ev_ack_message_id = [], ev_ack_seq = 0, ev_dm = None,
      ev_channel = None, ev_online = None, ev_offline = None, ev_error = None,
      ev_notification = None\<rparr>"

section \<open>Frames\<close>

type_synonym bytes = "8 word list"

record wire =
  marshal_event :: "server_event \<Rightarrow> go_error + bytes"
  unmarshal_event :: "bytes \<Rightarrow> go_error + server_event"
  marshal_client :: "client_message \<Rightarrow> go_error + bytes"
  unmarshal_client :: "bytes \<Rightarrow> go_error + client_message"

definition wire_ok :: "wire \<Rightarrow> bool" where
  "wire_ok W \<longleftrightarrow>
     (\<forall>m b. marshal_event W m = Inr b \<longrightarrow> unmarshal_event W b = Inr m) \<and>
     (\<forall>m b. marshal_client W m = Inr b \<longrightarrow> unmarshal_client W b = Inr m)"

text \<open>\<open>binary.BigEndian\<close>.\<close>

definition PutUint32 :: "32 word \<Rightarrow> bytes" where
  "PutUint32 v = [ucast (drop_bit 24 v), ucast (drop_bit 16 v), ucast (drop_bit 8 v), ucast v]"

definition Uint32 :: "bytes \<Rightarrow> 32 word" where
  "Uint32 b =
     ucast (b ! 3) OR push_bit 8 (ucast (b ! 2)) OR push_bit 16 (ucast (b ! 1)) OR
     push_bit 24 (ucast (b ! 0))"

definition frameHeaderSize :: nat where
  "frameHeaderSize = 4"

definition encode_with :: "('m \<Rightarrow> go_error + bytes) \<Rightarrow> string \<Rightarrow> 'm \<Rightarrow> go_error + bytes" where
  "encode_with marshal what msg =
     sum_bind (wrap_err (''marshal '' @ what) (marshal msg)) (\<lambda>payload.
       Inr (PutUint32 (word_of_nat (length payload)) @ payload))"

definition decode_with :: "(bytes \<Rightarrow> go_error + 'm) \<Rightarrow> string \<Rightarrow> bytes \<Rightarrow> go_error + 'm" where
  "decode_with unmarshal what data =
     (if length data < frameHeaderSize then Inl (Errorf ''frame too short'')
      else
        let size = unat (Uint32 (take frameHeaderSize data)); payload = drop frameHeaderSize data
        in if length payload < size then Inl (Errorf ''payload length mismatch'')
           else wrap_err (''unmarshal '' @ what) (unmarshal (take size payload)))"

definition EncodeFrame :: "wire \<Rightarrow> server_event \<Rightarrow> go_error + bytes" where
  "EncodeFrame W msg = encode_with (marshal_event W) ''server event'' msg"

definition DecodeFrame :: "wire \<Rightarrow> bytes \<Rightarrow> go_error + server_event" where
  "DecodeFrame W data = decode_with (unmarshal_event W) ''server event'' data"

definition EncodeClientFrame :: "wire \<Rightarrow> client_message \<Rightarrow> go_error + bytes" where
  "EncodeClientFrame W msg = encode_with (marshal_client W) ''client message'' msg"

definition DecodeClientFrame :: "wire \<Rightarrow> bytes \<Rightarrow> go_error + client_message" where
  "DecodeClientFrame W data = decode_with (unmarshal_client W) ''client message'' data"

section \<open>Reading back\<close>

lemma length_PutUint32 [simp]: "length (PutUint32 v) = 4"
  by (simp add: PutUint32_def)

lemma Uint32_PutUint32: "Uint32 (PutUint32 v @ rest) = v"
proof (rule bit_word_eqI)
  fix n assume "n < LENGTH(32)"
  then have "n < 32" by simp
  then consider "n < 8" | "8 \<le> n" "n < 16" | "16 \<le> n" "n < 24" | "24 \<le> n" "n < 32" by linarith
  then show "bit (Uint32 (PutUint32 v @ rest)) n = bit v n"
    by cases (auto simp: Uint32_def PutUint32_def bit_simps)
qed

text \<open>Reading a frame is inverse to writing it whenever the payload is below four gigabytes;
  what follows the frame does not matter.\<close>

locale frames =
  fixes marshal :: "'m \<Rightarrow> go_error + bytes" and unmarshal :: "bytes \<Rightarrow> go_error + 'm" and what :: string
begin

lemma encode_InrD:
  "encode_with marshal what msg = Inr frame \<Longrightarrow>
   \<exists>payload. marshal msg = Inr payload \<and> frame = PutUint32 (word_of_nat (length payload)) @ payload"
  by (cases "marshal msg") (auto simp: encode_with_def)

lemma decode_encode:
  assumes enc: "encode_with marshal what msg = Inr frame" and small: "length frame < 2 ^ 32"
    and law: "\<And>b. marshal msg = Inr b \<Longrightarrow> unmarshal b = Inr msg"
  shows "decode_with unmarshal what (frame @ rest) = Inr msg"
proof -
  from encode_InrD [OF enc] obtain payload where
    p: "marshal msg = Inr payload" "frame = PutUint32 (word_of_nat (length payload)) @ payload" by blast
  have "unat (word_of_nat (length payload) :: 32 word) = length payload"
    using small p(2) by (simp add: unsigned_of_nat take_bit_nat_eq_self)
  moreover have "Uint32 (take 4 (frame @ rest)) = word_of_nat (length payload)"
    using Uint32_PutUint32 [of _ "[]"] by (simp add: p(2))
  ultimately show ?thesis
    using law [OF p(1)] by (simp add: decode_with_def frameHeaderSize_def p(2))
qed

lemma decode_Inr_iff:
  "decode_with unmarshal what data = Inr msg \<longleftrightarrow>
   (\<exists>header payload rest. data = header @ payload @ rest \<and> length header = 4 \<and>
      length payload = unat (Uint32 header) \<and> unmarshal payload = Inr msg)"
proof
  assume dec: "decode_with unmarshal what data = Inr msg"
  let ?n = "unat (Uint32 (take 4 data))"
  from dec have "4 \<le> length data" "?n \<le> length (drop 4 data)" "unmarshal (take ?n (drop 4 data)) = Inr msg"
    by (auto simp: decode_with_def frameHeaderSize_def Let_def split: if_splits)
  then show "\<exists>header payload rest. data = header @ payload @ rest \<and> length header = 4 \<and>
      length payload = unat (Uint32 header) \<and> unmarshal payload = Inr msg"
    by (intro exI [of _ "take 4 data"] exI [of _ "take ?n (drop 4 data)"] exI [of _ "drop ?n (drop 4 data)"])
       (simp del: drop_drop)
next
  assume "\<exists>header payload rest. data = header @ payload @ rest \<and> length header = 4 \<and>
      length payload = unat (Uint32 header) \<and> unmarshal payload = Inr msg"
  then show "decode_with unmarshal what data = Inr msg"
    by (auto simp: decode_with_def frameHeaderSize_def)
qed

end

text \<open>The two directions of the protocol are frames.\<close>

interpretation event_frames: frames "marshal_event W" "unmarshal_event W" "''server event''" for W .

interpretation client_frames: frames "marshal_client W" "unmarshal_client W" "''client message''" for W .

end
