(* ===== verification/Gateway.thy ===== *)
theory Gateway
  imports GatewayFrames Jwt Redis "HOL-Library.AList"
begin

text \<open>
  \<open>backend/services/ws-gateway\<close>: \<open>connmgr.go\<close>, \<open>registry.go\<close>, \<open>heartbeat.go\<close>, \<open>authtoken.go\<close>,
  \<open>auth.go\<close>, \<open>router.go\<close>, \<open>push.go\<close> and \<open>server.go\<close>.

  A WebSocket connection is an address (\<open>conn\<close>) into the list of sockets the gateway has accepted,
  so that the connection table, the read loops and the sockets share connections as the code's
  pointers do. A socket knows whether it is closed, what frames have been written to it and its
  read deadline. The map of connections is an association list with distinct keys. A read loop
  (\<open>readPump\<close>) is a goroutine; the running ones are listed in the state, and one iteration of one
  loop is one step. Instants and durations are in microseconds.
\<close>

section \<open>State\<close>

type_synonym conn = nat

record conn_entry =
  ce_UserID :: string
  ce_Conn :: conn
  ce_ConnectedAt :: int
  ce_SubscribedChannels :: "string list"    \<comment> \<open>the keys of the set, each once\<close>

record socket =
  sock_closed :: bool
  sock_sent :: "bytes list"
  sock_deadline :: "int option"

record pump =
  pump_user :: string
  pump_token :: string
  pump_conn :: conn

text \<open>A call to another service with its \<open>Authorization\<close> header, if any.\<close>

datatype rpc_call =
    RpcSendDM "string option" string string
  | RpcSendMessage "string option" string string

record gateway = infra +
  conns :: "(string \<times> conn_entry) list"
  sockets :: "socket list"
  pumps :: "pump list"
  push_sub :: "string option"      \<comment> \<open>the topic subscribed to\<close>
  calls :: "rpc_call list"         \<comment> \<open>calls to other services, oldest first\<close>

record gw_config =
  gwID :: string
  jwtSecret :: string
  heartbeatInterval :: int
  registryTTL :: int
  hasRegistry :: bool      \<comment> \<open>\<open>registry != nil\<close>\<close>

text \<open>What \<open>main.go\<close> starts the server with.\<close>

definition main_config :: "string \<Rightarrow> string \<Rightarrow> gw_config" where
  "main_config gw secret =
     \<lparr>gwID = gw, jwtSecret = secret, heartbeatInterval = 30 * 1000000,
      registryTTL = 5 * 60 * 1000000, hasRegistry = True\<rparr>"

section \<open>Connections\<close>

definition ConnManager_Register :: "string \<Rightarrow> conn \<Rightarrow> (gateway, unit) state" where
  "ConnManager_Register userID c =
     modify (\<lambda>s. s\<lparr>conns := AList.update userID
       \<lparr>ce_UserID = userID, ce_Conn = c, ce_ConnectedAt = now s, ce_SubscribedChannels = []\<rparr> (conns s)\<rparr>)"

definition close_socket :: "conn \<Rightarrow> gateway \<Rightarrow> gateway" where
  "close_socket c s = s\<lparr>sockets := (sockets s)[c := (sockets s ! c)\<lparr>sock_closed := True\<rparr>]\<rparr>"

definition ConnManager_Unregister :: "string \<Rightarrow> (gateway, unit) state" where
  "ConnManager_Unregister userID =
     modify (\<lambda>s. case map_of (conns s) userID of
       None \<Rightarrow> s
     | Some entry \<Rightarrow>
         (close_socket (ce_Conn entry) s)\<lparr>conns := AList.delete userID (conns s)\<rparr>)"

definition ConnManager_Get :: "string \<Rightarrow> (gateway, conn_entry option) state" where
  "ConnManager_Get userID = gets (\<lambda>s. map_of (conns s) userID)"

definition ConnManager_GetAll :: "(gateway, (string \<times> conn_entry) list) state" where
  "ConnManager_GetAll = gets conns"

definition ConnManager_Count :: "(gateway, nat) state" where
  "ConnManager_Count = gets (\<lambda>s. length (conns s))"

definition AddSubscribedChannel :: "string \<Rightarrow> string \<Rightarrow> (gateway, unit) state" where
  "AddSubscribedChannel userID channelID =
     modify (\<lambda>s. case map_of (conns s) userID of
       None \<Rightarrow> s
     | Some entry \<Rightarrow> s\<lparr>conns := AList.update userID
         (entry\<lparr>ce_SubscribedChannels := List.insert channelID (ce_SubscribedChannels entry)\<rparr>) (conns s)\<rparr>)"

definition RemoveSubscribedChannel :: "string \<Rightarrow> string \<Rightarrow> (gateway, unit) state" where
  "RemoveSubscribedChannel userID channelID =
     modify (\<lambda>s. case map_of (conns s) userID of
       None \<Rightarrow> s
     | Some entry \<Rightarrow> s\<lparr>conns := AList.update userID
         (entry\<lparr>ce_SubscribedChannels := removeAll channelID (ce_SubscribedChannels entry)\<rparr>) (conns s)\<rparr>)"

section \<open>Registry\<close>

definition registryKey :: "string \<Rightarrow> string" where
  "registryKey userID = ''ws:uid:'' @ userID"

definition RegisterConnection :: "gw_config \<Rightarrow> string \<Rightarrow> string \<Rightarrow> (gateway, go_error + unit) state" where
  "RegisterConnection cfg userID gw = do {
     r \<leftarrow> redis_set (registryKey userID) gw (registryTTL cfg);
     ret (wrap_err (''SET '' @ registryKey userID) r)
   }"

definition UnregisterConnection :: "string \<Rightarrow> (gateway, go_error + unit) state" where
  "UnregisterConnection userID = do {
     r \<leftarrow> redis_del (registryKey userID);
     ret (wrap_err (''DEL '' @ registryKey userID) r)
   }"

definition GetGatewayID :: "string \<Rightarrow> (gateway, go_error + string) state" where
  "GetGatewayID userID = do {
     r \<leftarrow> redis_get (registryKey userID);
     ret (case r of
            Inl e \<Rightarrow> if e = RedisNil then Inl (Errorf (''user '' @ userID @ '' not connected''))
                     else Inl (Wrap (''GET '' @ registryKey userID) e)
          | Inr val \<Rightarrow> Inr val)
   }"

text \<open>The result is a map; a user that appears twice is written twice with the same value.\<close>

fun zip_found :: "string list \<Rightarrow> string option list \<Rightarrow> (string \<times> string) list" where
  "zip_found (u # us) (Some gw # vals) = AList.update u gw (zip_found us vals)"
| "zip_found (u # us) (None # vals) = zip_found us vals"
| "zip_found us vals = []"

definition GetGatewayIDs ::
  "string list \<Rightarrow> (gateway, go_error + (string \<times> string) list) state" where
  "GetGatewayIDs userIDs =
     (if userIDs = [] then ret (Inr [])
      else do {
        r \<leftarrow> redis_mget (map registryKey userIDs);
        ret (case r of
               Inl e \<Rightarrow> Inl (Wrap ''MGET'' e)
             | Inr vals \<Rightarrow> Inr (zip_found userIDs vals))
      })"

section \<open>Sockets\<close>

text \<open>
  \<open>WriteMessage\<close>: the frame goes out as one binary message; on a closed connection, or when the
  network fails, it is an error (and may have gone out). What arrives next on a connection, as the
  WebSocket library reports it: a message with its type, or an error.
\<close>

datatype ws_message_type = TextMessage | BinaryMessage | OtherMessage

datatype incoming = Arrived ws_message_type bytes | Broken

definition conn_write :: "conn \<Rightarrow> bytes \<Rightarrow> (gateway, go_error + unit) state" where
  "conn_write c frame = do {
     closed \<leftarrow> gets (\<lambda>s. sock_closed (sockets s ! c));
     (if closed then ret (Inl (Errorf ''use of closed network connection''))
      else do {
        o1 \<leftarrow> next_outcome;
        (if o1 = Done \<or> o1 = Lost
         then modify (\<lambda>s. s\<lparr>sockets := (sockets s)[c :=
                (sockets s ! c)\<lparr>sock_sent := sock_sent (sockets s ! c) @ [frame]\<rparr>]\<rparr>)
         else ret ());
        ret (if o1 = Done then Inr () else Inl (Errorf ''websocket write''))
      })
   }"

definition WriteMessage :: "wire \<Rightarrow> conn \<Rightarrow> server_event \<Rightarrow> (gateway, go_error + unit) state" where
  "WriteMessage W c msg =
     (case EncodeFrame W msg of
        Inl err \<Rightarrow> ret (Inl (Wrap ''encode frame'' err))
      | Inr frame \<Rightarrow> do {
          r \<leftarrow> conn_write c frame;
          ret (wrap_err ''write websocket message'' r)
        })"

definition conn_read :: "conn \<Rightarrow> incoming \<Rightarrow> (gateway, go_error + (ws_message_type \<times> bytes)) state" where
  "conn_read c inc = gets (\<lambda>s.
     if sock_closed (sockets s ! c) then Inl (Errorf ''use of closed network connection'')
     else if (case sock_deadline (sockets s ! c) of None \<Rightarrow> False | Some t \<Rightarrow> t \<le> now s)
     then Inl (Errorf ''i/o timeout'')
     else (case inc of Broken \<Rightarrow> Inl (Errorf ''websocket'') | Arrived t data \<Rightarrow> Inr (t, data)))"

definition ReadMessage :: "wire \<Rightarrow> conn \<Rightarrow> incoming \<Rightarrow> (gateway, go_error + client_message) state" where
  "ReadMessage W c inc = do {
     r \<leftarrow> conn_read c inc;
     ret (case r of
            Inl err \<Rightarrow> Inl (Wrap ''read websocket message'' err)
          | Inr (messageType, data) \<Rightarrow>
              if messageType \<noteq> BinaryMessage then Inl (Errorf ''expected binary message'')
              else wrap_err ''decode client frame'' (DecodeClientFrame W data))
   }"

section \<open>Heartbeats\<close>

definition BuildHeartbeatAck :: "string \<Rightarrow> server_event" where
  "BuildHeartbeatAck requestID = (server_event_of HEARTBEAT_ACK)\<lparr>ev_request_id := requestID\<rparr>"

definition HandleHeartbeat :: "client_message \<Rightarrow> server_event" where
  "HandleHeartbeat msg = BuildHeartbeatAck (cmsg_request_id msg)"

definition IsHeartbeatMessage :: "client_message \<Rightarrow> bool" where
  "IsHeartbeatMessage msg \<longleftrightarrow> cmsg_type msg = HEARTBEAT"

text \<open>Setting the deadline of a closed connection is an error that nobody looks at.\<close>

definition ResetDeadline :: "gw_config \<Rightarrow> conn \<Rightarrow> (gateway, go_error + unit) state" where
  "ResetDeadline cfg c = do {
     closed \<leftarrow> gets (\<lambda>s. sock_closed (sockets s ! c));
     (if closed then ret (Inl (Wrap ''set read deadline'' (Errorf ''use of closed network connection'')))
      else do {
        modify (\<lambda>s. s\<lparr>sockets := (sockets s)[c :=
          (sockets s ! c)\<lparr>sock_deadline := Some (now s + heartbeatInterval cfg * 2)\<rparr>]\<rparr>);
        ret (Inr ())
      })
   }"

section \<open>Environment\<close>

text \<open>
  What lies outside the gateway: the two libraries, how the services answer (the n-th call; with
  the message's id and sequence number, or with no message), the texts of errors that come from
  outside, and what the machine makes of a float that does not fit an \<open>int64\<close>.
\<close>

record gw_env =
  gw_wire :: wire
  gw_jwt :: jwt_env
  gw_cfg :: gw_config
  rpc_answer :: "nat \<Rightarrow> rpc_call \<Rightarrow> go_error + (string \<times> int) option"
  external_text :: "go_error \<Rightarrow> string"
  float_overflow :: "int \<Rightarrow> int"

definition rpc :: "gw_env \<Rightarrow> rpc_call \<Rightarrow> (gateway, go_error + (string \<times> int) option) state" where
  "rpc env call = do {
     n \<leftarrow> gets (\<lambda>s. length (calls s));
     modify (\<lambda>s. s\<lparr>calls := calls s @ [call]\<rparr>);
     ret (rpc_answer env n call)
   }"

section \<open>Calls to the services\<close>

text \<open>The context carries the caller's token.\<close>

type_synonym ctx = "string option"

definition WithToken :: "ctx \<Rightarrow> string \<Rightarrow> ctx" where
  "WithToken ctx token = Some token"

definition TokenFromContext :: "ctx \<Rightarrow> string" where
  "TokenFromContext ctx = (case ctx of None \<Rightarrow> [] | Some v \<Rightarrow> v)"

definition auth_header :: "ctx \<Rightarrow> string option" where
  "auth_header ctx =
     (let token = TokenFromContext ctx in if token \<noteq> [] then Some (''Bearer '' @ token) else None)"

definition message_of_response ::
  "string \<Rightarrow> go_error + (string \<times> int) option \<Rightarrow> go_error + (string \<times> int)" where
  "message_of_response name resp =
     (case resp of
        Inl err \<Rightarrow> Inl (Wrap (name @ '' RPC'') err)
      | Inr None \<Rightarrow> Inl (Errorf (name @ '' returned nil message''))
      | Inr (Some msg) \<Rightarrow> Inr msg)"

definition userClient_SendDM ::
  "gw_env \<Rightarrow> ctx \<Rightarrow> string \<Rightarrow> string \<Rightarrow> string \<Rightarrow> (gateway, go_error + (string \<times> int)) state" where
  "userClient_SendDM env ctx senderID receiverID content = do {
     resp \<leftarrow> rpc env (RpcSendDM (auth_header ctx) receiverID content);
     ret (message_of_response ''SendDM'' resp)
   }"

definition communityClient_SendMessage ::
  "gw_env \<Rightarrow> ctx \<Rightarrow> string \<Rightarrow> string \<Rightarrow> string \<Rightarrow> (gateway, go_error + (string \<times> int)) state" where
  "communityClient_SendMessage env ctx senderID channelID content = do {
     resp \<leftarrow> rpc env (RpcSendMessage (auth_header ctx) channelID content);
     ret (message_of_response ''SendMessage'' resp)
   }"

section \<open>Router\<close>

definition ack_of :: "client_message \<Rightarrow> string \<Rightarrow> int \<Rightarrow> server_event" where
  "ack_of msg messageID seq =
     (server_event_of ACK)\<lparr>ev_request_id := cmsg_request_id msg, ev_ack_message_id := messageID,
                           ev_ack_seq := seq\<rparr>"

definition handleSendDM ::
  "gw_env \<Rightarrow> ctx \<Rightarrow> string \<Rightarrow> client_message \<Rightarrow> (gateway, go_error + server_event) state" where
  "handleSendDM env ctx userID msg =
     (case cmsg_send_dm msg of
        None \<Rightarrow> ret (Inl (Errorf ''send_dm_request is nil''))
      | Some req \<Rightarrow>
          if sd_receiver_id req = [] then ret (Inl (Errorf ''receiver_id is required''))
          else if sd_content req = [] then ret (Inl (Errorf ''content is required''))
          else do {
            r \<leftarrow> userClient_SendDM env ctx userID (sd_receiver_id req) (sd_content req);
            ret (case r of
                   Inl err \<Rightarrow> Inl (Wrap ''user service SendDM'' err)
                 | Inr (messageID, seq) \<Rightarrow> Inr (ack_of msg messageID seq))
          })"

definition handleSendChannelMessage ::
  "gw_env \<Rightarrow> ctx \<Rightarrow> string \<Rightarrow> client_message \<Rightarrow> (gateway, go_error + server_event) state" where
  "handleSendChannelMessage env ctx userID msg =
     (case cmsg_send_channel msg of
        None \<Rightarrow> ret (Inl (Errorf ''send_channel_message_request is nil''))
      | Some req \<Rightarrow>
          if sc_channel_id req = [] then ret (Inl (Errorf ''channel_id is required''))
          else if sc_content req = [] then ret (Inl (Errorf ''content is required''))
          else do {
            r \<leftarrow> communityClient_SendMessage env ctx userID (sc_channel_id req) (sc_content req);
            ret (case r of
                   Inl err \<Rightarrow> Inl (Wrap ''community service SendMessage'' err)
                 | Inr (messageID, seq) \<Rightarrow> Inr (ack_of msg messageID seq))
          })"

definition handleSubscribeChannel ::
  "string \<Rightarrow> client_message \<Rightarrow> (gateway, go_error + server_event) state" where
  "handleSubscribeChannel userID msg =
     (case cmsg_subscribe msg of
        None \<Rightarrow> ret (Inl (Errorf ''subscribe_channel_request is nil''))
      | Some channelID \<Rightarrow>
          if channelID = [] then ret (Inl (Errorf ''channel_id is required''))
          else do { AddSubscribedChannel userID channelID; ret (Inr (ack_of msg [] 0)) })"

definition handleUnsubscribeChannel ::
  "string \<Rightarrow> client_message \<Rightarrow> (gateway, go_error + server_event) state" where
  "handleUnsubscribeChannel userID msg =
     (case cmsg_unsubscribe msg of
        None \<Rightarrow> ret (Inl (Errorf ''unsubscribe_channel_request is nil''))
      | Some channelID \<Rightarrow>
          if channelID = [] then ret (Inl (Errorf ''channel_id is required''))
          else do { RemoveSubscribedChannel userID channelID; ret (Inr (ack_of msg [] 0)) })"

definition Route ::
  "gw_env \<Rightarrow> ctx \<Rightarrow> string \<Rightarrow> client_message \<Rightarrow> (gateway, go_error + server_event) state" where
  "Route env ctx userID msg =
     (case cmsg_type msg of
        SEND_DM \<Rightarrow> handleSendDM env ctx userID msg
      | SEND_CHANNEL_MESSAGE \<Rightarrow> handleSendChannelMessage env ctx userID msg
      | SUBSCRIBE_CHANNEL \<Rightarrow> handleSubscribeChannel userID msg
      | UNSUBSCRIBE_CHANNEL \<Rightarrow> handleUnsubscribeChannel userID msg
      | _ \<Rightarrow> ret (Inl (Errorf ''unknown message type'')))"

section \<open>Pushes\<close>

record push_payload =
  pp_Targets :: "string list"
  pp_EventType :: string
  pp_Payload :: "(string \<times> json) list"

definition pushTopic :: "string \<Rightarrow> string" where
  "pushTopic gw = ''gw.push.'' @ gw"

definition push_Subscribe :: "string \<Rightarrow> (gateway, go_error + unit) state" where
  "push_Subscribe gw = do {
     connected \<leftarrow> gets nats_connected;
     (if \<not> connected then ret (Inl (Errorf ''NATS connection is nil''))
      else do {
        let topic = pushTopic gw;
        o1 \<leftarrow> next_outcome;
        (if o1 = Done
         then do { modify (\<lambda>s. s\<lparr>push_sub := Some topic\<rparr>); ret (Inr ()) }
         else ret (Inl (Wrap (''subscribe to '' @ topic) (Errorf ''nats''))))
      })
   }"

definition push_Unsubscribe :: "(gateway, go_error + unit) state" where
  "push_Unsubscribe = do {
     sub \<leftarrow> gets push_sub;
     (case sub of
        None \<Rightarrow> ret (Inr ())
      | Some topic \<Rightarrow> do {
          o1 \<leftarrow> next_outcome;
          (if o1 = Done
           then do { modify (\<lambda>s. s\<lparr>push_sub := None\<rparr>); ret (Inr ()) }
           else ret (Inl (Wrap ''unsubscribe'' (Errorf ''nats''))))
        })
   }"

text \<open>Fields of the payload; one that is absent or of another type is empty. (No push holds an
  instant, which would be a text here.)\<close>

definition getStringField :: "(string \<times> json) list \<Rightarrow> string \<Rightarrow> string" where
  "getStringField m key = (case map_of m key of Some (JStr s) \<Rightarrow> s | _ \<Rightarrow> [])"

text \<open>
  A number in an \<open>interface{}\<close> is a \<open>float64\<close>: an integer of more than 53 bits is rounded to the
  nearest one that has 53 significant bits, to the even one of two.
\<close>

fun bit_length :: "nat \<Rightarrow> nat" where
  "bit_length n = (if n = 0 then 0 else Suc (bit_length (n div 2)))"

declare bit_length.simps [simp del]

definition float64_of_int :: "int \<Rightarrow> int" where
  "float64_of_int n =
     (let a = nat \<bar>n\<bar>; e = bit_length a - 53; q = a div 2 ^ e; r = a mod 2 ^ e;
          up = (2 * r > 2 ^ e \<or> 2 * r = 2 ^ e \<and> odd q)
      in if e = 0 then n else sgn n * int ((if up then q + 1 else q) * 2 ^ e))"

definition int64_of_float :: "gw_env \<Rightarrow> int \<Rightarrow> int" where
  "int64_of_float env f = (if - (2 ^ 63) \<le> f \<and> f < 2 ^ 63 then f else float_overflow env f)"

definition getInt64Field :: "gw_env \<Rightarrow> (string \<times> json) list \<Rightarrow> string \<Rightarrow> int" where
  "getInt64Field env m key =
     (case map_of m key of Some (JNum n) \<Rightarrow> int64_of_float env (float64_of_int n) | _ \<Rightarrow> 0)"

definition buildDMReceivedEvent :: "gw_env \<Rightarrow> (string \<times> json) list \<Rightarrow> server_event" where
  "buildDMReceivedEvent env p =
     (server_event_of DM_RECEIVED)\<lparr>ev_dm := Some
       \<lparr>dmr_message_id = getStringField p ''message_id'',
        dmr_sender_id = getStringField p ''sender_id'',
        dmr_sender_nickname = getStringField p ''sender_nickname'',
        dmr_content = getStringField p ''content'',
        dmr_created_at = getInt64Field env p ''created_at'', dmr_seq = getInt64Field env p ''seq''\<rparr>\<rparr>"

definition buildChannelMessageEvent :: "gw_env \<Rightarrow> (string \<times> json) list \<Rightarrow> server_event" where
  "buildChannelMessageEvent env p =
     (server_event_of CHANNEL_MESSAGE_RECEIVED)\<lparr>ev_channel := Some
       \<lparr>cmr_message_id = getStringField p ''message_id'',
        cmr_channel_id = getStringField p ''channel_id'',
        cmr_sender_id = getStringField p ''sender_id'',
        cmr_sender_nickname = getStringField p ''sender_nickname'',
        cmr_content = getStringField p ''content'',
        cmr_created_at = getInt64Field env p ''created_at'', cmr_seq = getInt64Field env p ''seq''\<rparr>\<rparr>"

definition buildUserOnlineEvent :: "(string \<times> json) list \<Rightarrow> server_event" where
  "buildUserOnlineEvent p =
     (server_event_of USER_ONLINE)\<lparr>ev_online := Some (getStringField p ''user_id'')\<rparr>"

definition buildUserOfflineEvent :: "(string \<times> json) list \<Rightarrow> server_event" where
  "buildUserOfflineEvent p =
     (server_event_of USER_OFFLINE)\<lparr>ev_offline := Some (getStringField p ''user_id'')\<rparr>"

definition buildNotificationEvent :: "gw_env \<Rightarrow> (string \<times> json) list \<Rightarrow> server_event" where
  "buildNotificationEvent env p =
     (server_event_of NOTIFICATION)\<lparr>ev_notification := Some
       \<lparr>nt_notification_type = getStringField p ''notification_type'',
        nt_source_id = getStringField p ''source_id'',
        nt_community_id = getStringField p ''community_id'',
        nt_sender_id = getStringField p ''sender_id'',
        nt_sender_nickname = getStringField p ''sender_nickname'',
        nt_preview = getStringField p ''preview'',
        nt_created_at = getInt64Field env p ''created_at''\<rparr>\<rparr>"

definition buildServerEvent :: "gw_env \<Rightarrow> push_payload \<Rightarrow> go_error + server_event" where
  "buildServerEvent env payload =
     (if pp_EventType payload = ''DM_RECEIVED'' then Inr (buildDMReceivedEvent env (pp_Payload payload))
      else if pp_EventType payload = ''CHANNEL_MESSAGE_RECEIVED''
        then Inr (buildChannelMessageEvent env (pp_Payload payload))
      else if pp_EventType payload = ''USER_ONLINE'' then Inr (buildUserOnlineEvent (pp_Payload payload))
      else if pp_EventType payload = ''USER_OFFLINE'' then Inr (buildUserOfflineEvent (pp_Payload payload))
      else if pp_EventType payload = ''NOTIFICATION'' then Inr (buildNotificationEvent env (pp_Payload payload))
      else Inl (Errorf ''unknown event type''))"

fun deliver_each :: "wire \<Rightarrow> server_event \<Rightarrow> nat \<Rightarrow> string list \<Rightarrow> (gateway, nat) state" where
  "deliver_each W event delivered [] = ret delivered"
| "deliver_each W event delivered (targetUserID # rest) = do {
     entry \<leftarrow> ConnManager_Get targetUserID;
     (case entry of
        None \<Rightarrow> deliver_each W event delivered rest
      | Some e \<Rightarrow> do {
          r \<leftarrow> WriteMessage W (ce_Conn e) event;
          (case r of
             Inl err \<Rightarrow> deliver_each W event delivered rest
           | Inr _ \<Rightarrow> deliver_each W event (delivered + 1) rest)
        })
   }"

definition DeliverToLocal :: "gw_env \<Rightarrow> push_payload \<Rightarrow> (gateway, nat) state" where
  "DeliverToLocal env payload =
     (case buildServerEvent env payload of
        Inl err \<Rightarrow> ret 0
      | Inr event \<Rightarrow> deliver_each (gw_wire env) event 0 (pp_Targets payload))"

fun json_map :: "json \<Rightarrow> go_error + (string \<times> json) list" where
  "json_map JNull = Inr []"
| "json_map (JObj kvs) = Inr kvs"
| "json_map _ = Inl JsonError"

definition read_PushPayload :: "json \<Rightarrow> go_error + push_payload" where
  "read_PushPayload j =
     (if \<not> json_is_object j then Inl JsonError else
      sum_bind (json_arr json_str (json_field j ''targets'')) (\<lambda>ts.
      sum_bind (json_str (json_field j ''event_type'')) (\<lambda>ty.
      sum_bind (json_map (json_field j ''payload'')) (\<lambda>p.
        Inr \<lparr>pp_Targets = ts, pp_EventType = ty, pp_Payload = p\<rparr>))))"

text \<open>A NATS message is the document in it, or nothing when its data is no JSON.\<close>

definition handleNATSMessage :: "gw_env \<Rightarrow> json option \<Rightarrow> (gateway, unit) state" where
  "handleNATSMessage env data =
     (case (case data of None \<Rightarrow> Inl JsonError | Some j \<Rightarrow> read_PushPayload j) of
        Inl err \<Rightarrow> ret ()
      | Inr payload \<Rightarrow> do { delivered \<leftarrow> DeliverToLocal env payload; ret () })"

section \<open>Server\<close>

definition AuthenticateUpgrade ::
  "gw_env \<Rightarrow> string \<Rightarrow> (gateway, go_error + (string \<times> string)) state" where
  "AuthenticateUpgrade env token =
     (if token = [] then ret (Inl (Errorf ''missing token query parameter''))
      else do {
        r \<leftarrow> ParseToken (gw_jwt env) (jwtSecret (gw_cfg env)) token;
        ret (case r of
               Inl err \<Rightarrow> Inl (Wrap ''invalid token'' err)
             | Inr userID \<Rightarrow> Inr (userID, token))
      })"

definition broadcastUserOnline :: "gw_env \<Rightarrow> string \<Rightarrow> (gateway, unit) state" where
  "broadcastUserOnline env userID = do {
     connected \<leftarrow> gets nats_connected;
     (if \<not> connected then ret ()
      else do {
        _ \<leftarrow> nats_publish ''constell.user.online''
              (JObj [(''gw_id'', JStr (gwID (gw_cfg env))), (''user_id'', JStr userID)]);
        ret ()
      })
   }"

definition broadcastUserOffline :: "string \<Rightarrow> (gateway, unit) state" where
  "broadcastUserOffline userID = do {
     connected \<leftarrow> gets nats_connected;
     (if \<not> connected then ret ()
      else do {
        _ \<leftarrow> nats_publish ''constell.user.offline'' (JObj [(''user_id'', JStr userID)]);
        ret ()
      })
   }"

definition register_in_redis :: "gw_env \<Rightarrow> string \<Rightarrow> (gateway, unit) state" where
  "register_in_redis env userID =
     (if hasRegistry (gw_cfg env)
      then do { _ \<leftarrow> RegisterConnection (gw_cfg env) userID (gwID (gw_cfg env)); ret () }
      else ret ())"

definition cleanupDisconnect :: "gw_env \<Rightarrow> string \<Rightarrow> (gateway, unit) state" where
  "cleanupDisconnect env userID = do {
     ConnManager_Unregister userID;
     (if hasRegistry (gw_cfg env)
      then do { _ \<leftarrow> UnregisterConnection userID; ret () } else ret ());
     broadcastUserOffline userID
   }"

text \<open>One round of the read loop of a connection: whether the loop goes on.\<close>

definition error_event_of :: "gw_env \<Rightarrow> client_message \<Rightarrow> go_error \<Rightarrow> server_event" where
  "error_event_of env msg err =
     (server_event_of SERVER_ERROR)\<lparr>ev_request_id := cmsg_request_id msg,
       ev_error := Some (''ROUTE_ERROR'', ''failed to process message: '' @ error_text (external_text env) err)\<rparr>"

definition readPump_round :: "gw_env \<Rightarrow> pump \<Rightarrow> incoming \<Rightarrow> (gateway, bool) state" where
  "readPump_round env p inc = do {
     let userID = pump_user p;
     let c = pump_conn p;
     let W = gw_wire env;
     r \<leftarrow> ReadMessage W c inc;
     (case r of
        Inl err \<Rightarrow> ret False
      | Inr msg \<Rightarrow>
          if IsHeartbeatMessage msg then do {
            w \<leftarrow> WriteMessage W c (HandleHeartbeat msg);
            (case w of
               Inl writeErr \<Rightarrow> ret False
             | Inr _ \<Rightarrow> do {
                 ResetDeadline (gw_cfg env) c;
                 register_in_redis env userID;
                 ret True
               })
          }
          else do {
            ack \<leftarrow> Route env (WithToken None (pump_token p)) userID msg;
            (case ack of
               Inl routeErr \<Rightarrow> do {
                 w \<leftarrow> WriteMessage W c (error_event_of env msg routeErr);
                 ret (\<not> isl w)
               }
             | Inr event \<Rightarrow> do {
                 w \<leftarrow> WriteMessage W c event;
                 ret (\<not> isl w)
               })
          })
   }"

definition HandleUpgrade :: "gw_env \<Rightarrow> string \<Rightarrow> (gateway, unit) state" where
  "HandleUpgrade env queryToken = do {
     r \<leftarrow> AuthenticateUpgrade env queryToken;
     (case r of
        Inl err \<Rightarrow> ret ()
      | Inr (userID, token) \<Rightarrow> do {
          o1 \<leftarrow> next_outcome;
          (if o1 \<noteq> Done then ret ()
           else do {
             c \<leftarrow> gets (\<lambda>s. length (sockets s));
             modify (\<lambda>s. s\<lparr>sockets := sockets s @
               [\<lparr>sock_closed = False, sock_sent = [], sock_deadline = None\<rparr>]\<rparr>);
             ConnManager_Register userID c;
             register_in_redis env userID;
             broadcastUserOnline env userID;
             modify (\<lambda>s. s\<lparr>pumps := pumps s @
               [\<lparr>pump_user = userID, pump_token = token, pump_conn = c\<rparr>]\<rparr>);
             ResetDeadline (gw_cfg env) c;
             ret ()
           })
        })
   }"

section \<open>What can happen\<close>

text \<open>
  A client asks for a connection, something arrives for a read loop, a push arrives, time passes.
  A loop that ends runs its deferred clean-up.
\<close>

datatype gw_event =
    UpgradeRequest string
  | Incoming nat incoming
  | PushMessage "json option"
  | Elapse nat

definition readPump :: "gw_env \<Rightarrow> nat \<Rightarrow> incoming \<Rightarrow> (gateway, unit) state" where
  "readPump env i inc = do {
     ps \<leftarrow> gets pumps;
     (if i < length ps
      then do {
        goes_on \<leftarrow> readPump_round env (ps ! i) inc;
        (if goes_on then ret ()
         else do {
           modify (\<lambda>s. s\<lparr>pumps := take i (pumps s) @ drop (Suc i) (pumps s)\<rparr>);
           cleanupDisconnect env (pump_user (ps ! i))
         })
      }
      else ret ())
   }"

fun gw_do :: "gw_env \<Rightarrow> gw_event \<Rightarrow> (gateway, unit) state" where
  "gw_do env (UpgradeRequest token) = HandleUpgrade env token"
| "gw_do env (Incoming i inc) = readPump env i inc"
| "gw_do env (PushMessage data) = handleNATSMessage env data"
| "gw_do env (Elapse dt) = modify (\<lambda>s. s\<lparr>now := now s + int dt\<rparr>)"

inductive gw_reaches :: "gw_env \<Rightarrow> gateway \<Rightarrow> gateway \<Rightarrow> bool" for env :: gw_env and s0 :: gateway where
  start: "gw_reaches env s0 s0"
| step: "gw_reaches env s0 s \<Longrightarrow> gw_reaches env s0 (snd (run_state (gw_do env ev) s))"

definition gw_start :: "infra \<Rightarrow> gateway" where
  "gw_start e = infra.extend e \<lparr>conns = [], sockets = [], pumps = [], push_sub = None, calls = []\<rparr>"

end
