(* ===== verification/GatewayFacts.thy ===== *)
theory GatewayFacts
  imports Gateway
begin

text \<open>
  What the gateway promises: frames are read back as they were written; the table of connections
  only holds open connections of the user it names, each with its running read loop; a frame is
  written to a connection only in answer to what came in on it or because its user is a target of
  a push; every call to another service carries the token the connection was opened with.
\<close>

section \<open>Frames\<close>

text \<open>C22: A message that is encoded into a frame is decoded from it again, whatever follows the frame,
  as long as the frame is shorter than four gigabytes; so it is for both directions.\<close>

theorem frame_roundtrip:
  assumes "wire_ok W"
  shows "(EncodeFrame W ev = Inr f \<and> length f < 2 ^ 32 \<longrightarrow> DecodeFrame W (f @ rest) = Inr ev) \<and>
    (EncodeClientFrame W msg = Inr g \<and> length g < 2 ^ 32 \<longrightarrow> DecodeClientFrame W (g @ rest) = Inr msg)"
  using assms event_frames.decode_encode [of W ev f rest] client_frames.decode_encode [of W msg g rest]
  by (auto simp: wire_ok_def EncodeFrame_def DecodeFrame_def EncodeClientFrame_def DecodeClientFrame_def)

text \<open>
  An example of a wire: it knows three kinds of event, each with one text, and understands an empty
  payload of a client as a heartbeat and every other as one direct message.
\<close>

definition demo_bytes :: "string \<Rightarrow> bytes" where
  "demo_bytes t = map (\<lambda>c. word_of_nat (of_char c)) t"

definition demo_text :: "bytes \<Rightarrow> string" where
  "demo_text b = map (\<lambda>w. char_of (unat w)) b"

lemma demo_text_bytes [simp]: "demo_text (demo_bytes t) = t"
proof -
  have "char_of (unat (word_of_nat (of_char c) :: 8 word)) = c" for c
  proof -
    have "(of_char c :: nat) < 256" by (rule nat_of_char_less_256)
    then show ?thesis by (simp add: unsigned_of_nat take_bit_nat_eq_self)
  qed
  then show ?thesis by (simp add: demo_text_def demo_bytes_def comp_def)
qed

fun demo_event :: "bytes \<Rightarrow> server_event" where
  "demo_event (b # rest) =
     (if b = 0 then (server_event_of ACK)\<lparr>ev_request_id := demo_text rest\<rparr>
      else if b = 1 then (server_event_of HEARTBEAT_ACK)\<lparr>ev_request_id := demo_text rest\<rparr>
      else (server_event_of USER_ONLINE)\<lparr>ev_online := Some (demo_text rest)\<rparr>)"
| "demo_event [] = server_event_of ACK"

definition demo_payload :: "server_event \<Rightarrow> bytes" where
  "demo_payload m =
     (case ev_online m of
        Some u \<Rightarrow> 2 # demo_bytes u
      | None \<Rightarrow> (if ev_type m = ACK then 0 else 1) # demo_bytes (ev_request_id m))"

definition demo_wire :: wire where
  "demo_wire =
     \<lparr>marshal_event = (\<lambda>m. if demo_event (demo_payload m) = m then Inr (demo_payload m) else Inl (Errorf ''size'')),
      unmarshal_event = (\<lambda>b. Inr (demo_event b)),
      marshal_client = (\<lambda>m. Inl (Errorf ''size'')),
      unmarshal_client = (\<lambda>b. Inr \<lparr>cmsg_type = (if b = [] then HEARTBEAT else SEND_DM), cmsg_request_id = ''r'',
        cmsg_send_dm = Some \<lparr>sd_receiver_id = ''vb'', sd_content = ''hi'', sd_file_ids = []\<rparr>,
        cmsg_send_channel = None, cmsg_subscribe = None, cmsg_unsubscribe = None\<rparr>)\<rparr>"

lemma demo_wire_ok: "wire_ok demo_wire"
  by (auto simp: wire_ok_def demo_wire_def split: if_splits)

theorem frame_roundtrip_witness:
  "\<exists>f. EncodeFrame demo_wire ((server_event_of ACK)\<lparr>ev_request_id := ''r''\<rparr>) = Inr f \<and>
     DecodeFrame demo_wire (f @ [7]) = Inr ((server_event_of ACK)\<lparr>ev_request_id := ''r''\<rparr>)"
proof -
  let ?ev = "(server_event_of ACK)\<lparr>ev_request_id := ''r''\<rparr>"
  have "EncodeFrame demo_wire ?ev = Inr (PutUint32 2 @ [0, 0x72])" by code_simp
  moreover have "length (PutUint32 2 @ [0, 0x72]) < 2 ^ 32" by simp
  ultimately show ?thesis
    using frame_roundtrip [OF demo_wire_ok, of ?ev "PutUint32 2 @ [0, 0x72]" "[7]"] by blast
qed

text \<open>An example of a gateway: a token is the id of its user.\<close>

definition demo_gw :: gw_env where
  "demo_gw =
     \<lparr>gw_wire = demo_wire, gw_jwt = \<lparr>jwt_sign = (\<lambda>k c. Inr (cl_sub c)), jwt_parse = (\<lambda>k t tok. Inr tok)\<rparr>,
      gw_cfg = main_config ''g1'' ''k'', rpc_answer = (\<lambda>n call. Inr (Some ([], 0))),
      external_text = (\<lambda>e. []), float_overflow = (\<lambda>n. 0)\<rparr>"

definition demo_infra0 :: infra where
  "demo_infra0 = \<lparr>db = empty_db, now = 0, outcomes = [], nats_connected = True, published = [], redis = Map.empty\<rparr>"

definition demo_gw_start :: gateway where
  "demo_gw_start = gw_start demo_infra0"

definition demo_connected :: gateway where
  "demo_connected = snd (run_state (gw_do demo_gw (UpgradeRequest ''ua'')) demo_gw_start)"

definition demo_asked :: gateway where
  "demo_asked = snd (run_state (gw_do demo_gw (Incoming 0 (Arrived BinaryMessage [0, 0, 0, 1, 9]))) demo_connected)"

lemma demo_reaches: "gw_reaches demo_gw demo_gw_start demo_connected"
  unfolding demo_connected_def by (intro gw_reaches.intros)

section \<open>The shape of a state\<close>

text \<open>The connections, which sockets are closed, and the running loops: what most operations leave
  alone.\<close>

definition shape :: "gateway \<Rightarrow> (string \<times> conn_entry) list \<times> bool list \<times> pump list" where
  "shape s = (conns s, map sock_closed (sockets s), pumps s)"

lemma shape_update [simp]:
  "shape (s\<lparr>outcomes := os, now := t\<rparr>) = shape s" "shape (s\<lparr>published := p\<rparr>) = shape s"
  "shape (s\<lparr>redis := r\<rparr>) = shape s" "shape (s\<lparr>calls := cs\<rparr>) = shape s" "shape (s\<lparr>now := t\<rparr>) = shape s"
  "shape (s\<lparr>outcomes := os\<rparr>) = shape s"
  by (simp_all add: shape_def)

lemma map_closed_update:
  "sock_closed (f (sk ! c)) = sock_closed (sk ! c) \<Longrightarrow> map sock_closed (sk[c := f (sk ! c)]) = map sock_closed sk"
  by (cases "c < length sk") (simp_all add: map_update list_update_same_conv list_update_beyond)

lemma keeps_shape_calls [preserves_intros]:
  "keeps shape next_outcome" "keeps shape (redis_set k v ttl)" "keeps shape (redis_del k)"
  "keeps shape (nats_publish subj j)" "keeps shape (rpc env call)"
proof -
  show out: "keeps shape next_outcome" by (rule keeps_next_outcome) simp
  show "keeps shape (redis_set k v ttl)" "keeps shape (redis_del k)"
    unfolding redis_set_def redis_del_def
    by (intro preserves_intros out keeps_modify; simp)+
  show "keeps shape (nats_publish subj j)"
    unfolding nats_publish_def
    by (rule keeps_bind [OF out])
       (auto split: outcome.split intro!: keeps_bind keeps_return keeps_modify)
  show "keeps shape (rpc env call)"
    unfolding rpc_def by (intro preserves_intros keeps_modify) simp
qed

lemma keeps_shape_sockets [preserves_intros]:
  "keeps shape (WriteMessage W c ev)" "keeps shape (ReadMessage W c inc)" "keeps shape (ResetDeadline cfg c)"
proof -
  have "keeps shape (conn_write c f)" for f
    unfolding conn_write_def
    by (intro preserves_intros keeps_modify) (simp add: shape_def map_closed_update)
  then show "keeps shape (WriteMessage W c ev)"
    unfolding WriteMessage_def by (intro preserves_intros)
  show "keeps shape (ReadMessage W c inc)"
    unfolding ReadMessage_def conn_read_def by (intro preserves_intros)
  show "keeps shape (ResetDeadline cfg c)"
    unfolding ResetDeadline_def
    by (intro preserves_intros keeps_modify) (simp add: shape_def map_closed_update)
qed

lemma keeps_shape_services [preserves_intros]:
  "keeps shape (userClient_SendDM env ctx u r t)" "keeps shape (communityClient_SendMessage env ctx u c t)"
  "keeps shape (broadcastUserOnline env u)" "keeps shape (broadcastUserOffline u)"
  "keeps shape (register_in_redis env u)" "keeps shape (UnregisterConnection u)"
  unfolding userClient_SendDM_def communityClient_SendMessage_def broadcastUserOnline_def
    broadcastUserOffline_def register_in_redis_def RegisterConnection_def UnregisterConnection_def
  by (intro preserves_intros)+

lemma keeps_shape_push [preserves_intros]: "keeps shape (handleNATSMessage env data)"
proof -
  have "keeps shape (deliver_each W ev n ts)" for W ev n ts
  proof (induction ts arbitrary: n)
    case Nil
    show ?case by (simp add: keeps_return)
  next
    case (Cons t ts)
    then show ?case by (auto simp: ConnManager_Get_def intro!: preserves_intros)
  qed
  then show ?thesis
    unfolding handleNATSMessage_def DeliverToLocal_def by (intro preserves_intros)
qed

section \<open>The table of connections\<close>

definition gw_ok :: "gateway \<Rightarrow> bool" where
  "gw_ok s \<longleftrightarrow>
     distinct (map fst (conns s)) \<and> distinct (map pump_conn (pumps s)) \<and>
     (\<forall>p \<in> set (pumps s). pump_conn p < length (sockets s)) \<and>
     (\<forall>u e. map_of (conns s) u = Some e \<longrightarrow>
        ce_UserID e = u \<and> distinct (ce_SubscribedChannels e) \<and> \<not> sock_closed (sockets s ! ce_Conn e) \<and>
        (\<exists>p \<in> set (pumps s). pump_user p = u \<and> pump_conn p = ce_Conn e))"

lemma gw_ok_entry:
  assumes "gw_ok s" and "map_of (conns s) u = Some e"
  shows "ce_Conn e < length (sockets s)" and "\<exists>p \<in> set (pumps s). pump_user p = u \<and> pump_conn p = ce_Conn e"
    and "\<not> sock_closed (sockets s ! ce_Conn e)"
  using assms unfolding gw_ok_def by (metis, blast+)

lemma gw_ok_shape:
  assumes "shape s' = shape s" and ok: "gw_ok s"
  shows "gw_ok s'"
proof -
  have eq: "conns s' = conns s" "pumps s' = pumps s" "map sock_closed (sockets s') = map sock_closed (sockets s)"
    using assms(1) by (simp_all add: shape_def)
  then have len: "length (sockets s') = length (sockets s)" by (metis length_map)
  have same: "sock_closed (sockets s' ! k) = sock_closed (sockets s ! k)" if "k < length (sockets s)" for k
    using arg_cong [OF eq(3), of "\<lambda>l. l ! k"] that len by simp
  have "ce_UserID e = u \<and> distinct (ce_SubscribedChannels e) \<and> \<not> sock_closed (sockets s' ! ce_Conn e) \<and>
      (\<exists>p \<in> set (pumps s). pump_user p = u \<and> pump_conn p = ce_Conn e)"
    if e: "map_of (conns s) u = Some e" for u e
  proof -
    from ok e have c: "ce_UserID e = u" "distinct (ce_SubscribedChannels e)" "\<not> sock_closed (sockets s ! ce_Conn e)"
      "\<exists>p \<in> set (pumps s). pump_user p = u \<and> pump_conn p = ce_Conn e" by (auto simp: gw_ok_def)
    with ok have "ce_Conn e < length (sockets s)" by (metis gw_ok_def)
    with same c show ?thesis by simp
  qed
  with ok show ?thesis by (simp add: gw_ok_def eq len)
qed

lemma keeps_gw_ok: "keeps shape m \<Longrightarrow> preserves gw_ok m"
  unfolding keeps_def preserves_def by (blast intro: gw_ok_shape)

lemma gw_ok_subscriptions:
  assumes ok: "gw_ok s" and e: "map_of (conns s) u = Some e" and "distinct chs"
  shows "gw_ok (s\<lparr>conns := AList.update u (e\<lparr>ce_SubscribedChannels := chs\<rparr>) (conns s)\<rparr>)"
  using assms by (auto simp: gw_ok_def distinct_update update_conv')

lemma preserves_gw_ok_subscriptions [preserves_intros]:
  "preserves gw_ok (AddSubscribedChannel u c)" "preserves gw_ok (RemoveSubscribedChannel u c)"
  unfolding AddSubscribedChannel_def RemoveSubscribedChannel_def
  by (rule preserves_modify; auto split: option.split intro!: gw_ok_subscriptions
      simp: distinct_removeAll gw_ok_def [THEN iffD1, THEN conjunct2])+

lemma preserves_gw_ok_Route [preserves_intros]: "preserves gw_ok (Route env ctx u msg)"
  unfolding Route_def handleSendDM_def handleSendChannelMessage_def handleSubscribeChannel_def
    handleUnsubscribeChannel_def
  by (auto split: client_message_type.split option.split
      intro!: preserves_intros keeps_gw_ok [OF keeps_shape_services(1)] keeps_gw_ok [OF keeps_shape_services(2)])

lemmas keeps_gw_ok_calls = keeps_shape_calls [THEN keeps_gw_ok] keeps_shape_sockets [THEN keeps_gw_ok]
  keeps_shape_services [THEN keeps_gw_ok] keeps_shape_push [THEN keeps_gw_ok]

lemma preserves_gw_ok_round: "preserves gw_ok (readPump_round env p inc)"
  unfolding readPump_round_def Let_def
  by (intro preserves_intros keeps_gw_ok_calls)

lemma keeps_pumps_shape: "keeps shape m \<Longrightarrow> keeps pumps m"
  by (simp add: keeps_def shape_def)

lemma keeps_pumps_round: "keeps pumps (readPump_round env p inc)"
proof -
  have "keeps pumps (AddSubscribedChannel u c)" "keeps pumps (RemoveSubscribedChannel u c)" for u c
    unfolding AddSubscribedChannel_def RemoveSubscribedChannel_def
    by (rule keeps_modify; simp split: option.split)+
  then have "keeps pumps (Route env ctx u msg)" for ctx u msg
    unfolding Route_def handleSendDM_def handleSendChannelMessage_def handleSubscribeChannel_def
      handleUnsubscribeChannel_def
    by (auto split: client_message_type.split option.split intro!: preserves_intros
        keeps_pumps_shape [OF keeps_shape_services(1)] keeps_pumps_shape [OF keeps_shape_services(2)])
  then show ?thesis
    unfolding readPump_round_def Let_def
    by (intro preserves_intros keeps_pumps_shape [OF keeps_shape_sockets(1)] keeps_pumps_shape [OF keeps_shape_sockets(2)]
        keeps_pumps_shape [OF keeps_shape_sockets(3)] keeps_pumps_shape [OF keeps_shape_services(5)])
qed

text \<open>A new connection: its socket is open and belongs to nobody else.\<close>

definition with_pump :: "pump \<Rightarrow> gateway \<Rightarrow> gateway" where
  "with_pump p s = s\<lparr>pumps := pumps s @ [p]\<rparr>"

lemma gw_ok_accept:
  assumes ok: "gw_ok s"
  defines "c \<equiv> length (sockets s)"
  defines "s1 \<equiv> s\<lparr>sockets := sockets s @ [\<lparr>sock_closed = False, sock_sent = [], sock_deadline = None\<rparr>]\<rparr>"
  shows "gw_ok (with_pump \<lparr>pump_user = u, pump_token = tok, pump_conn = c\<rparr>
    (snd (run_state (ConnManager_Register u c) s1)))"
proof -
  have "c \<notin> pump_conn ` set (pumps s)" using ok by (auto simp: gw_ok_def c_def)
  moreover have "ce_Conn e < length (sockets s)" if "map_of (conns s) v = Some e" for v e
    using ok that unfolding gw_ok_def by metis
  ultimately show ?thesis
    using ok
    by (auto simp: gw_ok_def with_pump_def ConnManager_Register_def s1_def c_def distinct_update update_conv'
        nth_append less_Suc_eq)
qed

lemma shape_with_pump: "shape s' = shape s \<Longrightarrow> shape (with_pump p s') = shape (with_pump p s)"
  by (simp add: shape_def with_pump_def)

lemma keeps_gw_ok_with_pump: "keeps shape m \<Longrightarrow> preserves (\<lambda>s. gw_ok (with_pump p s)) m"
  unfolding keeps_def preserves_def by (metis gw_ok_shape shape_with_pump)

lemma run_AuthenticateUpgrade_state: "snd (run_state (AuthenticateUpgrade env tok) s) = s"
  by (simp add: AuthenticateUpgrade_def run_simps)

lemma preserves_gw_ok_upgrade: "preserves gw_ok (HandleUpgrade env tok)"
proof (rule preservesI)
  fix s assume ok: "gw_ok s"
  obtain r where auth: "run_state (AuthenticateUpgrade env tok) s = (r, s)"
    using run_AuthenticateUpgrade_state [of env tok s] by (metis prod.collapse)
  show "gw_ok (snd (run_state (HandleUpgrade env tok) s))"
  proof (cases r)
    case (Inl e)
    with auth ok show ?thesis by (simp add: HandleUpgrade_def)
  next
    case (Inr ut)
    obtain u t where ut: "ut = (u, t)" by fastforce
    obtain o1 s1 where out: "run_state next_outcome s = (o1, s1)" by fastforce
    have ok1: "gw_ok s1" by (rule preservesD [OF keeps_gw_ok_calls(1) out ok])
    let ?c = "length (sockets s1)" let ?p = "\<lparr>pump_user = u, pump_token = t, pump_conn = ?c\<rparr>"
    let ?s2 = "s1\<lparr>sockets := sockets s1 @ [\<lparr>sock_closed = False, sock_sent = [], sock_deadline = None\<rparr>]\<rparr>"
    let ?s3 = "snd (run_state (ConnManager_Register u ?c) ?s2)"
    let ?rest = "do {
      register_in_redis env u;
      broadcastUserOnline env u;
      modify (with_pump ?p);
      ResetDeadline (gw_cfg env) ?c;
      ret ()
    }"
    have "gw_ok (with_pump ?p ?s3)" by (rule gw_ok_accept [OF ok1])
    moreover have "gw_ok (snd (run_state ?rest x))" if "gw_ok (with_pump ?p x)" for x
    proof -
      obtain s4 where 1: "run_state (register_in_redis env u) x = ((), s4)"
        by (cases "run_state (register_in_redis env u) x") simp
      obtain s5 where 2: "run_state (broadcastUserOnline env u) s4 = ((), s5)"
        by (cases "run_state (broadcastUserOnline env u) s4") simp
      obtain y3 s6 where 3: "run_state (ResetDeadline (gw_cfg env) ?c) (with_pump ?p s5) = (y3, s6)" by fastforce
      have "gw_ok (with_pump ?p s4)"
        by (rule preservesD [where I = "\<lambda>s. gw_ok (with_pump ?p s)", OF keeps_gw_ok_with_pump 1 that])
           (intro preserves_intros)
      then have "gw_ok (with_pump ?p s5)"
        by (rule preservesD [where I = "\<lambda>s. gw_ok (with_pump ?p s)", OF keeps_gw_ok_with_pump 2, rotated])
           (intro preserves_intros)
      then have "gw_ok s6" by (rule preservesD [OF keeps_gw_ok_calls(8) 3])
      with 1 2 3 show ?thesis by simp
    qed
    ultimately have "gw_ok (snd (run_state ?rest ?s3))" by blast
    then show ?thesis
      using auth Inr ut out ok1
      by (simp add: HandleUpgrade_def with_pump_def [abs_def] ConnManager_Register_def)
  qed
qed

lemma remove_nth:
  assumes "distinct (map f xs)" and "i < length xs"
  shows "set (take i xs @ drop (Suc i) xs) = set xs - {xs ! i}"
    and "distinct (map f (take i xs @ drop (Suc i) xs))"
proof -
  obtain ys x zs where xs: "xs = ys @ x # zs" "take i xs = ys" "drop (Suc i) xs = zs" "xs ! i = x"
    using id_take_nth_drop [OF assms(2)] by blast
  from assms(1) show "set (take i xs @ drop (Suc i) xs) = set xs - {xs ! i}"
    unfolding xs(2-4) unfolding xs(1) by auto
  from assms(1) show "distinct (map f (take i xs @ drop (Suc i) xs))"
    unfolding xs(2-4) unfolding xs(1) by auto
qed

text \<open>A loop ends: its user's entry goes, with the connection in it.\<close>

lemma gw_ok_cleanup:
  assumes ok: "gw_ok s" and i: "i < length (pumps s)"
  shows "gw_ok (snd (run_state (ConnManager_Unregister (pump_user (pumps s ! i)))
    (s\<lparr>pumps := take i (pumps s) @ drop (Suc i) (pumps s)\<rparr>)))"
proof -
  let ?p = "pumps s ! i" let ?ps = "take i (pumps s) @ drop (Suc i) (pumps s)"
  have dist: "distinct (map pump_conn (pumps s))" using ok by (simp add: gw_ok_def)
  note ps = remove_nth [OF dist i]
  have other: "p' \<in> set ?ps" if "p' \<in> set (pumps s)" "pump_user p' \<noteq> pump_user ?p" for p'
    using that ps(1) by auto
  have entry: "\<exists>p \<in> set (pumps s). pump_user p = v \<and> pump_conn p = ce_Conn e" if "map_of (conns s) v = Some e" for v e
    using ok that by (auto simp: gw_ok_def)
  have apart: "ce_Conn e \<noteq> ce_Conn e'" if "map_of (conns s) v = Some e" "map_of (conns s) v' = Some e'" "v \<noteq> v'" for v v' e e'
    using entry [OF that(1)] entry [OF that(2)] that(3) distinct_map_key_eq [OF dist] by metis
  let ?u = "pump_user ?p"
  let ?x = "snd (run_state (ConnManager_Unregister ?u) (s\<lparr>pumps := ?ps\<rparr>))"
  have x: "map_of (conns ?x) = (map_of (conns s))(?u := None)" "distinct (map fst (conns ?x))"
    "pumps ?x = ?ps" "length (sockets ?x) = length (sockets s)"
    using ok by (auto simp: ConnManager_Unregister_def close_socket_def delete_conv' distinct_delete gw_ok_def
        fun_eq_iff split: option.split)
  have open_: "\<not> sock_closed (sockets ?x ! k)" if "\<not> sock_closed (sockets s ! k)" "k < length (sockets s)"
    "\<And>e. map_of (conns s) ?u = Some e \<Longrightarrow> ce_Conn e \<noteq> k" for k
    using that by (auto simp: ConnManager_Unregister_def close_socket_def nth_list_update split: option.split)
  have "ce_UserID e = v \<and> distinct (ce_SubscribedChannels e) \<and> \<not> sock_closed (sockets ?x ! ce_Conn e) \<and>
      (\<exists>p \<in> set (pumps ?x). pump_user p = v \<and> pump_conn p = ce_Conn e)" if "map_of (conns ?x) v = Some e" for v e
  proof -
    from that have v: "v \<noteq> ?u" "map_of (conns s) v = Some e" by (auto simp: x(1) split: if_splits)
    from entry [OF v(2)] obtain p where p: "p \<in> set (pumps s)" "pump_user p = v" "pump_conn p = ce_Conn e" by blast
    with ok have "ce_Conn e < length (sockets s)" unfolding gw_ok_def by metis
    moreover have "ce_UserID e = v" "distinct (ce_SubscribedChannels e)" "\<not> sock_closed (sockets s ! ce_Conn e)"
      using ok v(2) by (auto simp: gw_ok_def)
    moreover have "p \<in> set ?ps" using other p v(1) by simp
    moreover have "ce_Conn e' \<noteq> ce_Conn e" if "map_of (conns s) ?u = Some e'" for e'
      using apart [OF that v(2)] v(1) by blast
    ultimately have "\<not> sock_closed (sockets ?x ! ce_Conn e)" by (intro open_)
    with \<open>p \<in> set ?ps\<close> p(2,3) \<open>ce_UserID e = v\<close> \<open>distinct (ce_SubscribedChannels e)\<close>
    show ?thesis unfolding x(3) by blast
  qed
  moreover have "\<forall>p \<in> set ?ps. pump_conn p < length (sockets s)" using ok unfolding ps(1) gw_ok_def by blast
  ultimately show ?thesis using x ps(2) by (simp add: gw_ok_def)
qed

lemma preserves_gw_ok_cleanup: "keeps shape m \<Longrightarrow> gw_ok s \<Longrightarrow> gw_ok (snd (run_state m s))"
  using keeps_gw_ok by (auto simp: preserves_def)

lemma preserves_gw_ok_readPump: "preserves gw_ok (readPump env i inc)"
proof (rule preservesI)
  fix s assume ok: "gw_ok s"
  show "gw_ok (snd (run_state (readPump env i inc) s))"
  proof (cases "i < length (pumps s)")
    case False
    with ok show ?thesis by (simp add: readPump_def)
  next
    case True
    let ?p = "pumps s ! i"
    obtain b s1 where round: "run_state (readPump_round env ?p inc) s = (b, s1)" by fastforce
    have ok1: "gw_ok s1" by (rule preservesD [OF preserves_gw_ok_round round ok])
    have pumps: "pumps s1 = pumps s" by (rule keepsD [OF keeps_pumps_round round])
    show ?thesis
    proof (cases b)
      case True
      with round \<open>i < _\<close> ok1 show ?thesis by (simp add: readPump_def)
    next
      case False
      let ?x = "snd (run_state (ConnManager_Unregister (pump_user ?p))
        (s1\<lparr>pumps := take i (pumps s1) @ drop (Suc i) (pumps s1)\<rparr>))"
      have "gw_ok ?x" using gw_ok_cleanup [OF ok1, of i] True pumps by simp
      moreover have "keeps shape (do {
          (if hasRegistry (gw_cfg env) then do { _ \<leftarrow> UnregisterConnection (pump_user ?p); ret () } else ret ());
          broadcastUserOffline (pump_user ?p)
        })" (is "keeps shape ?rest") by (intro preserves_intros)
      ultimately have "gw_ok (snd (run_state ?rest ?x))" by (rule preserves_gw_ok_cleanup [rotated])
      then show ?thesis
        using round \<open>i < _\<close> False
        by (simp add: readPump_def cleanupDisconnect_def ConnManager_Unregister_def)
    qed
  qed
qed

lemma preserves_gw_ok: "preserves gw_ok (gw_do env ev)"
proof (cases ev)
  case (Elapse dt)
  have "keeps shape (modify (\<lambda>s. s\<lparr>now := now s + int dt\<rparr>))" by (rule keeps_modify) simp
  then show ?thesis using Elapse keeps_gw_ok by simp
qed (auto intro: preserves_gw_ok_upgrade preserves_gw_ok_readPump keeps_gw_ok_calls)

lemma gw_ok_start: "gw_ok (gw_start e)"
  by (simp add: gw_ok_def gw_start_def infra.extend_def)

lemma gw_reaches_ok: "gw_reaches env (gw_start e) s \<Longrightarrow> gw_ok s"
  by (induction rule: gw_reaches.induct)
     (use gw_ok_start preserves_gw_ok in \<open>auto simp: preserves_def\<close>)

text \<open>C13: In every reachable state of a gateway, over any sequence of upgrades, messages, pushes and
  pauses, with any failures: each user has at most one entry in the table of connections, the entry
  names the user, its connection is open, its subscriptions are without duplicates, and a read loop
  for that user is running on it; no two loops share a connection.\<close>

theorem connections_open:
  assumes "gw_reaches env (gw_start e) s"
  shows "distinct (map fst (conns s)) \<and> distinct (map pump_conn (pumps s)) \<and>
    (\<forall>u entry. map_of (conns s) u = Some entry \<longrightarrow>
      ce_UserID entry = u \<and> distinct (ce_SubscribedChannels entry) \<and> ce_Conn entry < length (sockets s) \<and>
      \<not> sock_closed (sockets s ! ce_Conn entry) \<and>
      (\<exists>p \<in> set (pumps s). pump_user p = u \<and> pump_conn p = ce_Conn entry))"
proof -
  have ok: "gw_ok s" by (rule gw_reaches_ok [OF assms])
  moreover have "ce_Conn entry < length (sockets s)" if "map_of (conns s) u = Some entry" for u entry
    using ok that unfolding gw_ok_def by metis
  ultimately show ?thesis by (simp add: gw_ok_def)
qed

theorem connections_open_witness:
  "map_of (conns demo_connected) ''ua'' \<noteq> None \<and> ce_UserID (the (map_of (conns demo_connected) ''ua'')) = ''ua'' \<and>
   \<not> sock_closed (sockets demo_connected ! ce_Conn (the (map_of (conns demo_connected) ''ua'')))"
proof -
  have "map_of (conns demo_connected) ''ua'' \<noteq> None" by code_simp
  then show ?thesis
    using connections_open [OF demo_reaches [unfolded demo_gw_start_def]] by auto
qed

section \<open>Who gets a frame\<close>

definition sent :: "gateway \<Rightarrow> bytes list list" where
  "sent s = map sock_sent (sockets s)"

text \<open>Only the sockets in \<open>K\<close> may have got frames since \<open>sk\<close>.\<close>

definition sent_outside :: "conn set \<Rightarrow> bytes list list \<Rightarrow> gateway \<Rightarrow> bool" where
  "sent_outside K sk s \<longleftrightarrow> length sk \<le> length (sent s) \<and> (\<forall>k < length sk. k \<notin> K \<longrightarrow> sent s ! k = sk ! k)"

lemma sent_update [simp]:
  "sent (s\<lparr>outcomes := os, now := t\<rparr>) = sent s" "sent (s\<lparr>published := p\<rparr>) = sent s"
  "sent (s\<lparr>redis := r\<rparr>) = sent s" "sent (s\<lparr>calls := cs\<rparr>) = sent s" "sent (s\<lparr>now := t\<rparr>) = sent s"
  "sent (s\<lparr>outcomes := os\<rparr>) = sent s" "sent (s\<lparr>conns := c\<rparr>) = sent s" "sent (s\<lparr>pumps := ps\<rparr>) = sent s"
  by (simp_all add: sent_def)

lemma map_sent_update:
  "sock_sent x = sock_sent (sk ! c) \<Longrightarrow> map sock_sent (sk[c := x]) = map sock_sent sk"
  by (cases "c < length sk") (simp_all add: map_update list_update_same_conv list_update_beyond)

lemma keeps_sent [preserves_intros]:
  "keeps sent next_outcome" "keeps sent (redis_set k v ttl)" "keeps sent (redis_del k)"
  "keeps sent (nats_publish subj j)" "keeps sent (rpc env call)" "keeps sent (ReadMessage W c inc)"
  "keeps sent (ResetDeadline cfg c)" "keeps sent (ConnManager_Register u c)"
  "keeps sent (ConnManager_Unregister u)" "keeps sent (AddSubscribedChannel u ch)"
  "keeps sent (RemoveSubscribedChannel u ch)"
proof -
  show out: "keeps sent next_outcome" by (rule keeps_next_outcome) simp
  show "keeps sent (redis_set k v ttl)" "keeps sent (redis_del k)"
    unfolding redis_set_def redis_del_def
    by (intro preserves_intros out keeps_modify; simp)+
  show "keeps sent (nats_publish subj j)"
    unfolding nats_publish_def
    by (rule keeps_bind [OF out])
       (auto split: outcome.split intro!: keeps_bind keeps_return keeps_modify)
  show "keeps sent (rpc env call)"
    unfolding rpc_def by (intro preserves_intros keeps_modify) simp
  show "keeps sent (ReadMessage W c inc)"
    unfolding ReadMessage_def conn_read_def by (intro preserves_intros)
  show "keeps sent (ResetDeadline cfg c)"
    unfolding ResetDeadline_def
    by (intro preserves_intros keeps_modify) (simp add: sent_def map_sent_update)
  show "keeps sent (ConnManager_Register u c)" "keeps sent (ConnManager_Unregister u)"
    "keeps sent (AddSubscribedChannel u ch)" "keeps sent (RemoveSubscribedChannel u ch)"
    unfolding ConnManager_Register_def ConnManager_Unregister_def AddSubscribedChannel_def
      RemoveSubscribedChannel_def
    by (rule keeps_modify; simp add: sent_def close_socket_def map_sent_update split: option.split)+
qed

lemma keeps_sent_services [preserves_intros]:
  "keeps sent (broadcastUserOnline env u)" "keeps sent (broadcastUserOffline u)"
  "keeps sent (register_in_redis env u)" "keeps sent (UnregisterConnection u)"
  "keeps sent (Route env ctx u msg)"
proof -
  show "keeps sent (broadcastUserOnline env u)" "keeps sent (broadcastUserOffline u)"
    "keeps sent (register_in_redis env u)" "keeps sent (UnregisterConnection u)"
    unfolding broadcastUserOnline_def broadcastUserOffline_def register_in_redis_def
      RegisterConnection_def UnregisterConnection_def
    by (intro preserves_intros)+
  show "keeps sent (Route env ctx u msg)"
    unfolding Route_def handleSendDM_def handleSendChannelMessage_def handleSubscribeChannel_def
      handleUnsubscribeChannel_def userClient_SendDM_def communityClient_SendMessage_def
    by (auto split: client_message_type.split option.split intro!: preserves_intros)
qed

lemma keeps_sent_outside: "keeps sent m \<Longrightarrow> preserves (sent_outside K sk) m"
  by (simp add: keeps_def preserves_def sent_outside_def)

lemma preserves_sent_write:
  assumes "c \<in> K"
  shows "preserves (sent_outside K sk) (WriteMessage W c ev)"
proof -
  have "sent_outside K sk (s\<lparr>sockets := (sockets s)[c := x]\<rparr>)" if "sent_outside K sk s" for s x
    using that assms by (auto simp: sent_outside_def sent_def) (metis nth_list_update_neq)
  then have "preserves (sent_outside K sk) (conn_write c f)" for f
    unfolding conn_write_def
    by (intro preserves_intros preserves_modify keeps_sent_outside [OF keeps_sent(1)])
  then show ?thesis
    unfolding WriteMessage_def by (intro preserves_intros)
qed

lemma preserves_sent_round: "preserves (sent_outside {pump_conn p} sk) (readPump_round env p inc)"
  unfolding readPump_round_def Let_def
  by (intro preserves_intros preserves_sent_write keeps_sent_outside [OF keeps_sent(6)]
      keeps_sent_outside [OF keeps_sent(7)] keeps_sent_outside [OF keeps_sent_services(3)]
      keeps_sent_outside [OF keeps_sent_services(5)] singletonI)

lemma sent_deliver_each:
  assumes "run_state (deliver_each W ev n ts) s = (r, s')" and "sent_outside K sk s"
    and "\<And>t e. t \<in> set ts \<Longrightarrow> map_of (conns s) t = Some e \<Longrightarrow> ce_Conn e \<in> K"
  shows "sent_outside K sk s'"
  using assms
proof (induction ts arbitrary: n s)
  case Nil
  then show ?case by simp
next
  case (Cons t ts)
  show ?case
  proof (cases "map_of (conns s) t")
    case None
    with Cons.prems(1) have "run_state (deliver_each W ev n ts) s = (r, s')" by (simp add: ConnManager_Get_def)
    then show ?thesis by (rule Cons.IH) (use Cons.prems in auto)
  next
    case (Some e)
    obtain w s1 where w: "run_state (WriteMessage W (ce_Conn e) ev) s = (w, s1)" by fastforce
    have "ce_Conn e \<in> K" using Cons.prems(3) [OF _ Some] by simp
    then have "sent_outside K sk s1"
      by (rule preservesD [OF preserves_sent_write w Cons.prems(2)])
    moreover have conns: "conns s1 = conns s"
      using keepsD [OF keeps_shape_sockets(1) w] by (simp add: shape_def)
    moreover obtain m where "run_state (deliver_each W ev m ts) s1 = (r, s')"
      using Cons.prems(1) Some w by (auto simp: ConnManager_Get_def split: sum.splits)
    moreover have "ce_Conn e' \<in> K" if "t' \<in> set ts" "map_of (conns s1) t' = Some e'" for t' e'
      using Cons.prems(3) [of t' e'] that conns by simp
    ultimately show ?thesis by (intro Cons.IH)
  qed
qed

lemma sent_cleanup: "keeps sent (cleanupDisconnect env u)"
  unfolding cleanupDisconnect_def by (intro preserves_intros)

lemma sent_readPump:
  assumes "i < length (pumps s)"
  shows "sent_outside {pump_conn (pumps s ! i)} (sent s) (snd (run_state (readPump env i inc) s))"
proof -
  let ?p = "pumps s ! i"
  let ?I = "sent_outside {pump_conn ?p} (sent s)"
  let ?go = "\<lambda>b. if b then ret () else do {
      modify (\<lambda>s. s\<lparr>pumps := take i (pumps s) @ drop (Suc i) (pumps s)\<rparr>);
      cleanupDisconnect env (pump_user ?p) }"
  have drop: "preserves ?I (modify (\<lambda>s. s\<lparr>pumps := take i (pumps s) @ drop (Suc i) (pumps s)\<rparr>))"
    by (rule preserves_modify) (simp add: sent_outside_def)
  have "preserves ?I (do { b \<leftarrow> readPump_round env ?p inc; ?go b })"
    by (intro preserves_intros preserves_sent_round drop keeps_sent_outside [OF sent_cleanup])
  moreover have "?I s" by (simp add: sent_outside_def)
  ultimately show ?thesis using assms by (simp add: readPump_def preserves_def)
qed

lemma sent_upgrade: "sent_outside {} (sent s) (snd (run_state (HandleUpgrade env tok) s))"
proof -
  let ?I = "sent_outside {} (sent s)"
  have add: "preserves ?I (modify (\<lambda>s. s\<lparr>sockets := sockets s @ [\<lparr>sock_closed = False, sock_sent = [], sock_deadline = None\<rparr>]\<rparr>))"
    by (rule preserves_modify) (auto simp: sent_outside_def sent_def nth_append)
  have pump: "preserves ?I (modify (\<lambda>s. s\<lparr>pumps := pumps s @ [p]\<rparr>))" for p
    by (rule preserves_modify) (simp add: sent_outside_def)
  have auth: "preserves ?I (AuthenticateUpgrade env tok)"
    using run_AuthenticateUpgrade_state by (simp add: preserves_def)
  have "preserves ?I (HandleUpgrade env tok)"
    unfolding HandleUpgrade_def
    by (intro preserves_intros add pump auth keeps_sent_outside [OF keeps_sent(1)]
        keeps_sent_outside [OF keeps_sent(7)] keeps_sent_outside [OF keeps_sent(8)]
        keeps_sent_outside [OF keeps_sent_services(1)] keeps_sent_outside [OF keeps_sent_services(3)])
  moreover have "?I s" by (simp add: sent_outside_def)
  ultimately show ?thesis by (simp add: preserves_def)
qed

text \<open>C14: A frame goes out on a connection for two reasons only: something came in on that very
  connection, or a push arrived that names the connection's user among its targets. Nobody is sent
  what is meant for somebody else.\<close>

theorem frames_only_to_owner:
  assumes reach: "gw_reaches env (gw_start e) s" and k: "k < length (sockets s)"
    and changed: "sock_sent (sockets (snd (run_state (gw_do env ev) s)) ! k) \<noteq> sock_sent (sockets s ! k)"
  shows "\<exists>p \<in> set (pumps s). pump_conn p = k \<and>
    ((\<exists>i inc. ev = Incoming i inc \<and> i < length (pumps s) \<and> pumps s ! i = p) \<or>
     (\<exists>j payload. ev = PushMessage (Some j) \<and> read_PushPayload j = Inr payload \<and>
       pump_user p \<in> set (pp_Targets payload)))"
proof -
  let ?s' = "snd (run_state (gw_do env ev) s)"
  have hit: "k \<in> K" if "sent_outside K (sent s) ?s'" for K
  proof (rule ccontr)
    assume "k \<notin> K"
    with that k have "sent ?s' ! k = sent s ! k" "k < length (sent ?s')" by (auto simp: sent_outside_def sent_def)
    with k changed show False by (simp add: sent_def)
  qed
  show ?thesis
  proof (cases ev)
    case (UpgradeRequest tok)
    with hit [of "{}"] sent_upgrade show ?thesis by simp
  next
    case (Elapse dt)
    with hit [of "{}"] show ?thesis by (simp add: sent_outside_def)
  next
    case (Incoming i inc)
    show ?thesis
    proof (cases "i < length (pumps s)")
      case True
      with hit [of "{pump_conn (pumps s ! i)}"] sent_readPump Incoming show ?thesis by auto
    next
      case False
      with hit [of "{}"] Incoming show ?thesis by (simp add: readPump_def sent_outside_def)
    qed
  next
    case (PushMessage data)
    have idle: False if "?s' = s" using hit [of "{}"] that by (simp add: sent_outside_def)
    then obtain j payload ev' where j: "data = Some j" "read_PushPayload j = Inr payload"
      and ev': "buildServerEvent env payload = Inr ev'"
      using PushMessage
      by (fastforce simp: handleNATSMessage_def DeliverToLocal_def split: option.splits sum.splits)
    let ?K = "{ce_Conn e | t e. t \<in> set (pp_Targets payload) \<and> map_of (conns s) t = Some e}"
    obtain n s1 where run: "run_state (deliver_each (gw_wire env) ev' 0 (pp_Targets payload)) s = (n, s1)" by fastforce
    have "?s' = s1" using run j ev' PushMessage by (simp add: handleNATSMessage_def DeliverToLocal_def)
    moreover have "sent_outside ?K (sent s) s1"
      by (rule sent_deliver_each [OF run]) (auto simp: sent_outside_def)
    ultimately have "k \<in> ?K" using hit [of ?K] by simp
    then obtain t entry where t: "t \<in> set (pp_Targets payload)" "map_of (conns s) t = Some entry" "ce_Conn entry = k"
      by blast
    from gw_ok_entry(2) [OF gw_reaches_ok [OF reach] t(2)] t(3) obtain p where
      "p \<in> set (pumps s)" "pump_user p = t" "pump_conn p = k" by blast
    with t(1) j PushMessage show ?thesis by blast
  qed
qed

theorem frames_only_to_owner_witness:
  "sock_sent (sockets demo_asked ! 0) \<noteq> sock_sent (sockets demo_connected ! 0) \<and>
   (\<exists>p \<in> set (pumps demo_connected). pump_conn p = 0)"
proof -
  have changed: "sock_sent (sockets demo_asked ! 0) \<noteq> sock_sent (sockets demo_connected ! 0)"
    and one: "0 < length (sockets demo_connected)" by code_simp+
  show ?thesis
    using frames_only_to_owner [OF demo_reaches [unfolded demo_gw_start_def] one
        changed [unfolded demo_asked_def]] changed by blast
qed

section \<open>Who calls the services\<close>

fun rpc_header :: "rpc_call \<Rightarrow> string option" where
  "rpc_header (RpcSendDM h t c) = h"
| "rpc_header (RpcSendMessage h t c) = h"

text \<open>A loop holds a token that was accepted for its user.\<close>

definition pumps_authenticated :: "gw_env \<Rightarrow> gateway \<Rightarrow> bool" where
  "pumps_authenticated env s \<longleftrightarrow> (\<forall>p \<in> set (pumps s). pump_token p \<noteq> [] \<and>
     (\<exists>t. jwt_parse (gw_jwt env) (jwtSecret (gw_cfg env)) t (pump_token p) = Inr (pump_user p)))"

definition calls_with :: "string option \<Rightarrow> rpc_call list \<Rightarrow> gateway \<Rightarrow> bool" where
  "calls_with h cs s \<longleftrightarrow> (\<exists>new. calls s = cs @ new \<and> (\<forall>c \<in> set new. rpc_header c = h))"

lemma keeps_calls_field [preserves_intros]:
  "keeps calls next_outcome" "keeps calls (redis_set k v ttl)" "keeps calls (redis_del k)"
  "keeps calls (nats_publish subj j)" "keeps calls (ReadMessage W c inc)" "keeps calls (WriteMessage W c ev)"
  "keeps calls (ResetDeadline cfg c)" "keeps calls (ConnManager_Register u c)"
  "keeps calls (ConnManager_Unregister u)" "keeps calls (AddSubscribedChannel u ch)"
  "keeps calls (RemoveSubscribedChannel u ch)" "keeps calls (broadcastUserOnline env u)"
  "keeps calls (broadcastUserOffline u)" "keeps calls (register_in_redis env u)"
  "keeps calls (UnregisterConnection u)"
proof -
  show out: "keeps calls next_outcome" by (rule keeps_next_outcome) simp
  show redis: "keeps calls (redis_set k v ttl)" "keeps calls (redis_del k)" for k v ttl
    unfolding redis_set_def redis_del_def
    by (intro preserves_intros out keeps_modify; simp)+
  show nats: "keeps calls (nats_publish subj j)" for subj j
    unfolding nats_publish_def
    by (rule keeps_bind [OF out])
       (auto split: outcome.split intro!: keeps_bind keeps_return keeps_modify)
  show "keeps calls (ReadMessage W c inc)"
    unfolding ReadMessage_def conn_read_def by (intro preserves_intros)
  have "keeps calls (conn_write c f)" for f
    unfolding conn_write_def by (intro preserves_intros out keeps_modify) simp
  then show "keeps calls (WriteMessage W c ev)"
    unfolding WriteMessage_def by (intro preserves_intros)
  show "keeps calls (ResetDeadline cfg c)"
    unfolding ResetDeadline_def by (intro preserves_intros keeps_modify) simp
  show "keeps calls (ConnManager_Register u c)" "keeps calls (ConnManager_Unregister u)"
    "keeps calls (AddSubscribedChannel u ch)" "keeps calls (RemoveSubscribedChannel u ch)"
    unfolding ConnManager_Register_def ConnManager_Unregister_def AddSubscribedChannel_def
      RemoveSubscribedChannel_def
    by (rule keeps_modify; simp add: close_socket_def split: option.split)+
  show "keeps calls (broadcastUserOnline env u)" "keeps calls (broadcastUserOffline u)"
    "keeps calls (register_in_redis env u)" "keeps calls (UnregisterConnection u)"
    unfolding broadcastUserOnline_def broadcastUserOffline_def register_in_redis_def
      RegisterConnection_def UnregisterConnection_def
    by (intro preserves_intros redis nats)+
qed

lemma keeps_calls_with: "keeps calls m \<Longrightarrow> preserves (calls_with h cs) m"
  by (simp add: keeps_def preserves_def calls_with_def)

lemma calls_with_Route:
  "preserves (calls_with (auth_header ctx) cs) (Route env ctx u msg)"
proof -
  have "preserves (calls_with (auth_header ctx) cs) (rpc env call)" if "rpc_header call = auth_header ctx" for call
    unfolding rpc_def
    by (intro preserves_intros preserves_modify) (use that in \<open>auto simp: calls_with_def\<close>)
  then show ?thesis
    unfolding Route_def handleSendDM_def handleSendChannelMessage_def handleSubscribeChannel_def
      handleUnsubscribeChannel_def userClient_SendDM_def communityClient_SendMessage_def
    by (auto split: client_message_type.split option.split
        intro!: preserves_intros keeps_calls_with [OF keeps_calls_field(10)] keeps_calls_with [OF keeps_calls_field(11)])
qed

lemma calls_with_round:
  assumes "auth_header (WithToken None (pump_token p)) = h"
  shows "preserves (calls_with h cs) (readPump_round env p inc)"
  unfolding readPump_round_def Let_def assms [symmetric]
  by (intro preserves_intros calls_with_Route keeps_calls_with [OF keeps_calls_field(5)]
      keeps_calls_with [OF keeps_calls_field(6)] keeps_calls_with [OF keeps_calls_field(7)]
      keeps_calls_with [OF keeps_calls_field(14)])

lemma calls_readPump:
  assumes "i < length (pumps s)" and "auth_header (WithToken None (pump_token (pumps s ! i))) = h"
  shows "calls_with h (calls s) (snd (run_state (readPump env i inc) s))"
proof -
  let ?p = "pumps s ! i"
  let ?I = "calls_with h (calls s)"
  have drop: "preserves ?I (modify (\<lambda>s. s\<lparr>pumps := take i (pumps s) @ drop (Suc i) (pumps s)\<rparr>))"
    by (rule preserves_modify) (simp add: calls_with_def)
  have "keeps calls (cleanupDisconnect env (pump_user ?p))"
    unfolding cleanupDisconnect_def by (intro preserves_intros)
  then have "preserves ?I (do { b \<leftarrow> readPump_round env ?p inc; if b then ret () else do {
      modify (\<lambda>s. s\<lparr>pumps := take i (pumps s) @ drop (Suc i) (pumps s)\<rparr>);
      cleanupDisconnect env (pump_user ?p) } })"
    by (intro preserves_intros calls_with_round assms(2) drop keeps_calls_with)
  moreover have "?I s" by (simp add: calls_with_def)
  ultimately show ?thesis using assms(1) by (simp add: readPump_def preserves_def)
qed

lemma keeps_calls_upgrade: "keeps calls (HandleUpgrade env tok)"
  unfolding HandleUpgrade_def AuthenticateUpgrade_def ParseToken_def
  by (intro preserves_intros keeps_modify; simp)

lemma keeps_calls_push: "keeps calls (handleNATSMessage env data)"
proof -
  have "keeps calls (deliver_each W ev n ts)" for W ev n ts
  proof (induction ts arbitrary: n)
    case (Cons t ts)
    then show ?case by (auto simp: ConnManager_Get_def intro!: preserves_intros)
  qed (simp add: keeps_return)
  then show ?thesis unfolding handleNATSMessage_def DeliverToLocal_def by (intro preserves_intros)
qed

text \<open>The loops that run: a new one has been authenticated, others only go.\<close>

definition accepted :: "gw_env \<Rightarrow> int \<Rightarrow> pump \<Rightarrow> bool" where
  "accepted env t p \<longleftrightarrow>
     pump_token p \<noteq> [] \<and> jwt_parse (gw_jwt env) (jwtSecret (gw_cfg env)) t (pump_token p) = Inr (pump_user p)"

lemma keeps_pumps_calls:
  "keeps pumps next_outcome" "keeps pumps (ConnManager_Register u c)" "keeps pumps (register_in_redis env u)"
  "keeps pumps (broadcastUserOnline env u)" "keeps pumps (ResetDeadline cfg c)" "keeps pumps (cleanupDisconnect env u)"
proof -
  show "keeps pumps next_outcome" by (rule keeps_next_outcome) simp
  show "keeps pumps (register_in_redis env u)" by (rule keeps_pumps_shape [OF keeps_shape_services(5)])
  show "keeps pumps (broadcastUserOnline env u)" by (rule keeps_pumps_shape [OF keeps_shape_services(3)])
  show "keeps pumps (ResetDeadline cfg c)" by (rule keeps_pumps_shape [OF keeps_shape_sockets(3)])
  show "keeps pumps (ConnManager_Register u c)"
    unfolding ConnManager_Register_def by (rule keeps_modify) simp
  have "keeps pumps (ConnManager_Unregister u)"
    unfolding ConnManager_Unregister_def by (rule keeps_modify) (simp add: close_socket_def split: option.split)
  then show "keeps pumps (cleanupDisconnect env u)"
    unfolding cleanupDisconnect_def
    by (intro preserves_intros keeps_pumps_shape [OF keeps_shape_services(4)]
        keeps_pumps_shape [OF keeps_shape_services(5)] keeps_pumps_shape [OF keeps_shape_services(6)])
qed

lemma pumps_upgrade:
  "triple (\<lambda>x. x = s) (HandleUpgrade env tok)
     (\<lambda>_ x. set (pumps x) \<subseteq> set (pumps s) \<union> {p. accepted env (now s) p})"
  unfolding HandleUpgrade_def
proof (rule triple_bind)
  let ?J = "\<lambda>x. set (pumps x) \<subseteq> set (pumps s) \<union> {p. accepted env (now s) p}"
  let ?good = "\<lambda>r. case r of Inl e \<Rightarrow> True | Inr (u, t) \<Rightarrow>
    (\<forall>c. accepted env (now s) \<lparr>pump_user = u, pump_token = t, pump_conn = c\<rparr>)"
  show "triple (\<lambda>x. x = s) (AuthenticateUpgrade env tok) (\<lambda>r x. ?J x \<and> ?good r)"
    by (rule tripleI) (auto simp: AuthenticateUpgrade_def run_simps accepted_def wrap_err_def
        split: if_splits sum.splits)
  fix r
  have "preserves ?J (case r of Inl err \<Rightarrow> ret () | Inr (userID, token) \<Rightarrow> do {
          o1 \<leftarrow> next_outcome;
          (if o1 \<noteq> Done then ret ()
           else do {
             c \<leftarrow> gets (\<lambda>s. length (sockets s));
             modify (\<lambda>s. s\<lparr>sockets := sockets s @
               [\<lparr>sock_closed = False, sock_sent = [], sock_deadline = None\<rparr>]\<rparr>);
             ConnManager_Register userID c;
             register_in_redis env userID;
             broadcastUserOnline env userID;
             modify (\<lambda>s. s\<lparr>pumps := pumps s @
               [\<lparr>pump_user = userID, pump_token = token, pump_conn = c\<rparr>]\<rparr>);
             ResetDeadline (gw_cfg env) c;
             ret ()
           })
        })" (is "preserves _ ?k") if "?good r"
    using that
    by (auto split: sum.split intro!: preserves_intros preserves_modify
        keeps_pumps_calls [THEN keeps_preserves])
  then show "triple (\<lambda>x. ?J x \<and> ?good r) ?k (\<lambda>_. ?J)"
    unfolding triple_preserves [symmetric] by (cases "?good r") (auto simp: triple_def)
qed

lemma pumps_do: "set (pumps (snd (run_state (gw_do env ev) s))) \<subseteq> set (pumps s) \<union> {p. accepted env (now s) p}"
proof (cases ev)
  case (UpgradeRequest tok)
  have "triple (\<lambda>x. x = s) (HandleUpgrade env tok)
      (\<lambda>_ x. set (pumps x) \<subseteq> set (pumps s) \<union> {p. accepted env (now s) p})" by (rule pumps_upgrade)
  with UpgradeRequest show ?thesis by (simp add: triple_def case_prod_unfold)
next
  case (Incoming i inc)
  have round: "pumps (snd (run_state (readPump_round env p inc) s)) = pumps s" for p
    using keeps_pumps_round by (simp add: keeps_def)
  moreover have "pumps (snd (run_state (cleanupDisconnect env u) s')) = pumps s'" for u s'
    using keeps_pumps_calls(6) by (simp add: keeps_def)
  ultimately have "set (pumps (snd (run_state (readPump env i inc) s))) \<subseteq> set (pumps s)"
    by (auto simp: readPump_def case_prod_unfold dest: in_set_takeD in_set_dropD)
  with Incoming show ?thesis by auto
next
  case (PushMessage data)
  have "pumps (snd (run_state (handleNATSMessage env data) s)) = pumps s"
    using keeps_pumps_shape [OF keeps_shape_push] by (simp add: keeps_def)
  with PushMessage show ?thesis by simp
qed simp

text \<open>Time does not run backwards.\<close>

lemma later_calls [preserves_intros]:
  "preserves (\<lambda>s. t \<le> now s) next_outcome" "preserves (\<lambda>s. t \<le> now s) (redis_set k v ttl)"
  "preserves (\<lambda>s. t \<le> now s) (redis_del k)" "preserves (\<lambda>s. t \<le> now s) (nats_publish subj j)"
  "preserves (\<lambda>s. t \<le> now s) (rpc env call)"
proof -
  show out: "preserves (\<lambda>s. t \<le> now s) next_outcome"
    by (auto simp: preserves_def next_outcome_def split: list.split)
  show "preserves (\<lambda>s. t \<le> now s) (redis_set k v ttl)" "preserves (\<lambda>s. t \<le> now s) (redis_del k)"
    "preserves (\<lambda>s. t \<le> now s) (rpc env call)"
    unfolding redis_set_def redis_del_def rpc_def
    by (intro preserves_intros out preserves_modify; simp)+
  show "preserves (\<lambda>s. t \<le> now s) (nats_publish subj j)"
    unfolding nats_publish_def
    by (rule preserves_bind [OF out])
       (auto split: outcome.split intro!: preserves_intros preserves_modify)
qed

lemma later_sockets [preserves_intros]:
  "preserves (\<lambda>s. t \<le> now s) (WriteMessage W c ev)" "preserves (\<lambda>s. t \<le> now s) (ReadMessage W c inc)"
  "preserves (\<lambda>s. t \<le> now s) (ResetDeadline cfg c)" "preserves (\<lambda>s. t \<le> now s) (ConnManager_Register u c)"
  "preserves (\<lambda>s. t \<le> now s) (ConnManager_Unregister u)" "preserves (\<lambda>s. t \<le> now s) (AddSubscribedChannel u ch)"
  "preserves (\<lambda>s. t \<le> now s) (RemoveSubscribedChannel u ch)"
  unfolding WriteMessage_def conn_write_def ReadMessage_def conn_read_def ResetDeadline_def
    ConnManager_Register_def ConnManager_Unregister_def AddSubscribedChannel_def RemoveSubscribedChannel_def
  by (intro preserves_intros preserves_modify; simp add: close_socket_def split: option.split)+

lemma later_services [preserves_intros]:
  "preserves (\<lambda>s. t \<le> now s) (register_in_redis env u)" "preserves (\<lambda>s. t \<le> now s) (UnregisterConnection u)"
  "preserves (\<lambda>s. t \<le> now s) (broadcastUserOnline env u)" "preserves (\<lambda>s. t \<le> now s) (broadcastUserOffline u)"
  "preserves (\<lambda>s. t \<le> now s) (Route env ctx u msg)"
  unfolding register_in_redis_def RegisterConnection_def UnregisterConnection_def broadcastUserOnline_def
    broadcastUserOffline_def Route_def handleSendDM_def handleSendChannelMessage_def handleSubscribeChannel_def
    handleUnsubscribeChannel_def userClient_SendDM_def communityClient_SendMessage_def
  by (auto split: client_message_type.split option.split intro!: preserves_intros)

lemma later_do: "preserves (\<lambda>s. t \<le> now s) (gw_do env ev)"
proof -
  have "preserves (\<lambda>s. t \<le> now s) (deliver_each W e n ts)" for W e n ts
  proof (induction ts arbitrary: n)
    case (Cons u ts)
    then show ?case by (auto simp: ConnManager_Get_def intro!: preserves_intros)
  qed (simp add: preserves_return)
  then show ?thesis
    by (cases ev)
       (simp_all only: gw_do.simps HandleUpgrade_def AuthenticateUpgrade_def readPump_def readPump_round_def
         cleanupDisconnect_def handleNATSMessage_def DeliverToLocal_def Let_def;
        intro preserves_intros preserves_modify; simp)+
qed

text \<open>C15: A read loop only runs for a user whose token was accepted, at some instant that has passed;
  and a call to another service is only made for a message on a connection, and carries the very
  token that this connection was opened with.\<close>

theorem calls_authenticated:
  assumes "gw_reaches env (gw_start e) s"
  shows "(\<forall>p \<in> set (pumps s). pump_token p \<noteq> [] \<and>
      (\<exists>t \<le> now s. jwt_parse (gw_jwt env) (jwtSecret (gw_cfg env)) t (pump_token p) = Inr (pump_user p))) \<and>
    (\<exists>new. calls (snd (run_state (gw_do env ev) s)) = calls s @ new \<and>
      (\<forall>c \<in> set new. \<exists>i inc. ev = Incoming i inc \<and> i < length (pumps s) \<and>
         rpc_header c = Some (''Bearer '' @ pump_token (pumps s ! i))))"
proof
  have "\<forall>p \<in> set (pumps s). \<exists>t \<le> now s. accepted env t p"
    using assms
  proof (induction rule: gw_reaches.induct)
    case start
    show ?case by (simp add: gw_start_def infra.extend_def)
  next
    case (step s ev)
    have later: "now s \<le> now (snd (run_state (gw_do env ev) s))"
      using later_do [of "now s"] by (simp add: preserves_def)
    show ?case
    proof
      fix p assume "p \<in> set (pumps (snd (run_state (gw_do env ev) s)))"
      then consider "p \<in> set (pumps s)" | "accepted env (now s) p" using pumps_do by blast
      then show "\<exists>t \<le> now (snd (run_state (gw_do env ev) s)). accepted env t p"
        using step.IH later by cases (meson order_trans)+
    qed
  qed
  then show all: "\<forall>p \<in> set (pumps s). pump_token p \<noteq> [] \<and>
      (\<exists>t \<le> now s. jwt_parse (gw_jwt env) (jwtSecret (gw_cfg env)) t (pump_token p) = Inr (pump_user p))"
    by (auto simp: accepted_def)
  show "\<exists>new. calls (snd (run_state (gw_do env ev) s)) = calls s @ new \<and>
      (\<forall>c \<in> set new. \<exists>i inc. ev = Incoming i inc \<and> i < length (pumps s) \<and>
         rpc_header c = Some (''Bearer '' @ pump_token (pumps s ! i)))"
  proof (cases "\<exists>i inc. ev = Incoming i inc \<and> i < length (pumps s)")
    case True
    then obtain i inc where i: "ev = Incoming i inc" "i < length (pumps s)" by blast
    from all i(2) have "pump_token (pumps s ! i) \<noteq> []" by simp
    then have "auth_header (WithToken None (pump_token (pumps s ! i))) = Some (''Bearer '' @ pump_token (pumps s ! i))"
      by (simp add: auth_header_def WithToken_def TokenFromContext_def)
    from calls_readPump [OF i(2) this] i show ?thesis by (fastforce simp: calls_with_def)
  next
    case False
    then have "calls (snd (run_state (gw_do env ev) s)) = calls s"
      using keeps_calls_upgrade keeps_calls_push by (cases ev) (auto simp: keeps_def readPump_def)
    then show ?thesis by simp
  qed
qed


theorem calls_authenticated_witness:
  "calls demo_asked = [RpcSendDM (Some (''Bearer '' @ pump_token (pumps demo_connected ! 0))) ''vb'' ''hi'']"
proof -
  have run: "map (\<lambda>c. case c of RpcSendDM h t m \<Rightarrow> (t, m)) (calls demo_asked) = [(''vb'', ''hi'')]"
    and kind: "list_all (\<lambda>c. case c of RpcSendDM _ _ _ \<Rightarrow> True | _ \<Rightarrow> False) (calls demo_asked)"
    and none: "calls demo_connected = []" by code_simp+
  from run kind obtain h where one: "calls demo_asked = [RpcSendDM h ''vb'' ''hi'']"
    by (auto split: rpc_call.splits)
  show ?thesis
    using calls_authenticated [OF demo_reaches [unfolded demo_gw_start_def],
        of "Incoming 0 (Arrived BinaryMessage [0, 0, 0, 1, 9])"] one none
    by (fold demo_asked_def) auto
qed

section \<open>Reconnecting\<close>

lemma run_cleanupDisconnect_calm:
  assumes "outcomes s = []" and "nats_connected s" and "hasRegistry (gw_cfg env)"
  shows "snd (run_state (cleanupDisconnect env u) s) =
    (let s1 = snd (run_state (ConnManager_Unregister u) s)
     in s1\<lparr>redis := (redis s1)(registryKey u := None),
           published := published s1 @ [(''constell.user.offline'', JObj [(''user_id'', JStr u)])]\<rparr>)"
proof -
  let ?s1 = "snd (run_state (ConnManager_Unregister u) s)"
  have "outcomes ?s1 = []" "nats_connected ?s1"
    using assms by (simp_all add: ConnManager_Unregister_def close_socket_def split: option.split)
  then show ?thesis
    using assms(3)
    by (simp add: cleanupDisconnect_def UnregisterConnection_def broadcastUserOffline_def run_simps
        run_redis_calm nats_publish_def run_next_outcome_calm case_prod_unfold Let_def)
qed

text \<open>C32: (What the code does.) When a user who has connected again has an older connection that
  ends, the clean-up of the older one takes the newer one away: its entry leaves the table, its
  socket is closed under its read loop, the user's key leaves Redis and the user is announced as
  offline.\<close>

theorem reconnect_drops_new_connection:
  assumes calm: "outcomes s = []" "nats_connected s" "hasRegistry (gw_cfg env)"
    and reach: "gw_reaches env (gw_start e) s" and i: "i < length (pumps s)"
    and entry: "map_of (conns s) (pump_user (pumps s ! i)) = Some entry"
    and newer: "ce_Conn entry \<noteq> pump_conn (pumps s ! i)"
  shows "\<exists>s'. s' = snd (run_state (gw_do env (Incoming i Broken)) s) \<and>
    map_of (conns s') (pump_user (pumps s ! i)) = None \<and> sock_closed (sockets s' ! ce_Conn entry) \<and>
    (\<exists>p \<in> set (pumps s'). pump_user p = pump_user (pumps s ! i) \<and> pump_conn p = ce_Conn entry) \<and>
    redis s' (registryKey (pump_user (pumps s ! i))) = None \<and>
    published s' = published s @ [(''constell.user.offline'', JObj [(''user_id'', JStr (pump_user (pumps s ! i)))])]"
proof -
  let ?u = "pump_user (pumps s ! i)"
  let ?s1 = "s\<lparr>pumps := take i (pumps s) @ drop (Suc i) (pumps s)\<rparr>"
  have ok: "gw_ok s" by (rule gw_reaches_ok [OF reach])
  from gw_ok_entry(2) [OF ok entry] obtain p where p: "p \<in> set (pumps s)" "pump_user p = ?u"
    "pump_conn p = ce_Conn entry" by blast
  have dist: "distinct (map pump_conn (pumps s))" using ok by (simp add: gw_ok_def)
  have p': "p \<in> set (take i (pumps s) @ drop (Suc i) (pumps s))"
    unfolding remove_nth(1) [OF dist i] using p(1,3) newer by (metis Diff_iff singletonD)
  have bound: "ce_Conn entry < length (sockets s)" by (rule gw_ok_entry(1) [OF ok entry])
  have "run_state (readPump_round env (pumps s ! i) Broken) s = (False, s)"
    by (simp add: readPump_round_def ReadMessage_def conn_read_def Let_def)
  then have "snd (run_state (gw_do env (Incoming i Broken)) s) = snd (run_state (cleanupDisconnect env ?u) ?s1)"
    using i by (simp add: readPump_def)
  moreover have "map_of (conns ?s1) ?u = Some entry" using entry by simp
  ultimately show ?thesis
    using p' p(2,3) bound calm
    by (auto simp: run_cleanupDisconnect_calm ConnManager_Unregister_def close_socket_def Let_def delete_conv')
qed

definition demo_twice :: gateway where
  "demo_twice = snd (run_state (gw_do demo_gw (UpgradeRequest ''ua'')) demo_connected)"

theorem reconnect_drops_new_connection_witness:
  "sock_closed (sockets (snd (run_state (gw_do demo_gw (Incoming 0 Broken)) demo_twice)) ! 1) \<and>
   \<not> sock_closed (sockets demo_twice ! 1) \<and>
   redis (snd (run_state (gw_do demo_gw (Incoming 0 Broken)) demo_twice)) (registryKey ''ua'') = None"
proof -
  have "gw_reaches demo_gw demo_gw_start demo_twice"
    unfolding demo_twice_def by (rule gw_reaches.step [OF demo_reaches])
  moreover have "outcomes demo_twice = []" "nats_connected demo_twice" "0 < length (pumps demo_twice)"
    "hasRegistry (gw_cfg demo_gw)" "map_option ce_Conn (map_of (conns demo_twice) ''ua'') = Some 1"
    "pump_user (pumps demo_twice ! 0) = ''ua''" "pump_conn (pumps demo_twice ! 0) = 0"
    "\<not> sock_closed (sockets demo_twice ! 1)" by code_simp+
  ultimately show ?thesis
    using reconnect_drops_new_connection [of demo_twice demo_gw demo_infra0 0]
    unfolding demo_gw_start_def by auto
qed

section \<open>Delivery of a push\<close>

text \<open>How many frames go out on a connection: one for every time its user is named.\<close>

definition copies :: "(string \<times> conn_entry) list \<Rightarrow> string list \<Rightarrow> conn \<Rightarrow> nat" where
  "copies cs ts k = length (filter (\<lambda>t. map_option ce_Conn (map_of cs t) = Some k) ts)"

lemma copies_simps [simp]:
  "copies cs [] k = 0"
  "copies cs (t # ts) k = (if map_option ce_Conn (map_of cs t) = Some k then 1 else 0) + copies cs ts k"
  by (simp_all add: copies_def)

definition append_frames :: "bytes \<Rightarrow> (conn \<Rightarrow> nat) \<Rightarrow> socket list \<Rightarrow> socket list" where
  "append_frames f n sk =
     map (\<lambda>k. (sk ! k)\<lparr>sock_sent := sock_sent (sk ! k) @ replicate (n k) f\<rparr>) [0..<length sk]"

lemma append_frames_none: "append_frames f (\<lambda>k. 0) sk = sk"
  by (simp add: append_frames_def map_nth)

lemma append_frames_step:
  "append_frames f n (sk[c := (sk ! c)\<lparr>sock_sent := sock_sent (sk ! c) @ [f]\<rparr>]) =
   append_frames f (\<lambda>k. (if c = k then 1 else 0) + n k) sk"
  by (rule nth_equalityI) (auto simp: append_frames_def nth_list_update)

lemma run_WriteMessage_calm:
  assumes "outcomes s = []" and "EncodeFrame W ev = Inr f" and "\<not> sock_closed (sockets s ! c)"
  shows "run_state (WriteMessage W c ev) s =
    (Inr (), s\<lparr>sockets := (sockets s)[c := (sockets s ! c)\<lparr>sock_sent := sock_sent (sockets s ! c) @ [f]\<rparr>]\<rparr>)"
  using assms by (simp add: WriteMessage_def conn_write_def run_next_outcome_calm wrap_err_def)

lemma run_deliver_each_calm:
  assumes frame: "EncodeFrame W ev = Inr f" and "outcomes s = []"
    and "\<And>t e. map_of (conns s) t = Some e \<Longrightarrow> \<not> sock_closed (sockets s ! ce_Conn e)"
  shows "run_state (deliver_each W ev n ts) s =
    (n + length (filter (\<lambda>t. map_of (conns s) t \<noteq> None) ts),
     s\<lparr>sockets := append_frames f (copies (conns s) ts) (sockets s)\<rparr>)"
  using assms(2,3)
proof (induction ts arbitrary: n s)
  case Nil
  show ?case by (simp add: append_frames_none)
next
  case (Cons t ts)
  show ?case
  proof (cases "map_of (conns s) t")
    case None
    with Cons show ?thesis by (simp add: ConnManager_Get_def)
  next
    case (Some e)
    let ?s1 = "s\<lparr>sockets := (sockets s)[ce_Conn e :=
      (sockets s ! ce_Conn e)\<lparr>sock_sent := sock_sent (sockets s ! ce_Conn e) @ [f]\<rparr>]\<rparr>"
    have open1: "\<not> sock_closed (sockets ?s1 ! ce_Conn e')" if "map_of (conns s) t' = Some e'" for t' e'
      using Cons.prems(2) [OF that] Cons.prems(2) [OF Some] that
      by (cases "ce_Conn e < length (sockets s)") (auto simp: nth_list_update list_update_beyond)
    have "run_state (deliver_each W ev (n + 1) ts) ?s1 =
      (n + 1 + length (filter (\<lambda>t. map_of (conns ?s1) t \<noteq> None) ts),
       ?s1\<lparr>sockets := append_frames f (copies (conns ?s1) ts) (sockets ?s1)\<rparr>)"
      by (rule Cons.IH) (use Cons.prems open1 in simp_all)
    then show ?thesis
      using Some run_WriteMessage_calm [OF Cons.prems(1) frame Cons.prems(2) [OF Some]]
      by (simp add: ConnManager_Get_def append_frames_step)
  qed
qed

lemma push_frames:
  assumes ok: "gw_ok s" and calm: "outcomes s = []"
    and payload: "read_PushPayload j = Inr payload" and event: "buildServerEvent env payload = Inr ev"
    and frame: "EncodeFrame (gw_wire env) ev = Inr f"
  shows "snd (run_state (gw_do env (PushMessage (Some j))) s) =
      s\<lparr>sockets := append_frames f (copies (conns s) (pp_Targets payload)) (sockets s)\<rparr> \<and>
    (\<forall>u entry. map_of (conns s) u = Some entry \<longrightarrow>
      sock_sent (append_frames f (copies (conns s) (pp_Targets payload)) (sockets s) ! ce_Conn entry) =
      sock_sent (sockets s ! ce_Conn entry) @ replicate (count_list (pp_Targets payload) u) f)"
proof -
  have open_: "\<not> sock_closed (sockets s ! ce_Conn entry)" if "map_of (conns s) t = Some entry" for t entry
    using ok that by (simp add: gw_ok_def)
  have dist: "distinct (map pump_conn (pumps s))" using ok by (simp add: gw_ok_def)
  have "copies (conns s) ts (ce_Conn entry) = count_list ts u" and "ce_Conn entry < length (sockets s)"
    if u: "map_of (conns s) u = Some entry" for u entry ts
  proof -
    from gw_ok_entry(2) [OF ok u] obtain p where p: "p \<in> set (pumps s)" "pump_user p = u"
      "pump_conn p = ce_Conn entry" by blast
    have same: "t = u" if t: "map_of (conns s) t = Some e'" and c: "ce_Conn e' = ce_Conn entry" for t e'
    proof -
      from gw_ok_entry(2) [OF ok t] obtain p' where "p' \<in> set (pumps s)" "pump_user p' = t"
        "pump_conn p' = ce_Conn e'" by blast
      moreover from this p c have "p = p'" by (intro distinct_map_key_eq [OF dist]) simp_all
      ultimately show "t = u" using p by simp
    qed
    have "map_option ce_Conn (map_of (conns s) t) = Some (ce_Conn entry) \<longleftrightarrow> t = u" for t
    proof
      assume "map_option ce_Conn (map_of (conns s) t) = Some (ce_Conn entry)"
      then show "t = u" by (cases "map_of (conns s) t") (simp_all add: same)
    next
      assume "t = u"
      with u show "map_option ce_Conn (map_of (conns s) t) = Some (ce_Conn entry)" by simp
    qed
    then show "copies (conns s) ts (ce_Conn entry) = count_list ts u"
      by (induction ts) auto
    show "ce_Conn entry < length (sockets s)" by (rule gw_ok_entry(1) [OF ok u])
  qed
  then have sent: "sock_sent (append_frames f (copies (conns s) (pp_Targets payload)) (sockets s) ! ce_Conn entry) =
      sock_sent (sockets s ! ce_Conn entry) @ replicate (count_list (pp_Targets payload) u) f"
    if "map_of (conns s) u = Some entry" for u entry
    using that by (simp add: append_frames_def)
  show ?thesis
    using run_deliver_each_calm [OF frame calm open_] payload event sent
    by (simp add: handleNATSMessage_def DeliverToLocal_def)
qed

text \<open>When nothing fails, a push makes exactly these frames and no other change: every connection
  gets the frame once for every time its user is named in the targets, so a target without a
  connection here is skipped and the connections of others get nothing.\<close>

theorem push_reaches_targets:
  assumes "gw_reaches env (gw_start e) s" and "outcomes s = []"
    and "read_PushPayload j = Inr payload" and "buildServerEvent env payload = Inr ev"
    and "EncodeFrame (gw_wire env) ev = Inr f"
  shows "snd (run_state (gw_do env (PushMessage (Some j))) s) =
      s\<lparr>sockets := append_frames f (copies (conns s) (pp_Targets payload)) (sockets s)\<rparr> \<and>
    (\<forall>u entry. map_of (conns s) u = Some entry \<longrightarrow>
      sock_sent (append_frames f (copies (conns s) (pp_Targets payload)) (sockets s) ! ce_Conn entry) =
      sock_sent (sockets s ! ce_Conn entry) @ replicate (count_list (pp_Targets payload) u) f)"
  by (rule push_frames [OF gw_reaches_ok [OF assms(1)] assms(2-)])

definition demo_push :: json where
  "demo_push = JObj [(''targets'', JArr [JStr ''vb'', JStr ''ua'', JStr ''ua'']),
     (''event_type'', JStr ''USER_ONLINE''), (''payload'', JObj [(''user_id'', JStr ''vb'')])]"

theorem push_reaches_targets_witness:
  "sock_sent (sockets (snd (run_state (gw_do demo_gw (PushMessage (Some demo_push))) demo_connected)) ! 0) =
   sock_sent (sockets demo_connected ! 0) @ replicate 2 [0, 0, 0, 3, 2, 0x76, 0x62]"
proof -
  let ?p = "\<lparr>pp_Targets = [''vb'', ''ua'', ''ua''], pp_EventType = ''USER_ONLINE'',
    pp_Payload = [(''user_id'', JStr ''vb'')]\<rparr>"
  have parts: "read_PushPayload demo_push = Inr ?p"
    "buildServerEvent demo_gw ?p = Inr (buildUserOnlineEvent (pp_Payload ?p))"
    "EncodeFrame (gw_wire demo_gw) (buildUserOnlineEvent (pp_Payload ?p)) = Inr [0, 0, 0, 3, 2, 0x76, 0x62]"
    and calm: "outcomes demo_connected = []" by code_simp+
  have conn: "map_option ce_Conn (map_of (conns demo_connected) ''ua'') = Some 0" by code_simp
  then obtain entry where entry: "map_of (conns demo_connected) ''ua'' = Some entry" "ce_Conn entry = 0" by auto
  note push = push_reaches_targets [OF demo_reaches [unfolded demo_gw_start_def] calm parts]
  from push [THEN conjunct2, rule_format, OF entry(1)] push [THEN conjunct1] entry(2)
  show ?thesis by (simp add: numeral_2_eq_2)
qed

section \<open>Heartbeats\<close>

text \<open>When nothing fails, a heartbeat that comes in before the read deadline keeps the connection
  alive: it is acknowledged on that connection with its own request id, the deadline moves to two
  intervals from now, the user's key in Redis lives for another registry period, and the read loop
  goes on with everything else as it was.\<close>

theorem heartbeat_keeps_alive:
  assumes i: "i < length (pumps s)" and calm: "outcomes s = []" "hasRegistry (gw_cfg env)"
    and alive: "\<not> sock_closed (sockets s ! pump_conn (pumps s ! i))"
      "\<And>t. sock_deadline (sockets s ! pump_conn (pumps s ! i)) = Some t \<Longrightarrow> now s < t"
      "pump_conn (pumps s ! i) < length (sockets s)"
    and msg: "DecodeClientFrame (gw_wire env) data = Inr msg" "cmsg_type msg = HEARTBEAT"
    and frame: "EncodeFrame (gw_wire env) (BuildHeartbeatAck (cmsg_request_id msg)) = Inr f"
  shows "snd (run_state (gw_do env (Incoming i (Arrived BinaryMessage data))) s) =
    s\<lparr>sockets := (sockets s)[pump_conn (pumps s ! i) :=
        (sockets s ! pump_conn (pumps s ! i))
          \<lparr>sock_sent := sock_sent (sockets s ! pump_conn (pumps s ! i)) @ [f],
           sock_deadline := Some (now s + heartbeatInterval (gw_cfg env) * 2)\<rparr>],
      redis := (redis s)(registryKey (pump_user (pumps s ! i)) \<mapsto>
        (gwID (gw_cfg env), now s + registryTTL (gw_cfg env)))\<rparr>"
proof -
  let ?p = "pumps s ! i"
  have read: "run_state (ReadMessage (gw_wire env) (pump_conn ?p) (Arrived BinaryMessage data)) s = (Inr msg, s)"
    using alive msg(1) by (auto simp: ReadMessage_def conn_read_def wrap_err_def split: option.split)
  show ?thesis
    using i calm alive(1,3) msg(2) frame
    by (simp add: readPump_def readPump_round_def read IsHeartbeatMessage_def HandleHeartbeat_def
        run_WriteMessage_calm ResetDeadline_def register_in_redis_def RegisterConnection_def
        run_redis_calm Let_def)
qed

theorem heartbeat_keeps_alive_witness:
  "sock_deadline (sockets (snd (run_state (gw_do demo_gw (Incoming 0 (Arrived BinaryMessage [0, 0, 0, 0]))) demo_connected)) ! 0)
   = Some (60 * 1000000)"
proof -
  obtain msg where msg: "DecodeClientFrame (gw_wire demo_gw) [0, 0, 0, 0] = Inr msg"
    "cmsg_type msg = HEARTBEAT" "cmsg_request_id msg = ''r''"
    by (simp add: DecodeClientFrame_def decode_with_def frameHeaderSize_def demo_gw_def demo_wire_def
        wrap_err_def Uint32_def)
  have frame: "EncodeFrame (gw_wire demo_gw) (BuildHeartbeatAck ''r'') = Inr [0, 0, 0, 2, 1, 0x72]"
    and start: "outcomes demo_connected = []" "hasRegistry (gw_cfg demo_gw)" "length (pumps demo_connected) = 1"
      "length (sockets demo_connected) = 1" "pump_conn (pumps demo_connected ! 0) = 0"
      "\<not> sock_closed (sockets demo_connected ! 0)" "now demo_connected = 0"
      "sock_deadline (sockets demo_connected ! 0) = Some (60 * 1000000)"
      "heartbeatInterval (gw_cfg demo_gw) = 30 * 1000000"
    by code_simp+
  show ?thesis
    using heartbeat_keeps_alive [of 0 demo_connected demo_gw "[0, 0, 0, 0]" msg] msg start frame by simp
qed

end
