(* ===== verification/Delivery.thy ===== *)
theory Delivery
  imports NotifyFacts CommunityFacts
begin

text \<open>
  What happens to a message across services.
\<close>

section \<open>The event of a message\<close>

lemma preserves_published_reads:
  "preserves (\<lambda>s. Q (published s)) (CommunityCache_Get P c)"
  "preserves (\<lambda>s. Q (published s)) (MembersCache_Get P c)"
  "preserves (\<lambda>s. Q (published s)) (checkPermission P c u req)"
  "preserves (\<lambda>s. Q (published s)) (repo_InsertChannelMessage P c u content)"
  "preserves (\<lambda>s. Q (published s)) (repo_InsertAttachments P as)"
proof -
  have calls: "calls_safe (\<lambda>s :: community_svc. Q (published s))" by (simp add: calls_safe_def)
  show cache: "preserves (\<lambda>s. Q (published s)) (CommunityCache_Get P c)" for c
    unfolding CommunityCache_Get_def community_filler_def Let_def
    by (intro preserves_intros preserves_Cache_Get preserves_repo_reads calls | simp add: put_defs)+
  show "preserves (\<lambda>s. Q (published s)) (MembersCache_Get P c)"
    unfolding MembersCache_Get_def members_filler_def Let_def
    by (intro preserves_intros preserves_Cache_Get preserves_repo_reads calls | simp add: put_defs)+
  show "preserves (\<lambda>s. Q (published s)) (checkPermission P c u req)"
    by (rule preserves_checkPermission [OF calls cache])
  show "preserves (\<lambda>s. Q (published s)) (repo_InsertChannelMessage P c u content)"
    by (rule preserves_repo_InsertChannelMessage) (simp add: stmt_safe_def calls_safe_def)
  show "preserves (\<lambda>s. Q (published s)) (repo_InsertAttachments P as)"
    by (rule preserves_repo_InsertAttachments) (simp_all add: stmt_safe_def calls_safe_def)
qed

lemma publishMessageCreated_published:
  assumes "run_state (publishMessageCreated mid ch k u content t q ms) s = (x, s')"
  shows "published s' = published s \<or> published s' = published s @ [(''constell.message.created'', JObj
    [(''message_id'', JStr mid), (''channel_id'', JStr ch), (''community_id'', JStr k),
     (''sender_id'', JStr u), (''content'', JStr content), (''member_ids'', JArr (map JStr ms)),
     (''created_at'', JNum t), (''seq'', JNum q)])]"
  using assms
  by (auto simp: publishMessageCreated_def nats_publish_def next_outcome_def Let_def
      split: if_splits list.splits prod.splits outcome.splits)

definition message_event :: "string \<Rightarrow> string \<Rightarrow> pb_channel_message \<Rightarrow> json \<Rightarrow> bool" where
  "message_event caller channelID pb j \<longleftrightarrow> (\<exists>k ms content.
     j = JObj [(''message_id'', JStr (pbg_id pb)), (''channel_id'', JStr channelID),
       (''community_id'', JStr k), (''sender_id'', JStr caller), (''content'', JStr content),
       (''member_ids'', JArr (map JStr ms)), (''created_at'', JNum (pbg_created_at pb)),
       (''seq'', JNum (pbg_seq pb))])"

lemma SendMessage_published:
  assumes run: "run_state (SendMessage P caller rId rContent files) s = (Inr pb, s')"
  shows "published s' = published s \<or> (\<exists>j. message_event caller (trim_space rId) pb j \<and>
    published s' = published s @ [(''constell.message.created'', j)])"
proof -
  from run obtain ch s1 members s2 u s3 msg s4 a s5 b s6 r s7 where
    get: "run_state (repo_GetChannel P (trim_space rId)) s = (Inr ch, s1)" and
    mem: "run_state (MembersCache_Get P (ch_community_id ch)) s1 = (Inr members, s2)" and
    chk: "run_state (checkPermission P (ch_community_id ch) caller PermissionSendMessages) s2 = (Inr u, s3)" and
    ins: "run_state (repo_InsertChannelMessage P (trim_space rId) caller (trim_space rContent)) s3 = (Inr msg, s4)" and
    att: "run_state (if files \<noteq> []
        then do { repo_InsertAttachments P (map (file_attachment (cm_id msg)) files); ret () }
        else ret ()) s4 = (a, s5)" and
    pub: "run_state (publishMessageCreated (cm_id msg) (trim_space rId) (ch_community_id ch) caller
        (trim_space rContent) (unix (cm_created_at msg)) (cm_seq msg) (map mem_user_id members)) s5 = (b, s6)" and
    fetch: "run_state (repo_GetAttachmentsByMessage P ''channel'' (cm_id msg)) s6 = (r, s7)" and
    res: "pb = pb_message_of msg (case r of Inl aerr \<Rightarrow> [] | Inr as \<Rightarrow> map pb_attachment_of as)" "s' = s7"
    unfolding SendMessage_def authenticated_def Let_def
    by (elim handler_InrE run_bindE) auto
  let ?I = "\<lambda>x :: community_svc. published x = published s"
  have calls: "calls_safe ?I" by (simp add: calls_safe_def)
  have "?I s1" by (rule preservesD [where I = ?I, OF preserves_repo_reads(4) [OF calls] get]) simp
  then have "?I s2" by (rule preservesD [where I = ?I, OF preserves_published_reads(2) mem])
  then have "?I s3" by (rule preservesD [where I = ?I, OF preserves_published_reads(3) chk])
  then have "?I s4" by (rule preservesD [where I = ?I, OF preserves_published_reads(4) ins])
  then have "?I s5"
    by (rule preservesD [where I = ?I, OF _ att, rotated])
       (intro preserves_intros preserves_published_reads(5))
  moreover have "published s7 = published s6"
    by (rule preservesD [where I = "\<lambda>x. published x = published s6", OF preserves_repo_reads(14) fetch])
       (simp_all add: calls_safe_def)
  ultimately show ?thesis
    using publishMessageCreated_published [OF pub] res
    by (auto simp: message_event_def pb_message_of_def simp del: map_map)
qed

lemma read_message_event:
  assumes "message_event caller ch pb j" and "- (2 ^ 63) \<le> pbg_seq pb" "pbg_seq pb < 2 ^ 63"
    and "- (2 ^ 63) \<le> pbg_created_at pb" "pbg_created_at pb < 2 ^ 63"
  shows "\<exists>evt. read_MessageCreatedEvent j = Inr evt \<and> me_sender_id evt = caller \<and>
    me_channel_id evt = ch \<and> me_seq evt = pbg_seq pb \<and> me_message_id evt = pbg_id pb"
  using assms
  by (auto simp: message_event_def read_MessageCreatedEvent_def json_is_object_def json_field_def
      json_int64_def)


lemma SendMessage_keeps:
  "preserves (\<lambda>s. users (db s) = us \<and> channels (db s) = cs) (SendMessage P caller rId rContent files)"
proof -
  let ?I = "\<lambda>s :: community_svc. users (db s) = us \<and> channels (db s) = cs"
  let ?Q = "\<lambda>d. users d = us \<and> channels d = cs"
  have "stmt_safe ?I (sql_insert_channel_message P c u t)" for c u t
    by (auto simp: stmt_safe_def calls_safe_def dest!: sql_insert_channel_message_InrD)
  moreover have "stmt_safe ?I (sql_insert_attachment P a)" for a
    by (auto simp: stmt_safe_def calls_safe_def sql_insert_attachment_def stmt_cases split: if_splits)
  moreover have calls: "calls_safe ?I" by (simp add: calls_safe_def)
  ultimately show ?thesis
    unfolding SendMessage_def authenticated_def Let_def
    by (intro preserves_intros preserves_repo_reads preserves_repo_InsertChannelMessage
        preserves_repo_InsertAttachments preserves_caches_db [where Q = ?Q]
        preserves_db_events [where Q = ?Q] preserves_checkPermission)
qed

section \<open>Own messages\<close>

lemma keeps_db_pushes: "keeps db (pushToUser u p)"
  unfolding pushToUser_def by (intro preserves_intros)

text \<open>The handler of the event moves the sender's cursor and changes nothing else in the tables.\<close>

lemma handleMessageCreated_db:
  fixes n n1 :: notify_svc
  assumes calm: "outcomes n = []" and event: "read_MessageCreatedEvent j = Inr evt"
    and ids: "uuid_in P (me_sender_id evt) = Some a" "uuid_in P (me_channel_id evt) = Some c" "me_sender_id evt \<noteq> []"
    and refs: "has_user (db n) a" "has_channel (db n) c"
    and run: "run_state (handleMessageCreated P (Some j)) n = ((), n1)"
  shows "db n1 = advance_channel a c (me_seq evt) (db n)"
proof -
  let ?d = "advance_channel a c (me_seq evt) (db n)"
  have "run_state (store_AdvanceChannelRead P (me_sender_id evt) (me_channel_id evt) (me_seq evt)) n =
      (Inr (), n\<lparr>db := ?d\<rparr>)"
    using calm ids refs
    by (simp add: store_AdvanceChannelRead_def run_simps sql_advance_channel_read_def uuid_param_def
        put_channel_cursor_def)
  moreover from run ids(3) obtain x m p ts m' where
    adv: "run_state (store_AdvanceChannelRead P (me_sender_id evt) (me_channel_id evt) (me_seq evt)) n = (x, m)" and
    push: "run_state (if ts \<noteq> [] then for_each (\<lambda>t. pushToUser t p) ts else ret ()) m = ((), m')" and
    ack: "run_state Ack m' = ((), n1)"
    unfolding handleMessageCreated_def unmarshal_def option.case event sum.case Let_def
    by (elim run_bindE) (simp split: prod.splits)
  ultimately have m: "db m = ?d" by simp
  have "db m' = ?d"
    by (rule preservesD [where I = "\<lambda>x. db x = ?d", OF _ push m])
       (intro preserves_intros keeps_preserves [where f = db] keeps_db_pushes)
  then show ?thesis using ack by (auto simp: Ack_def)
qed

text \<open>C17: A message does not count as unread for its sender: once the event that \<open>SendMessage\<close> has
  published is delivered to the notify service, the sender's unread counts do not list the
  channel.\<close>

theorem own_message_not_unread:
  fixes s1 :: community_svc and n n1 n2 :: notify_svc
  assumes P: "pg_env_ok P" and inv: "svc_ok P s"
    and send: "run_state (SendMessage P caller rId rContent files) s = (Inr pb, s1)"
    and int64: "pbg_seq pb < 2 ^ 63" "- (2 ^ 63) \<le> pbg_created_at pb" "pbg_created_at pb < 2 ^ 63"
    and event: "(subject, j) \<in> set (drop (length (published s)) (published s1))"
    and n: "db n = db s1" "outcomes n = []"
    and deliver: "run_state (deliver P ord (subject, Some j)) n = ((), n1)"
    and get: "run_state (GetUnreadCounts P caller) n1 = (Inr r, n2)"
  shows "pbg_channel_id pb \<notin> uc_channel_id ` set (un_channels r)"
proof -
  from SendMessage_published [OF send] event have subj: "subject = ''constell.message.created''"
    and me: "message_event caller (trim_space rId) pb j" by auto
  from SendMessage_insert [OF inv send] obtain ch members msg atts and t1 t2 :: community_svc where
    ch: "ch \<in> set (channels (db s))" "uuid_in P (trim_space rId) = Some (ch_id ch)" "db t1 = db s" and
    ins: "run_state (repo_InsertChannelMessage P (trim_space rId) caller (trim_space rContent)) t1 = (Inr msg, t2)" and
    res: "pb = pb_message_of msg atts" "channel_messages (db s1) = channel_messages (db t2)"
    by blast
  from query_row_wrapped_InrD [OF ins [unfolded repo_InsertChannelMessage_def]] ch obtain t xs where
    "sql_insert_channel_message P (trim_space rId) caller (trim_space rContent) t (db s) = Inr (msg # xs, db t2)"
    by auto
  from sql_insert_channel_message_InrD [OF this] obtain c a where
    ids: "uuid_in P (trim_space rId) = Some c" "uuid_in P caller = Some a" and
    refs: "has_channel (db s) c" "has_user (db s) a" and
    msg: "msg = new_message P c a (trim_space rContent) t (db s)"
      "channel_messages (db s1) = channel_messages (db s) @ [msg]" using res(2) by auto
  have ok: "db_ok (db s)" using inv by (simp add: svc_ok_def)
  then have pos: "0 < next_message_seq (db s)" by (simp add: db_ok_def seqs_ok_def)
  have pb: "pbg_seq pb = next_message_seq (db s)" "pbg_channel_id pb = c"
    using res(1) msg(1) by (simp_all add: pb_message_of_def)
  from read_message_event [OF me] int64 pos pb(1) obtain evt where evt: "read_MessageCreatedEvent j = Inr evt"
    "me_sender_id evt = caller" "me_channel_id evt = trim_space rId" "me_seq evt = pbg_seq pb" by auto
  have "users (db s1) = users (db s) \<and> channels (db s1) = channels (db s)"
    by (rule preservesD [where I = "\<lambda>x. users (db x) = users (db s) \<and> channels (db x) = channels (db s)",
        OF SendMessage_keeps send]) simp
  then have refs': "has_user (db n) a" "has_channel (db n) c"
    using refs n(1) by (simp_all add: has_defs)
  have handled: "run_state (handleMessageCreated P (Some j)) n = ((), n1)"
    using deliver by (simp add: deliver_def subscriptions_def subj)
  have caller: "caller \<noteq> []" using ids(2) pg_env_okD(2) [OF P] by auto
  have d1: "db n1 = advance_channel a c (pbg_seq pb) (db n)"
    by (rule handleMessageCreated_db [OF n(2) evt(1), unfolded evt(2-4),
        OF ids(2) ids(1) caller refs' handled])
  have "pbg_seq pb \<le> channel_cursor (db n1) a c"
    unfolding d1 by (intro channel_cursors.advance_reaches) (use pos pb(1) in simp)
  moreover have "cm_seq m \<le> pbg_seq pb" if "m \<in> set (channel_messages (db n1))" for m
  proof -
    have "channel_messages (db n1) = channel_messages (db s) @ [msg]"
      by (simp add: d1 advance_channel_def n(1) msg(2))
    with that seqs_below [OF ok] pb(1) msg(1) show ?thesis by (auto simp: less_imp_le)
  qed
  ultimately have "\<not> channel_cursor (db n1) a c < cm_seq m" if "m \<in> set (channel_messages (db n1))" for m
    using that by fastforce
  then have "unread_in_channel (db n1) a c = 0"
    by (simp add: unread_in_channel_def filter_empty_conv)
  with GetUnreadCounts_InrD [OF get] ids(2) pb(2) show ?thesis by (auto simp: set_keep_unread)
qed

definition demo_second :: community_svc where
  "demo_second = snd (run_state (SendMessage demo_env ''vb'' ''abb'' ''hi'' []) demo_sent)"

definition demo_told :: notify_svc where
  "demo_told = snd (run_state
     (for_each (\<lambda>(subject, j). deliver demo_env id (subject, Some j))
       (drop (length (published demo_sent)) (published demo_second)))
     (notify_service_of (demo_infra (db demo_second))))"

theorem own_message_not_unread_witness:
  "\<exists>pb r n2. fst (run_state (SendMessage demo_env ''vb'' ''abb'' ''hi'' []) demo_sent) = Inr pb \<and>
     run_state (GetUnreadCounts demo_env ''vb'') demo_told = (Inr r, n2) \<and>
     pbg_channel_id pb = ''abb'' \<and> ''abb'' \<notin> uc_channel_id ` set (un_channels r)"
proof -
  let ?send = "run_state (SendMessage demo_env ''vb'' ''abb'' ''hi'' []) demo_sent"
  let ?get = "run_state (GetUnreadCounts demo_env ''vb'') demo_told"
  have sent: "(case fst ?send of Inl _ \<Rightarrow> False | Inr pb \<Rightarrow> pbg_channel_id pb = ''abb'' \<and>
      pbg_seq pb = 2 \<and> pbg_created_at pb = 1)"
    and got: "(case fst ?get of Inl _ \<Rightarrow> False | Inr _ \<Rightarrow> True)"
    and new: "length (drop (length (published demo_sent)) (published demo_second)) = 1"
    by code_simp+
  obtain pb s1 where send: "?send = (Inr pb, s1)" and s1: "s1 = demo_second"
    using sent by (cases ?send) (auto simp: demo_second_def split: sum.splits)
  obtain r n2 where get: "?get = (Inr r, n2)" using got by (cases ?get) (auto split: sum.splits)
  from new obtain subject j where ev: "drop (length (published demo_sent)) (published s1) = [(subject, j)]"
    by (cases "drop (length (published demo_sent)) (published demo_second)")
       (auto simp: s1 simp del: length_drop)
  have run: "run_state (deliver demo_env id (subject, Some j)) (notify_service_of (demo_infra (db s1))) = ((), demo_told)"
    using ev by (cases "run_state (deliver demo_env id (subject, Some j)) (notify_service_of (demo_infra (db s1)))")
      (simp add: demo_told_def s1)
  have "db (notify_service_of (demo_infra (db s1))) = db s1" "outcomes (notify_service_of (demo_infra (db s1))) = []"
    by (simp_all add: notify_service_of_def infra.extend_def demo_infra_def)
  from own_message_not_unread [OF demo_env_ok demo_svc_ok(4) send _ _ _ _ this run get] ev sent send get
  show ?thesis by simp
qed

end
