(* ===== verification/MessagePath.thy ===== *)
theory MessagePath
  imports Delivery GatewayFacts
begin

text \<open>
  A channel message on its way from the event that the community service publishes over the notify
  service and the gateway to the connections: which frames arrive, how often, and what the numbers
  in them have become.
\<close>

section \<open>Numbers in a push\<close>

lemma bit_length_le: "n < 2 ^ k \<Longrightarrow> bit_length n \<le> k"
proof (induction k arbitrary: n)
  case 0
  then show ?case by (simp add: bit_length.simps [of 0])
next
  case (Suc k)
  then have "bit_length (n div 2) \<le> k" by auto
  then show ?case by (simp add: bit_length.simps [of n])
qed

lemma bit_length_eq: "2 ^ k \<le> n \<Longrightarrow> n < 2 ^ Suc k \<Longrightarrow> bit_length n = Suc k"
proof (induction k arbitrary: n)
  case 0
  then have "n = 1" by simp
  then show ?case by (simp add: bit_length.simps [of "Suc 0"] bit_length.simps [of 0])
next
  case (Suc k)
  then have "bit_length (n div 2) = Suc k" by (intro Suc.IH) auto
  moreover have "n \<noteq> 0" using Suc.prems(1) by (cases n) auto
  ultimately show ?case by (simp add: bit_length.simps [of n])
qed

lemma float64_at_53: "float64_of_int (2 ^ 53) = 2 ^ 53" "float64_of_int (- (2 ^ 53)) = - (2 ^ 53)"
  "float64_of_int (2 ^ 53 + 1) = 2 ^ 53"
  by (simp_all add: float64_of_int_def Let_def bit_length_eq [of 53])

text \<open>Rounding to the nearest multiple moves a number by half of it at most.\<close>

lemma float64_of_int_near:
  "2 * \<bar>float64_of_int n - n\<bar> \<le> 2 ^ (bit_length (nat \<bar>n\<bar>) - 53) \<or> float64_of_int n = n"
proof -
  define a e q r where "a = nat \<bar>n\<bar>" and "e = bit_length a - 53" and "q = a div 2 ^ e" and "r = a mod 2 ^ e"
  define up where "up \<longleftrightarrow> 2 * r > 2 ^ e \<or> 2 * r = 2 ^ e \<and> odd q"
  define b where "b = (if up then q + 1 else q) * 2 ^ e"
  have a: "a = q * 2 ^ e + r" "r < 2 ^ e" by (simp_all only: q_def r_def div_mult_mod_eq) simp
  have n: "n = sgn n * int a" by (simp add: a_def sgn_mult_abs)
  have f: "float64_of_int n = (if e = 0 then n else sgn n * int b)"
    by (simp add: float64_of_int_def Let_def a_def e_def q_def r_def up_def b_def)
  have "2 * \<bar>int b - int a\<bar> \<le> 2 ^ e"
  proof (cases up)
    case True
    then have "2 ^ e \<le> 2 * r" by (auto simp: up_def)
    from of_nat_mono [OF this, where 'a = int] have "2 ^ e \<le> 2 * int r" by simp
    moreover have "int b - int a = 2 ^ e - int r" "int r < 2 ^ e"
      using True a(2) of_nat_less_iff [of r "2 ^ e", where 'a = int]
      by (simp_all add: b_def a(1) algebra_simps)
    ultimately show ?thesis by simp
  next
    case False
    then have "2 * r \<le> 2 ^ e" by (auto simp: up_def)
    from of_nat_mono [OF this, where 'a = int] have "2 * int r \<le> 2 ^ e" by simp
    moreover have "int b - int a = - int r" using False by (simp add: b_def a(1))
    ultimately show ?thesis by simp
  qed
  moreover have "\<bar>sgn n * int b - n\<bar> \<le> \<bar>int b - int a\<bar>"
    by (subst (2) n) (simp add: right_diff_distrib [symmetric] abs_mult abs_sgn_eq)
  ultimately show ?thesis by (auto simp: f e_def a_def)
qed

lemma float64_of_int_exact: "\<bar>n\<bar> \<le> 2 ^ 53 \<Longrightarrow> float64_of_int n = n"
proof (cases "\<bar>n\<bar> = 2 ^ 53")
  case True
  then have "n = 2 ^ 53 \<or> n = - (2 ^ 53)" by linarith
  then show ?thesis using float64_at_53(1,2) by metis
next
  case False
  moreover assume "\<bar>n\<bar> \<le> 2 ^ 53"
  ultimately have "nat \<bar>n\<bar> < 2 ^ 53" by simp
  from bit_length_le [OF this] show ?thesis by (simp add: float64_of_int_def Let_def)
qed

lemma getInt64Field_number:
  assumes "map_of m key = Some (JNum n)" and "\<bar>n\<bar> < 2 ^ 63 - 512"
  shows "\<bar>getInt64Field env m key - n\<bar> \<le> 512" and "\<bar>n\<bar> \<le> 2 ^ 53 \<Longrightarrow> getInt64Field env m key = n"
proof -
  have "nat \<bar>n\<bar> < 2 ^ 63" using assms(2) by simp
  from bit_length_le [OF this] have "(2 :: int) ^ (bit_length (nat \<bar>n\<bar>) - 53) \<le> 2 ^ 10"
    by (intro power_increasing) simp_all
  with float64_of_int_near [of n] have near: "\<bar>float64_of_int n - n\<bar> \<le> 512" by auto
  with assms(2) have "- (2 ^ 63) \<le> float64_of_int n" "float64_of_int n < 2 ^ 63" by auto
  then have field: "getInt64Field env m key = float64_of_int n"
    by (simp add: getInt64Field_def assms(1) int64_of_float_def)
  with near show "\<bar>getInt64Field env m key - n\<bar> \<le> 512" by simp
  show "\<bar>n\<bar> \<le> 2 ^ 53 \<Longrightarrow> getInt64Field env m key = n" by (simp add: field float64_of_int_exact)
qed



section \<open>The frames of a message\<close>

text \<open>The push that reaches a gateway, and the event in it.\<close>

definition message_frame_event :: "message_created_event \<Rightarrow> server_event" where
  "message_frame_event evt =
     (server_event_of CHANNEL_MESSAGE_RECEIVED)\<lparr>ev_channel := Some
       \<lparr>cmr_message_id = json_text (me_message_id evt), cmr_channel_id = json_text (me_channel_id evt),
        cmr_sender_id = json_text (me_sender_id evt), cmr_sender_nickname = [],
        cmr_content = json_text (NotifyService.truncate (me_content evt) 200),
        cmr_created_at = me_created_at evt, cmr_seq = me_seq evt\<rparr>\<rparr>"

lemma read_marshal_push:
  "read_PushPayload (marshal_push p) =
     Inr \<lparr>pp_Targets = np_targets p, pp_EventType = np_event_type p,
          pp_Payload = map (\<lambda>(k, v). (k, utf8_value v)) (np_payload p)\<rparr>"
  by (simp add: read_PushPayload_def marshal_push_def json_is_object_def json_field_def)

lemma message_push_event:
  assumes "\<bar>me_seq evt\<bar> \<le> 2 ^ 53" and "\<bar>me_created_at evt\<bar> \<le> 2 ^ 53"
  shows "buildServerEvent env \<lparr>pp_Targets = ts, pp_EventType = ''CHANNEL_MESSAGE_RECEIVED'',
    pp_Payload = map (\<lambda>(k, v). (k, utf8_value v)) (message_payload evt)\<rparr> = Inr (message_frame_event evt)"
  using assms
  by (simp add: buildServerEvent_def buildChannelMessageEvent_def message_frame_event_def message_payload_def
      getStringField_def utf8_value_def getInt64Field_number(2))

text \<open>Several copies of one push.\<close>

lemma repeated_push:
  assumes "gw_ok s" and "outcomes s = []" and "read_PushPayload j = Inr payload"
    and "buildServerEvent env payload = Inr ev" and "EncodeFrame (gw_wire env) ev = Inr f"
    and "map_of (conns s) u = Some entry"
  shows "sock_sent (sockets (snd (run_state (for_each (\<lambda>x. gw_do env (PushMessage (Some (snd x))))
      (replicate k (t, j))) s)) ! ce_Conn entry) =
    sock_sent (sockets s ! ce_Conn entry) @ replicate (k * count_list (pp_Targets payload) u) f"
  using assms(1,2,6)
proof (induction k arbitrary: s)
  case (Suc k)
  let ?push = "gw_do env (PushMessage (Some j))"
  obtain s1 where run: "run_state ?push s = ((), s1)" by (cases "run_state ?push s") simp
  note frames = push_frames [OF Suc.prems(1,2) assms(3-5)]
  from frames run have s1: "s1 = s\<lparr>sockets := append_frames f (copies (conns s) (pp_Targets payload)) (sockets s)\<rparr>"
    by simp
  have sent: "sock_sent (sockets s1 ! ce_Conn entry) =
      sock_sent (sockets s ! ce_Conn entry) @ replicate (count_list (pp_Targets payload) u) f"
    using frames [THEN conjunct2] Suc.prems(3) s1 by simp
  have "gw_ok s1" by (rule preservesD [OF preserves_gw_ok run Suc.prems(1)])
  from Suc.IH [OF this] Suc.prems(2,3) s1 sent run show ?case
    by (simp add: run_simps replicate_add [symmetric] algebra_simps)
qed simp

text \<open>How many of the users are connected to the gateway \<open>g\<close>.\<close>

definition users_on :: "'z infra_scheme \<Rightarrow> string \<Rightarrow> string list \<Rightarrow> nat" where
  "users_on s g us = length (filter (\<lambda>u. live_key s (gateway_key u) = Some g) us)"

lemma count_gateways_online: "count_list (gateways_online s us) g = users_on s g us"
proof (induction us)
  case (Cons u us)
  then show ?case
    by (cases "live_key s (gateway_key u)") (auto simp: gateways_online_def users_on_def)
qed (simp add: gateways_online_def users_on_def)

lemma pushes_for_gateway:
  "filter (\<lambda>x. fst x = pushTopic g) (map (\<lambda>h. (gateway_topic h, j)) hs) =
   replicate (count_list hs g) (pushTopic g, j)"
  by (induction hs) (auto simp: gateway_topic_def pushTopic_def)

lemma count_list_distinct: "distinct xs \<Longrightarrow> x \<in> set xs \<Longrightarrow> count_list xs x = 1"
  by (induction xs) auto

text \<open>C5: From the event of a message to its frames: when nothing fails, a member other than the sender
  who is connected to a gateway gets the frame of the message (identifiers, sender, the first 200
  bytes of the content, instant and sequence number) as many times as there are such members on
  that gateway. With one it comes once; two members on one gateway get every message twice.\<close>

theorem message_frames:
  fixes n :: notify_svc
  assumes calm: "outcomes n = []" "outcomes s = []" and event: "read_MessageCreatedEvent j = Inr evt"
    and numbers: "\<bar>me_seq evt\<bar> \<le> 2 ^ 53" "\<bar>me_created_at evt\<bar> \<le> 2 ^ 53"
    and reach: "gw_reaches env (gw_start e) s"
    and frame: "EncodeFrame (gw_wire env) (message_frame_event evt) = Inr f"
    and member: "distinct (me_member_ids evt)" "u \<in> set (me_member_ids evt)" "u \<noteq> me_sender_id evt"
    and entry: "map_of (conns s) u = Some entry"
    and pushes: "pushes = filter (\<lambda>x. fst x = pushTopic (gwID (gw_cfg env)))
      (drop (length (published n)) (published (snd (run_state (handleMessageCreated P (Some j)) n))))"
  shows "sock_sent (sockets (snd (run_state (for_each (\<lambda>x. gw_do env (PushMessage (Some (snd x)))) pushes) s)) ! ce_Conn entry) =
    sock_sent (sockets s ! ce_Conn entry) @
    replicate (users_on n (gwID (gw_cfg env)) (filter (\<lambda>m. m \<noteq> me_sender_id evt) (me_member_ids evt))) f"
proof -
  let ?p = "message_push evt" and ?g = "gwID (gw_cfg env)"
  have "pushes = replicate (users_on n ?g (message_targets evt)) (pushTopic ?g, marshal_push ?p)"
    unfolding pushes published_message_pushes [OF calm(1) event]
    by (simp add: pushes_for_gateway count_gateways_online)
  moreover have "count_list (np_targets ?p) u = 1"
    using member by (simp add: message_push_def message_targets_def count_list_distinct)
  moreover have "buildServerEvent env \<lparr>pp_Targets = np_targets ?p, pp_EventType = np_event_type ?p,
      pp_Payload = map (\<lambda>(k, v). (k, utf8_value v)) (np_payload ?p)\<rparr> = Inr (message_frame_event evt)"
    using message_push_event [OF numbers] by (simp add: message_push_def)
  ultimately show ?thesis
    using repeated_push [OF gw_reaches_ok [OF reach] calm(2) read_marshal_push [of ?p] _ frame entry]
    by (simp add: message_targets_def)
qed

text \<open>Two members on the gateway \<open>g1\<close>, whose events all have one frame.\<close>

definition demo_gw2 :: gw_env where
  "demo_gw2 = demo_gw\<lparr>gw_wire := demo_wire\<lparr>marshal_event := (\<lambda>m. Inr [7])\<rparr>\<rparr>"

definition demo_two :: gateway where
  "demo_two = snd (run_state (gw_do demo_gw2 (UpgradeRequest ''vb''))
     (snd (run_state (gw_do demo_gw2 (UpgradeRequest ''ua'')) demo_gw_start)))"

definition demo_message :: json where
  "demo_message = JObj [(''sender_id'', JStr ''wc''), (''content'', JStr ''hi''),
     (''member_ids'', JArr [JStr ''ua'', JStr ''vb'', JStr ''wc''])]"

theorem message_frames_witness:
  "\<exists>pushes. pushes = filter (\<lambda>x. fst x = pushTopic ''g1'')
      (published (snd (run_state (handleMessageCreated demo_env (Some demo_message)) demo_notify))) \<and>
    sock_sent (sockets (snd (run_state
      (for_each (\<lambda>x. gw_do demo_gw2 (PushMessage (Some (snd x)))) pushes) demo_two)) ! 0) =
    sock_sent (sockets demo_two ! 0) @ replicate 2 [0, 0, 0, 1, 7]"
proof -
  define evt where "evt = \<lparr>me_message_id = [], me_channel_id = [], me_community_id = [], me_sender_id = ''wc'',
    me_content = ''hi'', me_member_ids = [''ua'', ''vb'', ''wc''], me_created_at = 0, me_seq = 0\<rparr>"
  have event: "read_MessageCreatedEvent demo_message = Inr evt"
    by (simp add: read_MessageCreatedEvent_def json_is_object_def json_field_def json_int64_def evt_def demo_message_def)
  have calm: "outcomes demo_two = []" and frame: "EncodeFrame (gw_wire demo_gw2) ev = Inr [0, 0, 0, 1, 7]" for ev
    by code_simp+
  have conn: "map_option ce_Conn (map_of (conns demo_two) ''ua'') = Some 0" by code_simp
  then obtain entry where entry: "map_of (conns demo_two) ''ua'' = Some entry" "ce_Conn entry = 0" by auto
  have reach: "gw_reaches demo_gw2 (gw_start demo_infra0) demo_two"
    unfolding demo_two_def demo_gw_start_def by (intro gw_reaches.intros)
  have g: "gwID (gw_cfg demo_gw2) = ''g1''" by code_simp
  have n: "published demo_notify = []" "users_on demo_notify ''g1'' [''ua'', ''vb''] = 2"
    by (simp_all add: demo_notify_def notify_service_of_def infra.extend_def demo_infra_def users_on_def
        live_key_def gateway_key_def)
  show ?thesis
    using message_frames [OF demo_notify_ok(2) calm event _ _ reach frame _ _ _ entry(1) refl, of demo_env]
    by (simp add: evt_def g n entry(2) numeral_2_eq_2)
qed

end
