(* ===== verification/ObjectStore.thy ===== *)
theory ObjectStore
  imports Postgres
begin

text \<open>
  What the file service uses of MinIO: objects under a key, and multipart uploads. MinIO is not in
  the repository; what it answers is a parameter (\<open>minio_env\<close>): the identifier of the n-th upload,
  the tag of a part, how the parts of an upload are put together, and the text of a presigned URL.
  \<open>minio_ok\<close> states the documented behaviour of the S3 protocol: completing an upload succeeds only
  for parts that were uploaded and whose tags match, and the object is their concatenation.
  Every call consumes one outcome, as a statement does.
\<close>

record minio_env =
  upload_id :: "nat \<Rightarrow> string"
  part_etag :: "string \<Rightarrow> string"
  assemble :: "(int \<Rightarrow> string option) \<Rightarrow> (int \<times> string) list \<Rightarrow> go_error + string"
  presigned :: "string \<Rightarrow> string \<Rightarrow> int \<Rightarrow> int \<Rightarrow> string"   \<comment> \<open>bucket, key, instant, lifetime\<close>

definition minio_ok :: "'e minio_env_scheme \<Rightarrow> bool" where
  "minio_ok E \<longleftrightarrow>
     (\<forall>m n. upload_id E m = upload_id E n \<longrightarrow> m = n) \<and>
     (\<forall>parts wanted data. assemble E parts wanted = Inr data \<longrightarrow>
        (\<forall>(n, tag) \<in> set wanted. \<exists>d. parts n = Some d \<and> part_etag E d = tag) \<and>
        data = concat (map (\<lambda>(n, tag). the (parts n)) wanted))"

record upload =
  up_key :: string
  up_type :: string
  up_parts :: "int \<Rightarrow> string option"

record file_svc = infra +
  objects :: "string \<Rightarrow> (string \<times> string) option"   \<comment> \<open>content type and data\<close>
  uploads :: "string \<Rightarrow> upload option"
  upload_count :: nat

definition minio_fault :: go_error where
  "minio_fault = Errorf ''minio''"

definition minio_call :: "(file_svc \<Rightarrow> go_error + ('a \<times> file_svc)) \<Rightarrow> (file_svc, go_error + 'a) state" where
  "minio_call f = do {
     o1 \<leftarrow> next_outcome;
     State (\<lambda>s.
       case o1 of
         Done \<Rightarrow> (case f s of Inl e \<Rightarrow> (Inl e, s) | Inr (x, s') \<Rightarrow> (Inr x, s'))
       | Lost \<Rightarrow> (Inl minio_fault, case f s of Inl e \<Rightarrow> s | Inr (x, s') \<Rightarrow> s')
       | _ \<Rightarrow> (Inl minio_fault, s))
   }"

definition PutObject :: "string \<Rightarrow> string \<Rightarrow> string \<Rightarrow> (file_svc, go_error + unit) state" where
  "PutObject key ctype data =
     minio_call (\<lambda>s. Inr ((), s\<lparr>objects := (objects s)(key \<mapsto> (ctype, data))\<rparr>))"

text \<open>Removing an object that is not there is no error.\<close>

definition RemoveObject :: "string \<Rightarrow> (file_svc, go_error + unit) state" where
  "RemoveObject key = minio_call (\<lambda>s. Inr ((), s\<lparr>objects := (objects s)(key := None)\<rparr>))"

definition PresignedGetObject ::
  "'e minio_env_scheme \<Rightarrow> string \<Rightarrow> string \<Rightarrow> int \<Rightarrow> (file_svc, go_error + string) state" where
  "PresignedGetObject E bucket key ttl = minio_call (\<lambda>s. Inr (presigned E bucket key (now s) ttl, s))"

definition NewMultipartUpload ::
  "'e minio_env_scheme \<Rightarrow> string \<Rightarrow> string \<Rightarrow> (file_svc, go_error + string) state" where
  "NewMultipartUpload E key ctype =
     minio_call (\<lambda>s. let i = upload_id E (upload_count s) in
       Inr (i, s\<lparr>uploads := (uploads s)(i \<mapsto> \<lparr>up_key = key, up_type = ctype, up_parts = Map.empty\<rparr>),
                 upload_count := Suc (upload_count s)\<rparr>))"

definition PutObjectPart ::
  "'e minio_env_scheme \<Rightarrow> string \<Rightarrow> string \<Rightarrow> int \<Rightarrow> string \<Rightarrow> (file_svc, go_error + string) state" where
  "PutObjectPart E key i n data =
     minio_call (\<lambda>s. case uploads s i of
       None \<Rightarrow> Inl minio_fault
     | Some u \<Rightarrow>
         if up_key u \<noteq> key then Inl minio_fault
         else Inr (part_etag E data,
                   s\<lparr>uploads := (uploads s)(i \<mapsto> u\<lparr>up_parts := (up_parts u)(n \<mapsto> data)\<rparr>)\<rparr>))"

text \<open>The result is the size of the object.\<close>

definition CompleteMultipart ::
  "'e minio_env_scheme \<Rightarrow> string \<Rightarrow> string \<Rightarrow> (int \<times> string) list \<Rightarrow> (file_svc, go_error + int) state" where
  "CompleteMultipart E key i wanted =
     minio_call (\<lambda>s. case uploads s i of
       None \<Rightarrow> Inl minio_fault
     | Some u \<Rightarrow>
         if up_key u \<noteq> key then Inl minio_fault
         else case assemble E (up_parts u) wanted of
           Inl e \<Rightarrow> Inl e
         | Inr data \<Rightarrow> Inr (int (length data),
             s\<lparr>objects := (objects s)(key \<mapsto> (up_type u, data)), uploads := (uploads s)(i := None)\<rparr>))"

lemmas minio_defs = PutObject_def RemoveObject_def PresignedGetObject_def NewMultipartUpload_def
  PutObjectPart_def CompleteMultipart_def

text \<open>A call is a step of the store; it never touches the tables.\<close>

lemma preserves_minio_call:
  assumes "calls_safe I" and "\<And>s x s'. I s \<Longrightarrow> f s = Inr (x, s') \<Longrightarrow> I s'"
  shows "preserves I (minio_call f)"
  unfolding minio_call_def
  by (rule preserves_bind [OF preserves_next_outcome [OF assms(1)]])
     (auto simp: preserves_def intro: assms(2) split: outcome.split sum.split prod.split)

lemma run_minio_call_calm [run_simps]:
  "outcomes s = [] \<Longrightarrow> run_state (minio_call f) s =
     (case f s of Inl e \<Rightarrow> (Inl e, s) | Inr (x, s') \<Rightarrow> (Inr x, s'))"
  by (simp add: minio_call_def run_next_outcome_calm)

lemma minio_call_InrD:
  assumes "run_state (minio_call f) s = (Inr x, s')"
  shows "\<exists>os t. f (s\<lparr>outcomes := os, now := t\<rparr>) = Inr (x, s')"
proof -
  obtain o1 s1 where o1: "run_state next_outcome s = (o1, s1)" by fastforce
  obtain os t where s1: "s1 = s\<lparr>outcomes := os, now := t\<rparr>" using next_outcome_frame [OF o1] by blast
  from assms o1 have "f s1 = Inr (x, s')"
    by (auto simp: minio_call_def split: outcome.splits sum.splits prod.splits)
  then show ?thesis unfolding s1 by blast
qed

lemma keeps_db_minio_call:
  "(\<And>s x s'. f s = Inr (x, s') \<Longrightarrow> db s' = db s) \<Longrightarrow> keeps db (minio_call f)"
  by (rule keepsI)
     (auto simp: minio_call_def next_outcome_def split: list.split prod.split outcome.split sum.split)

lemma keeps_db_minio [preserves_intros]:
  "keeps db (PutObject k t d)" "keeps db (RemoveObject k)" "keeps db (PresignedGetObject E b k ttl)"
  "keeps db (NewMultipartUpload E k t)" "keeps db (PutObjectPart E k i n d)"
  "keeps db (CompleteMultipart E k i w)"
  unfolding minio_defs
  by (rule keeps_db_minio_call; auto simp: Let_def split: option.splits sum.splits if_splits)+

end
