(* ===== verification/FileService.thy ===== *)
theory FileService
  imports ObjectStore
begin

text \<open>
  \<open>backend/services/file-service\<close>: \<open>repository.go\<close>, \<open>service.go\<close>, \<open>multipart.go\<close> and the test for
  images of \<open>thumbnail.go\<close>. File data is a string of bytes. The decoding and encoding of images are
  parameters, since they are the work of the image libraries.
\<close>

section \<open>Repository\<close>

text \<open>A parameter that is no UUID fails the statement; \<open>file_metadata\<close> is keyed by \<open>id\<close> and
  \<open>attachments\<close> refers to it without a cascade.\<close>

definition sql_insert_file :: "pg_env \<Rightarrow> file_row \<Rightarrow> unit stmt" where
  "sql_insert_file P f t d =
     uuid_param P (fm_id f) (\<lambda>i. uuid_param P (fm_uploader_id f) (\<lambda>u.
       if i \<in> fm_id ` set (file_metadata d) then Inl UniqueViolation
       else if \<not> has_user d u then Inl ForeignKeyViolation
       else Inr ((), d\<lparr>file_metadata := file_metadata d @ [f\<lparr>fm_id := i, fm_uploader_id := u\<rparr>]\<rparr>)))"

definition repo_InsertFileMeta :: "pg_env \<Rightarrow> file_row \<Rightarrow> (file_svc, go_error + unit) state" where
  "repo_InsertFileMeta P f = do {
     r \<leftarrow> pg_exec (sql_insert_file P f);
     ret (wrap_err ''insert file_metadata'' r)
   }"

definition sql_select_file :: "pg_env \<Rightarrow> string \<Rightarrow> file_row list stmt" where
  "sql_select_file P fileID t d =
     uuid_param P fileID (\<lambda>i. Inr (filter (\<lambda>f. fm_id f = i) (file_metadata d), d))"

definition repo_GetFileMeta :: "pg_env \<Rightarrow> string \<Rightarrow> (file_svc, go_error + file_row) state" where
  "repo_GetFileMeta P fileID = do {
     r \<leftarrow> pg_query_row (sql_select_file P fileID);
     ret (case r of
            Inl e \<Rightarrow> if e = NoRows then Inl (Wrap ''file not found'' e)
                     else Inl (Wrap ''query file_metadata'' e)
          | Inr f \<Rightarrow> Inr f)
   }"

definition sql_update_file_status :: "pg_env \<Rightarrow> string \<Rightarrow> string \<Rightarrow> unit stmt" where
  "sql_update_file_status P fileID status t d =
     uuid_param P fileID (\<lambda>i.
       Inr ((), d\<lparr>file_metadata :=
         map (\<lambda>f. if fm_id f = i then f\<lparr>fm_status := status\<rparr> else f) (file_metadata d)\<rparr>))"

definition repo_UpdateFileStatus :: "pg_env \<Rightarrow> string \<Rightarrow> string \<Rightarrow> (file_svc, go_error + unit) state" where
  "repo_UpdateFileStatus P fileID status = do {
     r \<leftarrow> pg_exec (sql_update_file_status P fileID status);
     ret (wrap_err ''update file status'' r)
   }"

definition sql_delete_file :: "pg_env \<Rightarrow> string \<Rightarrow> unit stmt" where
  "sql_delete_file P fileID t d =
     uuid_param P fileID (\<lambda>i.
       if i \<in> fm_id ` set (file_metadata d) \<and> i \<in> att_file_id ` set (attachments d)
       then Inl ForeignKeyViolation
       else Inr ((), d\<lparr>file_metadata := filter (\<lambda>f. fm_id f \<noteq> i) (file_metadata d)\<rparr>))"

definition repo_DeleteFileMeta :: "pg_env \<Rightarrow> string \<Rightarrow> (file_svc, go_error + unit) state" where
  "repo_DeleteFileMeta P fileID = do {
     r \<leftarrow> pg_exec (sql_delete_file P fileID);
     ret (wrap_err ''delete file_metadata'' r)
   }"

section \<open>Thumbnails\<close>

definition thumbnailWidth :: int where
  "thumbnailWidth = 256"

definition HasPrefix :: "string \<Rightarrow> string \<Rightarrow> bool" where
  "HasPrefix s p \<longleftrightarrow> strip_prefix p s \<noteq> None"

definition isImage :: "string \<Rightarrow> bool" where
  "isImage contentType \<longleftrightarrow>
     HasPrefix contentType ''image/jpeg'' \<or> HasPrefix contentType ''image/png'' \<or>
     HasPrefix contentType ''image/gif''"

text \<open>
  What the image libraries contribute: reading an image gives its bounds and its colours, as an RGBA
  image keeps them, and an image is written in one of two formats. The floating-point arithmetic
  of the ratio is a parameter: the height of the thumbnail for a width and a height, and the
  coordinate in an image of a given width that a coordinate of the thumbnail shows.
\<close>

record go_image =
  im_Dx :: int
  im_Dy :: int
  im_At :: "int \<Rightarrow> int \<Rightarrow> nat"

record file_env = minio_env +
  image_decode :: "string \<Rightarrow> go_error + go_image"
  thumb_height :: "int \<Rightarrow> int \<Rightarrow> int"             \<comment> \<open>\<open>int(float64(h) * ratio)\<close>\<close>
  thumb_source :: "int \<Rightarrow> int \<Rightarrow> int"             \<comment> \<open>\<open>int(float64(x) / ratio)\<close>\<close>
  png_encode :: "nat list list \<Rightarrow> go_error + string"
  jpeg_encode :: "nat list list \<Rightarrow> go_error + string"
  file_bucket :: string
  baseURL :: string

fun contains :: "string \<Rightarrow> string \<Rightarrow> bool" where
  "contains [] sub \<longleftrightarrow> sub = []"
| "contains (c # s) sub \<longleftrightarrow> HasPrefix (c # s) sub \<or> contains s sub"

text \<open>The scaled image, row by row. A narrow image is its own thumbnail.\<close>

definition scale_image :: "file_env \<Rightarrow> go_image \<Rightarrow> nat list list" where
  "scale_image E img =
     map (\<lambda>y. map (\<lambda>x. im_At img (thumb_source E (im_Dx img) x) (thumb_source E (im_Dx img) y))
       [0..thumbnailWidth - 1]) [0..thumb_height E (im_Dx img) (im_Dy img) - 1]"

definition generateThumbnail :: "file_env \<Rightarrow> string \<Rightarrow> string \<Rightarrow> go_error + string" where
  "generateThumbnail E data contentType =
     (case image_decode E data of
        Inl err \<Rightarrow> Inl (Wrap ''decode image'' err)
      | Inr img \<Rightarrow>
          if im_Dx img \<le> thumbnailWidth then Inr data
          else if contains contentType ''png'' then wrap_err ''encode png thumbnail'' (png_encode E (scale_image E img))
          else wrap_err ''encode jpeg thumbnail'' (jpeg_encode E (scale_image E img)))"

section \<open>Handlers\<close>

definition maxFileSize :: int where
  "maxFileSize = 5 * 1024 * 1024"

record file_info =
  fi_id :: string
  fi_filename :: string
  fi_content_type :: string
  fi_size :: int
  fi_url :: string
  fi_thumbnail_url :: string
  fi_created_at :: int

definition original_key :: "string \<Rightarrow> string" where
  "original_key fileID = ''originals/'' @ fileID"

definition thumbnail_key :: "string \<Rightarrow> string" where
  "thumbnail_key fileID = ''thumbnails/'' @ fileID"

definition object_url :: "file_env \<Rightarrow> string \<Rightarrow> string" where
  "object_url E key = baseURL E @ ''/'' @ file_bucket E @ ''/'' @ key"

definition signed_in :: "string \<Rightarrow> ('s, 'a) handler \<Rightarrow> ('s, 'a) handler" where
  "signed_in callerID h = guard_that (callerID \<noteq> []) CodeUnauthenticated ''not authenticated'' h"

text \<open>The thumbnail is a courtesy: no failure of it is looked at.\<close>

definition put_thumbnail :: "file_env \<Rightarrow> string \<Rightarrow> string \<Rightarrow> string \<Rightarrow> (file_svc, string) state" where
  "put_thumbnail E fileID contentType data =
     (if isImage contentType
      then (case generateThumbnail E data contentType of
              Inl thumbErr \<Rightarrow> ret []
            | Inr thumbData \<Rightarrow> do {
                _ \<leftarrow> PutObject (thumbnail_key fileID) contentType thumbData;
                ret (object_url E (thumbnail_key fileID))
              })
      else ret [])"

definition UploadFile ::
  "file_env \<Rightarrow> pg_env \<Rightarrow> string \<Rightarrow> string \<Rightarrow> string \<Rightarrow> string \<Rightarrow> string \<Rightarrow> (file_svc, file_info) handler" where
  "UploadFile E P callerID fileID filename contentType data =
     signed_in callerID (
     guard_that (fileID \<noteq> [] \<and> filename \<noteq> [] \<and> contentType \<noteq> [] \<and> data \<noteq> []) CodeInvalidArgument
       ''file_id, filename, content_type, and data are required'' (
     guard_that (int (length data) \<le> maxFileSize) CodeInvalidArgument ''file size exceeds 5 MB limit'' (do {
     t \<leftarrow> gets now;
     let meta = \<lparr>fm_id = fileID, fm_uploader_id = callerID, fm_filename = filename,
       fm_content_type = contentType, fm_size = int (length data), fm_status = ''ready'',
       fm_bucket = file_bucket E, fm_created_at = t\<rparr>;
     try_call (wrapped CodeInternal ''save file metadata'') (repo_InsertFileMeta P meta) (\<lambda>_.
     try_call (wrapped CodeInternal ''upload to storage'')
       (PutObject (original_key fileID) contentType data) (\<lambda>_. do {
     thumbnailURL \<leftarrow> put_thumbnail E fileID contentType data;
     ok \<lparr>fi_id = fileID, fi_filename = filename, fi_content_type = contentType,
         fi_size = int (length data), fi_url = object_url E (original_key fileID),
         fi_thumbnail_url = thumbnailURL, fi_created_at = unix t\<rparr>
     }))
     })))"

definition presignExpiry :: int where
  "presignExpiry = 15 * 60 * 1000000"

definition GetFilePresignedURL ::
  "file_env \<Rightarrow> pg_env \<Rightarrow> string \<Rightarrow> string \<Rightarrow> (file_svc, string \<times> int) handler" where
  "GetFilePresignedURL E P callerID fileID =
     signed_in callerID (
     guard_that (fileID \<noteq> []) CodeInvalidArgument ''file_id is required'' (
     try_call (replaced CodeNotFound ''file not found'') (repo_GetFileMeta P fileID) (\<lambda>meta.
     guard_that (fm_status meta = ''ready'') CodeFailedPrecondition ''file is not ready'' (
     try_call (wrapped CodeInternal ''generate presigned URL'')
       (PresignedGetObject E (file_bucket E) (original_key fileID) presignExpiry) (\<lambda>url. do {
     t \<leftarrow> gets now;
     ok (url, unix (t + presignExpiry))
     })))))"

definition DeleteFile :: "pg_env \<Rightarrow> string \<Rightarrow> string \<Rightarrow> (file_svc, unit) handler" where
  "DeleteFile P callerID fileID =
     signed_in callerID (
     guard_that (fileID \<noteq> []) CodeInvalidArgument ''file_id is required'' (
     try_call (replaced CodeNotFound ''file not found'') (repo_GetFileMeta P fileID) (\<lambda>meta.
     guard_that (fm_uploader_id meta = callerID) CodePermissionDenied
       ''only the uploader can delete this file'' (do {
     _ \<leftarrow> RemoveObject (original_key fileID);
     _ \<leftarrow> RemoveObject (thumbnail_key fileID);
     try_call (wrapped CodeInternal ''delete file metadata'') (repo_DeleteFileMeta P fileID) (\<lambda>_. ok ())
     }))))"

section \<open>Multipart uploads\<close>

definition InitMultipartUpload ::
  "file_env \<Rightarrow> pg_env \<Rightarrow> string \<Rightarrow> string \<Rightarrow> string \<Rightarrow> string \<Rightarrow> (file_svc, string) handler" where
  "InitMultipartUpload E P callerID fileID filename contentType =
     signed_in callerID (
     guard_that (fileID \<noteq> [] \<and> filename \<noteq> [] \<and> contentType \<noteq> []) CodeInvalidArgument
       ''file_id, filename, and content_type are required'' (
     try_call (wrapped CodeInternal ''init multipart upload'')
       (NewMultipartUpload E (original_key fileID) contentType) (\<lambda>uploadID. do {
     t \<leftarrow> gets now;
     let meta = \<lparr>fm_id = fileID, fm_uploader_id = callerID, fm_filename = filename,
       fm_content_type = contentType, fm_size = 0, fm_status = ''uploading'',
       fm_bucket = file_bucket E, fm_created_at = t\<rparr>;
     try_call (wrapped CodeInternal ''save file metadata'') (repo_InsertFileMeta P meta) (\<lambda>_.
     ok uploadID)
     })))"

definition UploadPart ::
  "file_env \<Rightarrow> string \<Rightarrow> string \<Rightarrow> string \<Rightarrow> int \<Rightarrow> string \<Rightarrow> (file_svc, string) handler" where
  "UploadPart E callerID fileID uploadID partNumber data =
     signed_in callerID (
     guard_that (fileID \<noteq> [] \<and> uploadID \<noteq> [] \<and> data \<noteq> []) CodeInvalidArgument
       ''file_id, upload_id, and data are required'' (
     try_call (wrapped CodeInternal ''upload part'')
       (PutObjectPart E (original_key fileID) uploadID partNumber data) ok))"

definition CompleteMultipartUpload ::
  "file_env \<Rightarrow> pg_env \<Rightarrow> string \<Rightarrow> string \<Rightarrow> string \<Rightarrow> (int \<times> string) list \<Rightarrow> (file_svc, file_info) handler" where
  "CompleteMultipartUpload E P callerID fileID uploadID parts =
     signed_in callerID (
     guard_that (fileID \<noteq> [] \<and> uploadID \<noteq> [] \<and> parts \<noteq> []) CodeInvalidArgument
       ''file_id, upload_id, and parts are required'' (
     try_call (wrapped CodeInternal ''complete multipart upload'')
       (CompleteMultipart E (original_key fileID) uploadID parts) (\<lambda>uploadSize.
     try_call (wrapped CodeInternal ''update file status'')
       (repo_UpdateFileStatus P fileID ''ready'') (\<lambda>_.
     try_call (wrapped CodeInternal ''get file metadata'') (repo_GetFileMeta P fileID) (\<lambda>meta.
     ok \<lparr>fi_id = fm_id meta, fi_filename = fm_filename meta, fi_content_type = fm_content_type meta,
         fi_size = uploadSize, fi_url = object_url E (original_key fileID), fi_thumbnail_url = [],
         fi_created_at = unix (fm_created_at meta)\<rparr>)))))"

text \<open>A request with its caller.\<close>

datatype file_request =
    ReqUpload string string string string string
  | ReqPresign string string
  | ReqDelete string string
  | ReqInit string string string string
  | ReqPart string string string int string
  | ReqComplete string string string "(int \<times> string) list"

fun serve_file :: "file_env \<Rightarrow> pg_env \<Rightarrow> file_request \<Rightarrow> (file_svc, unit) state" where
  "serve_file E P (ReqUpload u i n t d) = no_result (UploadFile E P u i n t d)"
| "serve_file E P (ReqPresign u i) = no_result (GetFilePresignedURL E P u i)"
| "serve_file E P (ReqDelete u i) = no_result (DeleteFile P u i)"
| "serve_file E P (ReqInit u i n t) = no_result (InitMultipartUpload E P u i n t)"
| "serve_file E P (ReqPart u i x k d) = no_result (UploadPart E u i x k d)"
| "serve_file E P (ReqComplete u i x ps) = no_result (CompleteMultipartUpload E P u i x ps)"

end
