(* ===== verification/FileFacts.thy ===== *)
theory FileFacts
  imports FileService
begin

text \<open>
  What the file service promises of its table and its objects: the integrity of
  \<open>file_metadata\<close>, that only its uploader removes a file, that what was uploaded can be fetched, by
  parts too; and the two ways in which a file that is \<open>ready\<close> has no object.
\<close>

section \<open>The table\<close>

definition files_ok :: "database \<Rightarrow> bool" where
  "files_ok d \<longleftrightarrow>
     distinct (map fm_id (file_metadata d)) \<and>
     (\<forall>f \<in> set (file_metadata d). has_user d (fm_uploader_id f) \<and> fm_status f \<in> {''ready'', ''uploading''}) \<and>
     (\<forall>a \<in> set (attachments d). att_file_id a \<in> fm_id ` set (file_metadata d))"

text \<open>What one request may do to the table.\<close>

definition same_file :: "file_row \<Rightarrow> file_row \<Rightarrow> bool" where
  "same_file f g \<longleftrightarrow> f\<lparr>fm_status := []\<rparr> = g\<lparr>fm_status := []\<rparr>"

lemma same_file_simps [simp]:
  "same_file f f" "same_file f (f\<lparr>fm_status := st\<rparr>)"
  by (simp_all add: same_file_def)

lemma same_file_trans: "same_file f g \<Longrightarrow> same_file g h \<Longrightarrow> same_file f h"
  by (simp add: same_file_def)

definition files_kept :: "database \<Rightarrow> database \<Rightarrow> bool" where
  "files_kept d d' \<longleftrightarrow>
     d' = d\<lparr>file_metadata := file_metadata d'\<rparr> \<and>
     (\<forall>f \<in> set (file_metadata d). \<exists>g \<in> set (file_metadata d'). same_file f g)"

definition file_gone :: "string \<Rightarrow> database \<Rightarrow> database \<Rightarrow> bool" where
  "file_gone i d d' \<longleftrightarrow>
     d' = d\<lparr>file_metadata := filter (\<lambda>f. fm_id f \<noteq> i) (file_metadata d)\<rparr>"

lemma files_kept_refl: "files_kept d d"
proof -
  have "\<exists>g \<in> set (file_metadata d). same_file f g" if "f \<in> set (file_metadata d)" for f
    using that by (intro bexI [of _ f]) simp_all
  then show ?thesis by (simp add: files_kept_def)
qed

lemma files_kept_trans:
  assumes "files_kept a b" and "files_kept b c"
  shows "files_kept a c"
proof -
  have "\<exists>h \<in> set (file_metadata c). same_file f h" if "f \<in> set (file_metadata a)" for f
    using assms that unfolding files_kept_def by (meson same_file_trans)
  moreover have "c = a\<lparr>file_metadata := file_metadata c\<rparr>"
  proof -
    have "c = b\<lparr>file_metadata := file_metadata c\<rparr>" and "b = a\<lparr>file_metadata := file_metadata b\<rparr>"
      using assms by (simp_all add: files_kept_def)
    then have "c = a\<lparr>file_metadata := file_metadata b, file_metadata := file_metadata c\<rparr>" by metis
    then show ?thesis by simp
  qed
  ultimately show ?thesis by (simp add: files_kept_def)
qed

lemma sql_insert_file_kept: "sql_insert_file P f t d = Inr (x, d') \<Longrightarrow> files_kept d d'"
  by (auto simp: sql_insert_file_def uuid_param_def files_kept_def bex_Un
      intro: bexI [where P = "same_file _", OF same_file_simps(1)] split: option.splits if_splits)

lemma sql_update_file_status_kept:
  assumes "sql_update_file_status P i st t d = Inr (x, d')"
  shows "files_kept d d'"
proof -
  obtain c where d': "d' = d\<lparr>file_metadata :=
      map (\<lambda>f. if fm_id f = c then f\<lparr>fm_status := st\<rparr> else f) (file_metadata d)\<rparr>"
    using assms by (auto simp: sql_update_file_status_def uuid_param_def split: option.splits)
  have "\<exists>g \<in> set (file_metadata d'). same_file f g" if "f \<in> set (file_metadata d)" for f
    using that d' by (intro bexI [of _ "if fm_id f = c then f\<lparr>fm_status := st\<rparr> else f"]) auto
  then show ?thesis using d' by (simp add: files_kept_def)
qed

lemma sql_select_file_reads: "reads_only (sql_select_file P i)"
  by (auto simp: reads_only_def sql_select_file_def uuid_param_def split: option.splits)

lemma preserves_files_kept [preserves_intros]:
  "preserves (\<lambda>s. files_kept d (db s)) (repo_InsertFileMeta P f)"
  "preserves (\<lambda>s. files_kept d (db s)) (repo_UpdateFileStatus P i st)"
  unfolding repo_InsertFileMeta_def repo_UpdateFileStatus_def
  by (intro preserves_intros preserves_pg_exec stmt_safe_db stmt_keepsI;
      blast intro: files_kept_trans sql_insert_file_kept sql_update_file_status_kept)+

lemma keeps_db_GetFileMeta: "keeps db (repo_GetFileMeta P i)"
  unfolding repo_GetFileMeta_def
  by (intro preserves_intros keeps_db_pg_query_row sql_select_file_reads)

lemma preserves_db_reads [preserves_intros]:
  "preserves (\<lambda>s. Q (db s)) (repo_GetFileMeta P i)"
  "preserves (\<lambda>s. Q (db s)) (PutObject k t x)" "preserves (\<lambda>s. Q (db s)) (RemoveObject k)"
  "preserves (\<lambda>s. Q (db s)) (PresignedGetObject E b k ttl)"
  "preserves (\<lambda>s. Q (db s)) (NewMultipartUpload E k t)"
  "preserves (\<lambda>s. Q (db s)) (PutObjectPart E k j n x)"
  "preserves (\<lambda>s. Q (db s)) (CompleteMultipart E k j w)"
  by (rule keeps_preserves, intro keeps_db_GetFileMeta preserves_intros)+

lemmas file_handler_defs = UploadFile_def put_thumbnail_def GetFilePresignedURL_def DeleteFile_def
  InitMultipartUpload_def UploadPart_def CompleteMultipartUpload_def signed_in_def

lemma preserves_kept_handlers [preserves_intros]:
  "preserves (\<lambda>s. files_kept d (db s)) (UploadFile E P u i n t x)"
  "preserves (\<lambda>s. files_kept d (db s)) (GetFilePresignedURL E P u i)"
  "preserves (\<lambda>s. files_kept d (db s)) (InitMultipartUpload E P u i n t)"
  "preserves (\<lambda>s. files_kept d (db s)) (UploadPart E u i j k x)"
  "preserves (\<lambda>s. files_kept d (db s)) (CompleteMultipartUpload E P u i j ps)"
  unfolding file_handler_defs Let_def by (intro preserves_intros)+

lemma files_kept_serve:
  assumes "\<And>u i. req \<noteq> ReqDelete u i"
  shows "preserves (\<lambda>s. files_kept d (db s)) (serve_file E P req)"
  using assms by (cases req) (auto simp: no_result_def intro!: preserves_intros)

text \<open>Deleting: the row goes only when its uploader asks.\<close>

lemma triple_guard_that:
  "(b \<Longrightarrow> triple I m Q) \<Longrightarrow> (\<And>s. I s \<Longrightarrow> Q (Inl (NewError c (Errorf msg))) s) \<Longrightarrow>
   triple I (guard_that b c msg m) Q"
  by (simp add: triple_def guard_that_def fail_def)

lemma triple_try_call:
  assumes "triple I m R" and "\<And>e s. R (Inl e) s \<Longrightarrow> Q (Inl (f e)) s" and "\<And>x. triple (R (Inr x)) (k x) Q"
  shows "triple I (try_call f m k) Q"
  unfolding try_call_def
proof (rule triple_bind [OF assms(1)])
  fix r
  show "triple (R r) (case r of Inl e \<Rightarrow> ret (Inl (f e)) | Inr x \<Rightarrow> k x) Q"
    using assms(2,3) by (cases r) (auto simp: triple_def)
qed

lemma triple_GetFileMeta:
  "triple (\<lambda>s. db s = d) (repo_GetFileMeta P i)
     (\<lambda>r s. db s = d \<and> (\<forall>f. r = Inr f \<longrightarrow> f \<in> set (file_metadata d) \<and> uuid_in P i = Some (fm_id f)))"
proof (rule tripleI)
  fix s r s' assume d: "db s = d" and run: "run_state (repo_GetFileMeta P i) s = (r, s')"
  have "db s' = d" using keepsD [OF keeps_db_GetFileMeta run] d by simp
  moreover have "f \<in> set (file_metadata d) \<and> uuid_in P i = Some (fm_id f)" if r: "r = Inr f" for f
  proof -
    from run r have "run_state (pg_query_row (sql_select_file P i)) s = (Inr f, s')"
      by (auto simp: repo_GetFileMeta_def split: prod.splits sum.splits if_splits)
    from pg_query_row_InrD [OF this] obtain t fs d' where "sql_select_file P i t (db s) = Inr (f # fs, d')" by blast
    then obtain c where c: "uuid_in P i = Some c" "f # fs = filter (\<lambda>g. fm_id g = c) (file_metadata d)"
      by (auto simp: sql_select_file_def uuid_param_def d split: option.splits)
    then have "f \<in> set (filter (\<lambda>g. fm_id g = c) (file_metadata d))" by (metis list.set_intros(1))
    with c(1) show ?thesis by simp
  qed
  ultimately show "db s' = d \<and> (\<forall>f. r = Inr f \<longrightarrow> f \<in> set (file_metadata d) \<and> uuid_in P i = Some (fm_id f))"
    by blast
qed

lemma DeleteFile_db:
  assumes "run_state (DeleteFile P u i) s = (r, s')"
  shows "db s' = db s \<or> (\<exists>f \<in> set (file_metadata (db s)). fm_uploader_id f = u \<and> uuid_in P i = Some (fm_id f) \<and>
    file_gone (fm_id f) (db s) (db s'))"
proof -
  let ?d = "db s"
  let ?J = "\<lambda>x :: file_svc. db x = ?d \<or> (\<exists>f \<in> set (file_metadata ?d). fm_uploader_id f = u \<and>
    uuid_in P i = Some (fm_id f) \<and> file_gone (fm_id f) ?d (db x))"
  have del: "preserves ?J (repo_DeleteFileMeta P i)"
    if "f \<in> set (file_metadata ?d)" "fm_uploader_id f = u" "uuid_in P i = Some (fm_id f)" for f
    unfolding repo_DeleteFileMeta_def
  proof (intro preserves_intros preserves_pg_exec stmt_safe_db stmt_keepsI)
    fix t d x d'
    assume d: "d = ?d \<or> (\<exists>f \<in> set (file_metadata ?d). fm_uploader_id f = u \<and>
        uuid_in P i = Some (fm_id f) \<and> file_gone (fm_id f) ?d d)"
      and "sql_delete_file P i t d = Inr (x, d')"
    then have "d' = d\<lparr>file_metadata := filter (\<lambda>g. fm_id g \<noteq> fm_id f) (file_metadata d)\<rparr>"
      using that by (auto simp: sql_delete_file_def uuid_param_def split: if_splits)
    with d that show "d' = ?d \<or> (\<exists>f \<in> set (file_metadata ?d). fm_uploader_id f = u \<and>
        uuid_in P i = Some (fm_id f) \<and> file_gone (fm_id f) ?d d')"
      by (intro disjI2 bexI [of _ f]) (auto simp: file_gone_def)
  qed
  have rest: "preserves ?J (do {
       _ \<leftarrow> RemoveObject (original_key i);
       _ \<leftarrow> RemoveObject (thumbnail_key i);
       try_call (wrapped CodeInternal ''delete file metadata'') (repo_DeleteFileMeta P i) (\<lambda>_. ok ())
     })" if "f \<in> set (file_metadata ?d)" "fm_uploader_id f = u" "uuid_in P i = Some (fm_id f)" for f
    by (intro preserves_intros del [OF that])
  have "triple (\<lambda>x. db x = ?d) (DeleteFile P u i) (\<lambda>_. ?J)"
    unfolding DeleteFile_def signed_in_def
  proof (rule triple_guard_that, rule triple_guard_that, rule triple_try_call [OF triple_GetFileMeta])
    fix f
    show "triple (\<lambda>x. db x = ?d \<and> (\<forall>g. Inr f = (Inr g :: go_error + file_row) \<longrightarrow>
        g \<in> set (file_metadata ?d) \<and> uuid_in P i = Some (fm_id g)))
      (guard_that (fm_uploader_id f = u) CodePermissionDenied ''only the uploader can delete this file'' (do {
       _ \<leftarrow> RemoveObject (original_key i);
       _ \<leftarrow> RemoveObject (thumbnail_key i);
       try_call (wrapped CodeInternal ''delete file metadata'') (repo_DeleteFileMeta P i) (\<lambda>_. ok ())
     })) (\<lambda>_. ?J)"
      using rest [of f] by (auto simp: triple_def preserves_def guard_that_def fail_def case_prod_unfold)
  qed auto
  from tripleD [OF this assms] show ?thesis by simp
qed

section \<open>Integrity\<close>

lemma db_ok_files [simp]: "db_ok (d\<lparr>file_metadata := fs\<rparr>) = db_ok d"
  by (simp add: db_ok_defs has_defs)

lemma files_ok_stmts:
  "files_ok d \<Longrightarrow> fm_status f \<in> {''ready'', ''uploading''} \<Longrightarrow> sql_insert_file P f t d = Inr (x, d') \<Longrightarrow> files_ok d'"
  "files_ok d \<Longrightarrow> sql_update_file_status P i ''ready'' t d = Inr (x, d') \<Longrightarrow> files_ok d'"
  "files_ok d \<Longrightarrow> sql_delete_file P i t d = Inr (x, d') \<Longrightarrow> files_ok d'"
proof -
  show "files_ok d \<Longrightarrow> fm_status f \<in> {''ready'', ''uploading''} \<Longrightarrow> sql_insert_file P f t d = Inr (x, d') \<Longrightarrow> files_ok d'"
    by (auto simp: files_ok_def sql_insert_file_def uuid_param_def has_user_def split: option.splits if_splits)
next
  assume ok: "files_ok d" and run: "sql_update_file_status P i ''ready'' t d = Inr (x, d')"
  then obtain c where d': "d' = d\<lparr>file_metadata :=
      map (\<lambda>f. if fm_id f = c then f\<lparr>fm_status := ''ready''\<rparr> else f) (file_metadata d)\<rparr>"
    by (auto simp: sql_update_file_status_def uuid_param_def split: option.splits)
  have ids: "map fm_id (file_metadata d') = map fm_id (file_metadata d)"
    unfolding d' by (simp add: map_if_key del: map_map)
  have "\<forall>a \<in> set (attachments d'). att_file_id a \<in> fm_id ` set (file_metadata d')"
    using ok map_key_set [OF ids] by (simp add: d' files_ok_def)
  moreover have "distinct (map fm_id (file_metadata d'))" using ok ids by (simp only: files_ok_def)
  moreover have "\<forall>f \<in> set (file_metadata d'). has_user d' (fm_uploader_id f) \<and> fm_status f \<in> {''ready'', ''uploading''}"
    using ok by (auto simp: files_ok_def d' has_user_def)
  ultimately show "files_ok d'" unfolding files_ok_def by blast
next
  assume ok: "files_ok d" and run: "sql_delete_file P i t d = Inr (x, d')"
  then obtain c where c: "c \<notin> fm_id ` set (file_metadata d) \<or> c \<notin> att_file_id ` set (attachments d)"
    and d': "d' = d\<lparr>file_metadata := filter (\<lambda>f. fm_id f \<noteq> c) (file_metadata d)\<rparr>"
    by (auto simp: sql_delete_file_def uuid_param_def split: option.splits if_splits)
  have "att_file_id a \<in> fm_id ` set (file_metadata d')" if "a \<in> set (attachments d)" for a
  proof -
    have "att_file_id a \<in> fm_id ` set (file_metadata d)" using ok that by (simp add: files_ok_def)
    moreover from this have "att_file_id a \<noteq> c" using c that by blast
    ultimately show ?thesis using image_keep_neq [of "att_file_id a" fm_id "set (file_metadata d)" c] by (simp add: d')
  qed
  then show "files_ok d'"
    using ok by (simp add: files_ok_def d' distinct_map_filter has_user_def)
qed

lemma stmts_keep_db_ok:
  "sql_insert_file P f t d = Inr (x, d') \<Longrightarrow> db_ok d' = db_ok d"
  "sql_update_file_status P i st t d = Inr (x, d') \<Longrightarrow> db_ok d' = db_ok d"
  "sql_delete_file P i t d = Inr (x, d') \<Longrightarrow> db_ok d' = db_ok d"
  by (auto simp: sql_insert_file_def sql_update_file_status_def sql_delete_file_def uuid_param_def
      split: option.splits if_splits)

abbreviation tables_ok :: "file_svc \<Rightarrow> bool" where
  "tables_ok s \<equiv> db_ok (db s) \<and> files_ok (db s)"

lemma preserves_tables_repo [preserves_intros]:
  "fm_status f \<in> {''ready'', ''uploading''} \<Longrightarrow> preserves tables_ok (repo_InsertFileMeta P f)"
  "preserves tables_ok (repo_UpdateFileStatus P i ''ready'')"
  "preserves tables_ok (repo_DeleteFileMeta P i)"
  unfolding repo_InsertFileMeta_def repo_UpdateFileStatus_def repo_DeleteFileMeta_def
  by (intro preserves_intros preserves_pg_exec stmt_safe_db [where Q = "\<lambda>d. db_ok d \<and> files_ok d"] stmt_keepsI;
      simp add: stmts_keep_db_ok; blast intro: files_ok_stmts)+

lemma preserves_tables_serve [preserves_intros]: "preserves tables_ok (serve_file E P req)"
proof -
  note reads = preserves_db_reads [where Q = "\<lambda>d. db_ok d \<and> files_ok d"]
  have "preserves tables_ok (UploadFile E P u i n t x)" "preserves tables_ok (GetFilePresignedURL E P u i)"
    "preserves tables_ok (DeleteFile P u i)" "preserves tables_ok (InitMultipartUpload E P u i n t)"
    "preserves tables_ok (UploadPart E u i j k x)" "preserves tables_ok (CompleteMultipartUpload E P u i j ps)"
    for u i n t x j k ps
    unfolding file_handler_defs Let_def by (intro preserves_intros reads; simp)+
  then show ?thesis by (cases req) (auto simp: no_result_def intro!: preserves_intros)
qed

text \<open>Whatever the file service serves, with any failures of the database and of the storage in
  between: the tables keep their integrity, file identifiers stay unique, every file has an
  uploader who exists and one of the two states, and no attachment is left without its file.\<close>

theorem file_integrity:
  assumes "db_ok (db s)" and "files_ok (db s)"
  shows "db_ok (db (snd (run_state (for_each (serve_file E P) reqs) s))) \<and>
    files_ok (db (snd (run_state (for_each (serve_file E P) reqs) s)))"
proof -
  have "preserves tables_ok (for_each (serve_file E P) reqs)" by (intro preserves_intros)
  with assms show ?thesis by (simp add: preserves_def)
qed

text \<open>C33: A request changes nothing but the table of files, and there a file only changes its state or
  goes, and it goes only when its own uploader has asked to delete it.\<close>

theorem files_deleted_by_uploader:
  fixes E P req s
  assumes ok: "files_ok (db s)" and f: "f \<in> set (file_metadata (db s))"
  defines "d' \<equiv> db (snd (run_state (serve_file E P req) s))"
  shows "d' = (db s)\<lparr>file_metadata := file_metadata d'\<rparr> \<and>
    ((\<exists>g \<in> set (file_metadata d'). same_file f g) \<or>
     (\<exists>i. req = ReqDelete (fm_uploader_id f) i \<and> uuid_in P i = Some (fm_id f)))"
proof (cases "\<exists>u i. req = ReqDelete u i")
  case False
  then have "preserves (\<lambda>x. files_kept (db s) (db x)) (serve_file E P req)" by (intro files_kept_serve) auto
  then have "files_kept (db s) d'" using files_kept_refl by (simp add: preserves_def d'_def)
  with f show ?thesis by (auto simp: files_kept_def)
next
  case True
  then obtain u i where req: "req = ReqDelete u i" by blast
  obtain r s1 where run: "run_state (DeleteFile P u i) s = (r, s1)" by fastforce
  have d': "d' = db s1" by (simp add: d'_def req no_result_def run)
  from DeleteFile_db [OF run] show ?thesis
  proof
    assume "db s1 = db s"
    with f d' show ?thesis by (auto intro!: bexI [of _ f])
  next
    assume "\<exists>g \<in> set (file_metadata (db s)). fm_uploader_id g = u \<and> uuid_in P i = Some (fm_id g) \<and>
      file_gone (fm_id g) (db s) (db s1)"
    then obtain g where g: "g \<in> set (file_metadata (db s))" "fm_uploader_id g = u" "uuid_in P i = Some (fm_id g)"
      "file_gone (fm_id g) (db s) d'" using d' by blast
    show ?thesis
    proof (cases "fm_id f = fm_id g")
      case True
      then have "f = g" using ok f g(1) distinct_map_key_eq [of fm_id] by (auto simp: files_ok_def)
      with g req show ?thesis by (simp add: file_gone_def)
    next
      case False
      with f g(4) show ?thesis by (auto simp: file_gone_def intro!: bexI [of _ f])
    qed
  qed
qed

section \<open>Uploading\<close>

lemma keys_differ [simp]: "original_key i \<noteq> thumbnail_key j" "thumbnail_key j \<noteq> original_key i"
  by (simp_all add: original_key_def thumbnail_key_def)

lemma signed_in_InrE:
  assumes "run_state (signed_in u h) s = (Inr y, s')"
  obtains "u \<noteq> []" and "run_state h s = (Inr y, s')"
  using assms by (auto simp: signed_in_def elim: guard_that_InrE)

lemma repo_InsertFileMeta_InrD:
  assumes "run_state (repo_InsertFileMeta P f) s = (Inr x, s')"
  shows "\<exists>i u. uuid_in P (fm_id f) = Some i \<and> uuid_in P (fm_uploader_id f) = Some u \<and>
    i \<notin> fm_id ` set (file_metadata (db s)) \<and> has_user (db s) u \<and>
    file_metadata (db s') = file_metadata (db s) @ [f\<lparr>fm_id := i, fm_uploader_id := u\<rparr>]"
proof -
  from assms have "run_state (pg_exec (sql_insert_file P f)) s = (Inr x, s')"
    by (auto simp: repo_InsertFileMeta_def split: prod.splits)
  from pg_exec_InrD [OF this] obtain t os d where ins: "sql_insert_file P f t (db s) = Inr (x, d)"
    and s': "s' = s\<lparr>outcomes := os, now := t, db := d\<rparr>" by blast
  from ins show ?thesis
    unfolding s' by (auto simp: sql_insert_file_def uuid_param_def split: option.splits if_splits)
qed

text \<open>The thumbnail is stored under a key of its own.\<close>

lemma put_thumbnail_keeps:
  "preserves (\<lambda>s. objects s (original_key i) = x \<and> Q (db s)) (put_thumbnail E j t d)"
proof -
  have "preserves (\<lambda>s. objects s (original_key i) = x \<and> Q (db s)) (PutObject (thumbnail_key k) t' d')" for k t' d'
    unfolding PutObject_def by (rule preserves_minio_call) (auto simp: calls_safe_def)
  then show ?thesis unfolding put_thumbnail_def by (intro preserves_intros)
qed

lemma UploadFile_InrD:
  assumes run: "run_state (UploadFile E P u i n t x) s = (Inr info, s')"
  shows "\<exists>c v at. uuid_in P i = Some c \<and> uuid_in P u = Some v \<and> c \<notin> fm_id ` set (file_metadata (db s)) \<and>
    x \<noteq> [] \<and> int (length x) \<le> maxFileSize \<and> i \<noteq> [] \<and> has_user (db s) v \<and>
    file_metadata (db s') = file_metadata (db s) @ [\<lparr>fm_id = c, fm_uploader_id = v, fm_filename = n,
      fm_content_type = t, fm_size = int (length x), fm_status = ''ready'', fm_bucket = file_bucket E,
      fm_created_at = at\<rparr>] \<and>
    objects s' (original_key i) = Some (t, x)"
proof -
  let ?meta = "\<lparr>fm_id = i, fm_uploader_id = u, fm_filename = n, fm_content_type = t,
    fm_size = int (length x), fm_status = ''ready'', fm_bucket = file_bucket E, fm_created_at = now s\<rparr>"
  from run obtain a s1 b s2 th where
    args: "i \<noteq> []" "x \<noteq> []" "int (length x) \<le> maxFileSize" and
    ins: "run_state (repo_InsertFileMeta P ?meta) s = (Inr a, s1)" and
    put: "run_state (PutObject (original_key i) t x) s1 = (Inr b, s2)" and
    thumb: "run_state (put_thumbnail E i t x) s2 = (th, s')"
    unfolding UploadFile_def Let_def
    by (elim signed_in_InrE handler_InrE run_bindE) (auto elim!: handler_InrE run_bindE)
  from repo_InsertFileMeta_InrD [OF ins] obtain c v where
    c: "uuid_in P i = Some c" "uuid_in P u = Some v" "c \<notin> fm_id ` set (file_metadata (db s))" "has_user (db s) v"
      "file_metadata (db s1) = file_metadata (db s) @ [?meta\<lparr>fm_id := c, fm_uploader_id := v\<rparr>]" by auto
  have "db s2 = db s1" by (rule keepsD [OF keeps_db_minio(1) put])
  moreover have "objects s2 (original_key i) = Some (t, x)"
    using minio_call_InrD [OF put [unfolded PutObject_def]] by auto
  ultimately have "objects s' (original_key i) = Some (t, x) \<and> db s' = db s1"
    using preservesD [where I = "\<lambda>s. objects s (original_key i) = Some (t, x) \<and> db s = db s1", OF put_thumbnail_keeps thumb]
    by simp
  then show ?thesis using args c by auto
qed

lemma GetFilePresignedURL_calm:
  assumes "outcomes s = []" and "w \<noteq> []" and "i \<noteq> []" and c: "uuid_in P i = Some c"
    and rows: "filter (\<lambda>f. fm_id f = c) (file_metadata (db s)) = f # fs" and "fm_status f = ''ready''"
  shows "run_state (GetFilePresignedURL E P w i) s =
    (Inr (presigned E (file_bucket E) (original_key i) (now s) presignExpiry, unix (now s + presignExpiry)), s)"
  using assms
  by (simp add: GetFilePresignedURL_def signed_in_def run_simps repo_GetFileMeta_def sql_select_file_def
      uuid_param_def scan_one_def PresignedGetObject_def Let_def)

text \<open>C34: What was uploaded can be fetched: after a successful \<open>UploadFile\<close> the storage holds exactly
  the data under the file's key, the table has its one new row with the uploader and the size, which
  is at most 5 MB, and as long as the row is there everybody who is signed in gets a URL for that
  key, good for a quarter of an hour.\<close>

theorem upload_read_back:
  assumes run: "run_state (UploadFile E P u i n t x) s = (Inr info, s1)"
    and later: "file_metadata (db s2) = file_metadata (db s1)" "outcomes s2 = []" "w \<noteq> []"
  shows "objects s1 (original_key i) = Some (t, x) \<and> int (length x) \<le> maxFileSize \<and>
    (\<exists>row. file_metadata (db s1) = file_metadata (db s) @ [row] \<and> uuid_in P i = Some (fm_id row) \<and>
       uuid_in P u = Some (fm_uploader_id row) \<and> fm_filename row = n \<and> fm_content_type row = t \<and>
       fm_size row = int (length x) \<and> fm_status row = ''ready'') \<and>
    run_state (GetFilePresignedURL E P w i) s2 =
      (Inr (presigned E (file_bucket E) (original_key i) (now s2) presignExpiry, unix (now s2 + presignExpiry)), s2)"
proof -
  from UploadFile_InrD [OF run] obtain c v at where
    up: "uuid_in P i = Some c" "uuid_in P u = Some v" "c \<notin> fm_id ` set (file_metadata (db s))"
      "int (length x) \<le> maxFileSize" "i \<noteq> []" "objects s1 (original_key i) = Some (t, x)"
    and rows: "file_metadata (db s1) = file_metadata (db s) @ [\<lparr>fm_id = c, fm_uploader_id = v, fm_filename = n,
      fm_content_type = t, fm_size = int (length x), fm_status = ''ready'', fm_bucket = file_bucket E,
      fm_created_at = at\<rparr>]" (is "_ = _ @ [?row]") by blast
  have "filter (\<lambda>f. fm_id f = c) (file_metadata (db s)) = []"
    using up(3) by (auto simp: filter_empty_conv)
  then have "filter (\<lambda>f. fm_id f = c) (file_metadata (db s2)) = ?row # []" by (simp add: later(1) rows)
  from GetFilePresignedURL_calm [OF later(2,3) up(5,1) this] up rows show ?thesis
    by (intro conjI exI [of _ ?row]) simp_all
qed

section \<open>Uploading in parts\<close>

lemma CompleteMultipart_InrD:
  assumes "run_state (CompleteMultipart E k j ps) s = (Inr len, s1)"
  shows "\<exists>up data. uploads s j = Some up \<and> up_key up = k \<and> assemble E (up_parts up) ps = Inr data \<and>
    objects s1 k = Some (up_type up, data) \<and> len = int (length data)"
proof -
  note raw = minio_call_InrD [OF assms [unfolded CompleteMultipart_def]]
  obtain up where up: "uploads s j = Some up" using raw by (cases "uploads s j") simp_all
  have key: "up_key up = k" using raw up by (cases "up_key up = k") simp_all
  obtain data where "assemble E (up_parts up) ps = Inr data"
    using raw up key by (cases "assemble E (up_parts up) ps") simp_all
  with raw up key show ?thesis by auto
qed

text \<open>A successful \<open>CompleteMultipartUpload\<close> was for an upload that was begun for this file; the
  storage then holds the parts that were named, in the order in which they were named, each with
  the tag that was given for it, the response has their total size, and the file is ready. The size
  in the table stays what it was, which is zero.\<close>

theorem multipart_complete:
  assumes env: "minio_ok E" and run: "run_state (CompleteMultipartUpload E P u i j ps) s = (Inr info, s')"
  shows "\<exists>up data f. uploads s j = Some up \<and> up_key up = original_key i \<and>
    (\<forall>(k, tag) \<in> set ps. \<exists>d. up_parts up k = Some d \<and> part_etag E d = tag) \<and>
    data = concat (map (\<lambda>(k, tag). the (up_parts up k)) ps) \<and>
    objects s' (original_key i) = Some (up_type up, data) \<and> fi_size info = int (length data) \<and>
    f \<in> set (file_metadata (db s)) \<and> uuid_in P i = Some (fm_id f) \<and>
    f\<lparr>fm_status := ''ready''\<rparr> \<in> set (file_metadata (db s'))"
proof -
  from run obtain len s1 b s2 meta where
    comp: "run_state (CompleteMultipart E (original_key i) j ps) s = (Inr len, s1)" and
    upd: "run_state (repo_UpdateFileStatus P i ''ready'') s1 = (Inr b, s2)" and
    get: "run_state (repo_GetFileMeta P i) s2 = (Inr meta, s')" and
    info: "fi_size info = len"
    unfolding CompleteMultipartUpload_def
    by (elim signed_in_InrE handler_InrE run_bindE) auto
  from CompleteMultipart_InrD [OF comp] obtain up data where
    up: "uploads s j = Some up" "up_key up = original_key i" "assemble E (up_parts up) ps = Inr data"
    and s1: "objects s1 (original_key i) = Some (up_type up, data)" "len = int (length data)" by blast
  have db1: "db s1 = db s" by (rule keepsD [OF keeps_db_minio(6) comp])
  from upd have "run_state (pg_exec (sql_update_file_status P i ''ready'')) s1 = (Inr b, s2)"
    by (auto simp: repo_UpdateFileStatus_def split: prod.splits)
  from pg_exec_InrD [OF this] obtain c where c: "uuid_in P i = Some c" "objects s2 = objects s1"
    "file_metadata (db s2) = map (\<lambda>f. if fm_id f = c then f\<lparr>fm_status := ''ready''\<rparr> else f) (file_metadata (db s))"
    by (auto simp: sql_update_file_status_def uuid_param_def db1 split: option.splits)
  have db2: "db s' = db s2" by (rule keepsD [OF keeps_db_GetFileMeta get])
  have "preserves (\<lambda>x. objects x = objects s2) (repo_GetFileMeta P i)"
    unfolding repo_GetFileMeta_def
    by (intro preserves_intros preserves_pg_query_row stmt_safe_reads_only sql_select_file_reads)
       (simp add: calls_safe_def)
  from preservesD [OF this get] have obj: "objects s' = objects s2" by simp
  from tripleD [OF triple_GetFileMeta [of "db s2"] get] have
    meta: "meta \<in> set (file_metadata (db s2))" "fm_id meta = c" using c(1) by auto
  then obtain f where f: "f \<in> set (file_metadata (db s))" "fm_id f = c" "f\<lparr>fm_status := ''ready''\<rparr> = meta"
    unfolding c(3) by (auto split: if_splits)
  from up(3) have law: "(\<forall>(k, tag) \<in> set ps. \<exists>d. up_parts up k = Some d \<and> part_etag E d = tag) \<and>
      data = concat (map (\<lambda>(k, tag). the (up_parts up k)) ps)"
    by (rule env [unfolded minio_ok_def, THEN conjunct2, THEN spec, THEN spec, THEN spec, THEN mp])
  show ?thesis
  proof (intro exI [of _ up] exI [of _ data] exI [of _ f] conjI)
    show "objects s' (original_key i) = Some (up_type up, data)" by (simp only: obj c(2) s1(1))
    show "f\<lparr>fm_status := ''ready''\<rparr> \<in> set (file_metadata (db s'))" by (simp only: f(3) meta(1) db2)
    show "uuid_in P i = Some (fm_id f)" by (simp only: c(1) f(2))
    show "fi_size info = int (length data)" by (simp only: info s1(2))
  qed (rule up law [THEN conjunct1] law [THEN conjunct2] f(1))+
qed

section \<open>Files without their object\<close>

text \<open>C35: (What the code does.) The row is written as ready before the data is stored. When the storage
  then fails, the caller gets an error but the row stays: the file counts as ready without an object,
  URLs are given out for it, and the upload cannot be repeated.\<close>

theorem failed_upload_stays_ready:
  assumes args: "u \<noteq> []" "i \<noteq> []" "n \<noteq> []" "t \<noteq> []" "x \<noteq> []" "int (length x) \<le> maxFileSize" "w \<noteq> []"
    and ids: "uuid_in P i = Some c" "uuid_in P u = Some v" "has_user (db s) v" "c \<notin> fm_id ` set (file_metadata (db s))"
    and storage_fails: "outcomes s = [(Done, a), (Fail, b)]"
  shows "\<exists>s1 url. run_state (UploadFile E P u i n t x) s =
      (Inl (wrapped CodeInternal ''upload to storage'' minio_fault), s1) \<and>
    objects s1 = objects s \<and>
    run_state (GetFilePresignedURL E P w i) s1 = (Inr url, s1) \<and>
    run_state (UploadFile E P u i n t x) s1 =
      (Inl (wrapped CodeInternal ''save file metadata'' (Wrap ''insert file_metadata'' (Pg UniqueViolation))), s1)"
proof -
  let ?row = "\<lparr>fm_id = c, fm_uploader_id = v, fm_filename = n, fm_content_type = t, fm_size = int (length x),
    fm_status = ''ready'', fm_bucket = file_bucket E, fm_created_at = now s\<rparr>"
  let ?s1 = "s\<lparr>outcomes := [], now := now s + int a + int b,
    db := (db s)\<lparr>file_metadata := file_metadata (db s) @ [?row]\<rparr>\<rparr>"
  have up: "run_state (UploadFile E P u i n t x) s =
      (Inl (wrapped CodeInternal ''upload to storage'' minio_fault), ?s1)"
    using args ids storage_fails
    by (simp add: UploadFile_def signed_in_def run_simps repo_InsertFileMeta_def pg_exec_def next_outcome_def
        sql_insert_file_def uuid_param_def PutObject_def minio_call_def Let_def)
  have none: "filter (\<lambda>f. fm_id f = c) (file_metadata (db s)) = []" using ids(4) by (auto simp: filter_empty_conv)
  then have url: "run_state (GetFilePresignedURL E P w i) ?s1 =
      (Inr (presigned E (file_bucket E) (original_key i) (now ?s1) presignExpiry, unix (now ?s1 + presignExpiry)), ?s1)"
    by (intro GetFilePresignedURL_calm [OF _ args(7,2) ids(1), where f = ?row and fs = "[]"]) simp_all
  have again: "run_state (UploadFile E P u i n t x) ?s1 =
      (Inl (wrapped CodeInternal ''save file metadata'' (Wrap ''insert file_metadata'' (Pg UniqueViolation))), ?s1)"
    using args ids
    by (simp add: UploadFile_def signed_in_def run_simps repo_InsertFileMeta_def
        sql_insert_file_def uuid_param_def Let_def)
  show ?thesis
    by (rule exI [of _ ?s1], rule exI, intro conjI, rule up, simp, rule url, rule again)
qed

text \<open>(What the code does.) Deleting removes the object before the row. The row of a file that is
  attached to a message cannot be deleted, so the uploader gets an error while the object is gone:
  the attachment refers to a ready file without data.\<close>

theorem attached_file_loses_object:
  assumes calm: "outcomes s = []" and "u \<noteq> []" "i \<noteq> []" and c: "uuid_in P i = Some c"
    and row: "filter (\<lambda>f. fm_id f = c) (file_metadata (db s)) = f # fs" "fm_uploader_id f = u"
    and attached: "c \<in> att_file_id ` set (attachments (db s))"
  shows "\<exists>s1. run_state (DeleteFile P u i) s =
      (Inl (wrapped CodeInternal ''delete file metadata'' (Wrap ''delete file_metadata'' (Pg ForeignKeyViolation))), s1) \<and>
    db s1 = db s \<and> objects s1 (original_key i) = None"
proof -
  have "c \<in> fm_id ` set (file_metadata (db s))"
    using arg_cong [where f = set, OF row(1)] by auto
  then show ?thesis
    using assms
    by (simp add: DeleteFile_def signed_in_def run_simps repo_GetFileMeta_def sql_select_file_def uuid_param_def
        scan_one_def RemoveObject_def repo_DeleteFileMeta_def sql_delete_file_def)
qed

section \<open>Examples\<close>

definition demo_files :: file_env where
  "demo_files =
     \<lparr>upload_id = (\<lambda>n. replicate (Suc n) (CHR ''u'')), part_etag = id,
      assemble = (\<lambda>parts wanted. if list_all (\<lambda>(n, tag). parts n = Some tag) wanted
                    then Inr (concat (map snd wanted)) else Inl minio_fault),
      presigned = (\<lambda>b k t ttl. k), image_decode = (\<lambda>d. Inl JsonError), thumb_height = (\<lambda>w h. h * 256 div w),
      thumb_source = (\<lambda>w x. x * w div 256), png_encode = (\<lambda>p. Inr ''png''), jpeg_encode = (\<lambda>p. Inr ''jpeg''), file_bucket = ''constell'', baseURL = ''http://files''\<rparr>"

lemma demo_files_ok: "minio_ok demo_files"
proof -
  have "concat (map snd ps) = concat (map (\<lambda>(n, tag). the (parts n)) ps)"
    if "list_all (\<lambda>(n, tag). parts n = Some tag) ps" for parts :: "int \<Rightarrow> string option" and ps
    using that by (induction ps) auto
  then show ?thesis
    by (auto simp: minio_ok_def demo_files_def replicate_eq_replicate list_all_iff split: if_splits)
qed

definition demo_file_user :: user_table_row where
  "demo_file_user =
     \<lparr>u_id = ''ua'', u_email = ''a@x'', u_password_hash = [], u_nickname = ''Ann'', u_avatar_url = [],
      u_status_message = [], u_created_at = 0, u_updated_at = 0\<rparr>"

definition demo_file_start :: file_svc where
  "demo_file_start =
     \<lparr>db = empty_db\<lparr>users := [demo_file_user]\<rparr>, now = 0, outcomes = [], nats_connected = True,
      published = [], redis = Map.empty, objects = Map.empty, uploads = Map.empty, upload_count = 0\<rparr>"

definition demo_uploaded :: file_svc where
  "demo_uploaded = snd (run_state (UploadFile demo_files demo_env ''ua'' ''f1'' ''x.txt'' ''text/plain'' ''hello'') demo_file_start)"

lemma demo_file_start_ok: "db_ok (db demo_file_start)" "files_ok (db demo_file_start)"
  by (simp_all add: demo_file_start_def db_ok_defs has_defs empty_db_def files_ok_def)

theorem file_integrity_witness:
  "files_ok (db (snd (run_state (for_each (serve_file demo_files demo_env)
      [ReqUpload ''ua'' ''f1'' ''x.txt'' ''text/plain'' ''hello'', ReqDelete ''ua'' ''f1'']) demo_file_start)))"
  using file_integrity [OF demo_file_start_ok] by blast

lemma demo_uploaded_rows: "map fm_id (file_metadata (db demo_uploaded)) = [''f1'']"
  "map fm_uploader_id (file_metadata (db demo_uploaded)) = [''ua'']"
  by code_simp+

theorem files_deleted_by_uploader_witness:
  "\<exists>f g. file_metadata (db demo_uploaded) = [f] \<and>
     g \<in> set (file_metadata (db (snd (run_state (serve_file demo_files demo_env (ReqDelete ''vb'' ''f1'')) demo_uploaded)))) \<and>
     same_file f g"
proof -
  obtain f where f: "file_metadata (db demo_uploaded) = [f]" "fm_uploader_id f = ''ua''"
    using demo_uploaded_rows(2) by auto
  have "preserves tables_ok (UploadFile demo_files demo_env ''ua'' ''f1'' ''x.txt'' ''text/plain'' ''hello'')"
    using preserves_tables_serve [of demo_files demo_env "ReqUpload ''ua'' ''f1'' ''x.txt'' ''text/plain'' ''hello''"]
    by (simp add: no_result_def preserves_def case_prod_unfold)
  then have "files_ok (db demo_uploaded)"
    using demo_file_start_ok by (simp add: demo_uploaded_def preserves_def)
  from files_deleted_by_uploader [OF this, of f demo_files demo_env "ReqDelete ''vb'' ''f1''"] f
  show ?thesis by auto
qed

lemma demo_upload_runs:
  "\<exists>info. run_state (UploadFile demo_files demo_env ''ua'' ''f1'' ''x.txt'' ''text/plain'' ''hello'') demo_file_start =
     (Inr info, demo_uploaded)"
proof -
  have "\<not> isl (fst (run_state (UploadFile demo_files demo_env ''ua'' ''f1'' ''x.txt'' ''text/plain'' ''hello'') demo_file_start))"
    by code_simp
  then show ?thesis by (auto simp: demo_uploaded_def prod_eq_iff isl_def split: sum.splits intro: sum.exhaust)
qed

theorem upload_read_back_witness:
  "objects demo_uploaded (original_key ''f1'') = Some (''text/plain'', ''hello'') \<and>
   fst (run_state (GetFilePresignedURL demo_files demo_env ''vb'' ''f1'') demo_uploaded) =
     Inr (''originals/f1'', 15 * 60)"
proof -
  obtain info where run: "run_state (UploadFile demo_files demo_env ''ua'' ''f1'' ''x.txt'' ''text/plain'' ''hello'')
      demo_file_start = (Inr info, demo_uploaded)" using demo_upload_runs by blast
  have calm: "outcomes demo_uploaded = []" "now demo_uploaded = 0" by code_simp+
  from upload_read_back [OF run refl calm(1), of "''vb''"] calm(2)
  show ?thesis by (simp add: demo_files_def original_key_def unix_def presignExpiry_def)
qed

theorem failed_upload_stays_ready_witness:
  "\<exists>s1 url. run_state (UploadFile demo_files demo_env ''ua'' ''f1'' ''x'' ''text/plain'' ''hello'')
      (demo_file_start\<lparr>outcomes := [(Done, 0), (Fail, 0)]\<rparr>) =
      (Inl (wrapped CodeInternal ''upload to storage'' minio_fault), s1) \<and>
    objects s1 (original_key ''f1'') = None \<and>
    fst (run_state (GetFilePresignedURL demo_files demo_env ''ua'' ''f1'') s1) = Inr url"
proof -
  let ?s = "demo_file_start\<lparr>outcomes := [(Done, 0), (Fail, 0)]\<rparr>"
  have ids: "uuid_in demo_env ''f1'' = Some ''f1''" "uuid_in demo_env ''ua'' = Some ''ua''" by code_simp+
  have start: "has_user (db ?s) ''ua''" "''f1'' \<notin> fm_id ` set (file_metadata (db ?s))" "objects ?s = Map.empty"
    by (simp_all add: demo_file_start_def has_user_def demo_file_user_def empty_db_def)
  have size: "int (length ''hello'') \<le> maxFileSize" by (simp add: maxFileSize_def)
  show ?thesis
    using failed_upload_stays_ready [OF _ _ _ _ _ size _ ids start(1,2), of "''x''" "''text/plain''" "''ua''" 0 0 demo_files]
      start(3) by auto
qed

definition demo_attached :: file_svc where
  "demo_attached = demo_uploaded\<lparr>db := (db demo_uploaded)\<lparr>attachments :=
     [\<lparr>att_id = ''at'', att_message_type = ''channel'', att_message_id = ''m'', att_file_id = ''f1'',
       att_filename = [], att_content_type = [], att_size = 0\<rparr>]\<rparr>\<rparr>"

theorem attached_file_loses_object_witness:
  "\<exists>s1. run_state (DeleteFile demo_env ''ua'' ''f1'') demo_attached =
      (Inl (wrapped CodeInternal ''delete file metadata'' (Wrap ''delete file_metadata'' (Pg ForeignKeyViolation))), s1) \<and>
    map fm_status (file_metadata (db s1)) = [''ready''] \<and> objects s1 (original_key ''f1'') = None"
proof -
  have calm: "outcomes demo_attached = []" and u: "uuid_in demo_env ''f1'' = Some ''f1''"
    and status: "map fm_status (file_metadata (db demo_attached)) = [''ready'']" by code_simp+
  obtain f where f: "file_metadata (db demo_attached) = [f]" "fm_uploader_id f = ''ua''" "fm_id f = ''f1''"
    using demo_uploaded_rows by (auto simp: demo_attached_def)
  then have "filter (\<lambda>f. fm_id f = ''f1'') (file_metadata (db demo_attached)) = f # []" by simp
  from attached_file_loses_object [OF calm _ _ u this f(2)] status
  show ?thesis by (auto simp: demo_attached_def)
qed

definition demo_parts :: file_svc where
  "demo_parts = snd (run_state (for_each (serve_file demo_files demo_env)
     [ReqInit ''ua'' ''f2'' ''y.bin'' ''text/plain'', ReqPart ''ua'' ''f2'' ''u'' 1 ''hel'',
      ReqPart ''ua'' ''f2'' ''u'' 2 ''lo'']) demo_file_start)"

theorem multipart_complete_witness:
  "\<exists>info s'. run_state (CompleteMultipartUpload demo_files demo_env ''ua'' ''f2'' ''u'' [(1, ''hel''), (2, ''lo'')]) demo_parts =
      (Inr info, s') \<and> objects s' (original_key ''f2'') = Some (''text/plain'', ''hello'') \<and> fi_size info = 5"
proof -
  let ?run = "run_state (CompleteMultipartUpload demo_files demo_env ''ua'' ''f2'' ''u'' [(1, ''hel''), (2, ''lo'')]) demo_parts"
  have "\<not> isl (fst ?run)" by code_simp
  then obtain info s' where run: "?run = (Inr info, s')" by (cases ?run) (auto simp: isl_def split: sum.splits intro: sum.exhaust)
  from multipart_complete [OF demo_files_ok run] obtain up where
    up: "uploads demo_parts ''u'' = Some up"
      "objects s' (original_key ''f2'') = Some (up_type up, concat (map (\<lambda>(k, tag). the (up_parts up k)) [(1, ''hel''), (2, ''lo'')]))"
      "fi_size info = int (length (concat (map (\<lambda>(k, tag). the (up_parts up k)) [(1, ''hel''), (2, ''lo'')])))" by blast
  have "map_option (\<lambda>up. (up_type up, the (up_parts up 1), the (up_parts up 2))) (uploads demo_parts ''u'') =
      Some (''text/plain'', ''hel'', ''lo'')" by code_simp
  with up run show ?thesis by auto
qed

end
