(* ===== verification/SearchService.thy ===== *)
theory SearchService
  imports NotifyStore
begin

text \<open>
  \<open>backend/services/search-service\<close>: \<open>repository.go\<close> and \<open>service.go\<close>.

  Full-text search is Postgres's; a parameter (\<open>search_env\<close>) says how \<open>to_tsquery('simple', _)\<close>
  reads a text (\<open>None\<close> is its syntax error), which documents match a query (\<open>@@\<close>) and how they are
  ranked. A document is the text of the generated \<open>search_vector\<close> column (migrations 011 and 014).
  Another parameter is Go's table of letters and digits beyond ASCII. The goroutines of a search
  only read; \<open>sched\<close> is the order in which they get to the database.
\<close>

section \<open>Words of a query\<close>

text \<open>The bytes of each rune, as \<open>range\<close> over a string reads them; a stray byte stands alone.\<close>

definition rest_of_rune :: "char \<Rightarrow> string \<Rightarrow> nat" where
  "rest_of_rune c s = utf8_size (map of_char (c # s)) - 1"

function runes :: "string \<Rightarrow> string list" where
  "runes [] = []"
| "runes (c # s) = (c # take (rest_of_rune c s) s) # runes (drop (rest_of_rune c s) s)"
  by pat_completeness auto
termination
  by (relation "measure length") auto

declare runes.simps(2) [simp del]

text \<open>\<open>strings.Fields\<close>.\<close>

fun fields_from :: "string \<Rightarrow> string list \<Rightarrow> string list" where
  "fields_from w [] = (if w = [] then [] else [w])"
| "fields_from w (r # rs) =
     (if r \<in> set space_runes then (if w = [] then [] else [w]) @ fields_from [] rs
      else fields_from (w @ r) rs)"

definition Fields :: "string \<Rightarrow> string list" where
  "Fields s = fields_from [] (runes s)"

record ('q, 'r) search_env =
  letter_or_digit :: "string \<Rightarrow> bool"       \<comment> \<open>\<open>unicode.IsLetter\<close> or \<open>IsDigit\<close> of a rune beyond ASCII\<close>
  tsquery_in :: "string \<Rightarrow> 'q option"
  ts_match :: "string \<Rightarrow> 'q \<Rightarrow> bool"
  ts_rank :: "string \<Rightarrow> 'q \<Rightarrow> 'r"

definition ascii_alnum :: "nat \<Rightarrow> bool" where
  "ascii_alnum n \<longleftrightarrow> 48 \<le> n \<and> n \<le> 57 \<or> 65 \<le> n \<and> n \<le> 90 \<or> 97 \<le> n \<and> n \<le> 122"

text \<open>A stray byte is read as U+FFFD, which is neither a letter nor a digit.\<close>

definition word_rune :: "('q, 'r) search_env \<Rightarrow> string \<Rightarrow> bool" where
  "word_rune E r =
     (case r of
        [c] \<Rightarrow> ascii_alnum (of_char c) \<or> c = CHR ''_''
      | _ \<Rightarrow> letter_or_digit E r)"

fun write_runes :: "('q, 'r) search_env \<Rightarrow> string list \<Rightarrow> string \<Rightarrow> string" where
  "write_runes E [] tok = tok"
| "write_runes E (r # rs) tok = write_runes E rs (if word_rune E r then tok @ r else tok)"

fun prefix_loop :: "('q, 'r) search_env \<Rightarrow> string list \<Rightarrow> string \<Rightarrow> bool \<Rightarrow> string" where
  "prefix_loop E [] b first = b"
| "prefix_loop E (field # fs) b first =
     (let tok = write_runes E (runes field) [] in
      if tok = [] then prefix_loop E fs b first
      else prefix_loop E fs ((if first then b else b @ '' & '') @ tok @ '':*'') False)"

definition prefixTsquery :: "('q, 'r) search_env \<Rightarrow> string \<Rightarrow> string" where
  "prefixTsquery E q = prefix_loop E (Fields q) [] True"

section \<open>Repository\<close>

record 'r user_result =
  us_id :: string
  us_nickname :: string
  us_avatar_url :: string
  us_relevance :: 'r

record 'r message_result =
  ms_id :: string
  ms_channel_id :: string
  ms_community_id :: string
  ms_author_id :: string
  ms_content :: string
  ms_created_at :: int
  ms_relevance :: 'r

record 'r dm_result =
  dms_id :: string
  dms_conversation_id :: string
  dms_peer_id :: string
  dms_content :: string
  dms_created_at :: int
  dms_relevance :: 'r

record 'r community_result =
  cs_id :: string
  cs_name :: string
  cs_icon_url :: string
  cs_description :: string
  cs_member_count :: nat
  cs_joined :: bool
  cs_relevance :: 'r

text \<open>\<open>ORDER BY relevance DESC LIMIT n\<close>; equal rows keep their order.\<close>

definition top_by :: "('a \<Rightarrow> 'r::linorder) \<Rightarrow> int \<Rightarrow> 'a list \<Rightarrow> 'a list" where
  "top_by rank limit xs = take (nat limit) (rev (sort_key rank (rev xs)))"

text \<open>\<open>EXTRACT(EPOCH FROM t)::bigint\<close> rounds to the nearest second.\<close>

definition epoch_seconds :: "int \<Rightarrow> int" where
  "epoch_seconds t =
     (if t < 0 then - ((500000 - t) div 1000000) else (t + 500000) div 1000000)"

definition tsquery_param ::
  "('q, 'r) search_env \<Rightarrow> string \<Rightarrow> ('q \<Rightarrow> pg_cause + 'a) \<Rightarrow> pg_cause + 'a" where
  "tsquery_param E tsq k = (case tsquery_in E tsq of None \<Rightarrow> Inl Fault | Some q \<Rightarrow> k q)"

definition sql_search_users ::
  "('q, 'r::linorder) search_env \<Rightarrow> string \<Rightarrow> int \<Rightarrow> database \<Rightarrow> pg_cause + 'r user_result list" where
  "sql_search_users E tsq limit d =
     tsquery_param E tsq (\<lambda>q.
       Inr (top_by us_relevance limit
              [\<lparr>us_id = u_id u, us_nickname = u_nickname u, us_avatar_url = u_avatar_url u,
                us_relevance = ts_rank E (u_nickname u) q\<rparr>.
               u \<leftarrow> users d, ts_match E (u_nickname u) q]))"

definition sql_search_messages ::
  "pg_env \<Rightarrow> ('q, 'r::linorder) search_env \<Rightarrow> string \<Rightarrow> string \<Rightarrow> int \<Rightarrow> database \<Rightarrow>
   pg_cause + 'r message_result list" where
  "sql_search_messages P E tsq userID limit d =
     tsquery_param E tsq (\<lambda>q. uuid_param P userID (\<lambda>u.
       Inr (top_by ms_relevance limit
              [\<lparr>ms_id = cm_id m, ms_channel_id = cm_channel_id m, ms_community_id = ch_community_id c,
                ms_author_id = cm_author_id m, ms_content = cm_content m,
                ms_created_at = epoch_seconds (cm_created_at m),
                ms_relevance = ts_rank E (cm_content m) q\<rparr>.
               m \<leftarrow> channel_messages d, c \<leftarrow> channels d, ch_id c = cm_channel_id m,
               mb \<leftarrow> community_members d,
               mem_community_id mb = ch_community_id c \<and> mem_user_id mb = u,
               ts_match E (cm_content m) q])))"

definition sql_search_dms ::
  "pg_env \<Rightarrow> ('q, 'r::linorder) search_env \<Rightarrow> string \<Rightarrow> string \<Rightarrow> int \<Rightarrow> database \<Rightarrow>
   pg_cause + 'r dm_result list" where
  "sql_search_dms P E tsq userID limit d =
     tsquery_param E tsq (\<lambda>q. uuid_param P userID (\<lambda>u.
       Inr (top_by dms_relevance limit
              [\<lparr>dms_id = dm_id m, dms_conversation_id = dm_conversation_id m, dms_peer_id = peer_of u c,
                dms_content = dm_content m, dms_created_at = epoch_seconds (dm_created_at m),
                dms_relevance = ts_rank E (dm_content m) q\<rparr>.
               m \<leftarrow> dm_messages d, c \<leftarrow> dm_conversations d, dc_id c = dm_conversation_id m,
               dc_user_a_id c = u \<or> dc_user_b_id c = u, ts_match E (dm_content m) q])))"

definition community_document :: "'z community_row_scheme \<Rightarrow> string" where
  "community_document c = comm_name c @ '' '' @ comm_description c"

definition member_count :: "database \<Rightarrow> string \<Rightarrow> nat" where
  "member_count d c = length (filter (\<lambda>m. mem_community_id m = c) (community_members d))"

definition sql_search_communities ::
  "pg_env \<Rightarrow> ('q, 'r::linorder) search_env \<Rightarrow> string \<Rightarrow> string \<Rightarrow> int \<Rightarrow> database \<Rightarrow>
   pg_cause + 'r community_result list" where
  "sql_search_communities P E tsq userID limit d =
     tsquery_param E tsq (\<lambda>q. uuid_param P userID (\<lambda>u.
       Inr (top_by cs_relevance limit
              [\<lparr>cs_id = comm_id c, cs_name = comm_name c, cs_icon_url = comm_icon_url c,
                cs_description = comm_description c, cs_member_count = member_count d (comm_id c),
                cs_joined = has_member d (comm_id c) u,
                cs_relevance = ts_rank E (community_document c) q\<rparr>.
               c \<leftarrow> communities d, comm_is_public c \<and> ts_match E (community_document c) q])))"

text \<open>The loop over the rows, whose error after the last row is returned as it is.\<close>

definition all_rows ::
  "string \<Rightarrow> go_error + ('a list \<times> go_error option) \<Rightarrow> go_error + 'a list" where
  "all_rows msg r =
     (case r of
        Inl e \<Rightarrow> Inl (Wrap msg e)
      | Inr (rows, Some e) \<Rightarrow> Inl e
      | Inr (rows, None) \<Rightarrow> Inr rows)"

definition SearchUsers ::
  "pg_env \<Rightarrow> ('q, 'r::linorder) search_env \<Rightarrow> string \<Rightarrow> int \<Rightarrow>
   ('z infra_scheme, go_error + 'r user_result list) state" where
  "SearchUsers P E query limit = do {
     let tsq = prefixTsquery E query;
     r \<leftarrow> pg_query P (sql_search_users E tsq limit);
     ret (all_rows ''search users'' r)
   }"

definition SearchChannelMessages ::
  "pg_env \<Rightarrow> ('q, 'r::linorder) search_env \<Rightarrow> string \<Rightarrow> string \<Rightarrow> int \<Rightarrow>
   ('z infra_scheme, go_error + 'r message_result list) state" where
  "SearchChannelMessages P E query userID limit = do {
     let tsq = prefixTsquery E query;
     r \<leftarrow> pg_query P (sql_search_messages P E tsq userID limit);
     ret (all_rows ''search channel messages'' r)
   }"

definition SearchDMMessages ::
  "pg_env \<Rightarrow> ('q, 'r::linorder) search_env \<Rightarrow> string \<Rightarrow> string \<Rightarrow> int \<Rightarrow>
   ('z infra_scheme, go_error + 'r dm_result list) state" where
  "SearchDMMessages P E query userID limit = do {
     let tsq = prefixTsquery E query;
     r \<leftarrow> pg_query P (sql_search_dms P E tsq userID limit);
     ret (all_rows ''search dm messages'' r)
   }"

definition SearchCommunities ::
  "pg_env \<Rightarrow> ('q, 'r::linorder) search_env \<Rightarrow> string \<Rightarrow> string \<Rightarrow> int \<Rightarrow>
   ('z infra_scheme, go_error + 'r community_result list) state" where
  "SearchCommunities P E query userID limit = do {
     let tsq = prefixTsquery E query;
     r \<leftarrow> pg_query P (sql_search_communities P E tsq userID limit);
     ret (all_rows ''search communities'' r)
   }"

section \<open>Handler\<close>

text \<open>An open enumeration: a request may hold any number.\<close>

type_synonym search_type = int

definition SEARCH_TYPE_USERS :: search_type where "SEARCH_TYPE_USERS = 1"
definition SEARCH_TYPE_MESSAGES :: search_type where "SEARCH_TYPE_MESSAGES = 2"
definition SEARCH_TYPE_DM_MESSAGES :: search_type where "SEARCH_TYPE_DM_MESSAGES = 3"
definition SEARCH_TYPE_COMMUNITIES :: search_type where "SEARCH_TYPE_COMMUNITIES = 4"

lemmas search_type_defs = SEARCH_TYPE_USERS_def SEARCH_TYPE_MESSAGES_def SEARCH_TYPE_DM_MESSAGES_def
  SEARCH_TYPE_COMMUNITIES_def

record search_request =
  sq_query :: string
  sq_types :: "search_type list"
  sq_limit :: int

fun containsType :: "search_type list \<Rightarrow> search_type \<Rightarrow> bool" where
  "containsType [] t = False"
| "containsType (v # vs) t = (if v = t then True else containsType vs t)"

record 'r search_response =
  sr_users :: "'r user_result list"
  sr_messages :: "'r message_result list"
  sr_dm_messages :: "'r dm_result list"
  sr_communities :: "'r community_result list"

text \<open>
  The variables the goroutines write to have the shape of the response; converting a list of rows
  copies it field by field.
\<close>

definition toPBUserResults :: "'r user_result list \<Rightarrow> 'r user_result list" where
  "toPBUserResults results =
     map (\<lambda>r. \<lparr>us_id = us_id r, us_nickname = us_nickname r, us_avatar_url = us_avatar_url r,
               us_relevance = us_relevance r\<rparr>) results"

definition toPBMessageResults :: "'r message_result list \<Rightarrow> 'r message_result list" where
  "toPBMessageResults results =
     map (\<lambda>r. \<lparr>ms_id = ms_id r, ms_channel_id = ms_channel_id r, ms_community_id = ms_community_id r,
               ms_author_id = ms_author_id r, ms_content = ms_content r, ms_created_at = ms_created_at r,
               ms_relevance = ms_relevance r\<rparr>) results"

definition toPBDMMessageResults :: "'r dm_result list \<Rightarrow> 'r dm_result list" where
  "toPBDMMessageResults results =
     map (\<lambda>r. \<lparr>dms_id = dms_id r, dms_conversation_id = dms_conversation_id r, dms_peer_id = dms_peer_id r,
               dms_content = dms_content r, dms_created_at = dms_created_at r,
               dms_relevance = dms_relevance r\<rparr>) results"

definition toPBCommunityResults :: "'r community_result list \<Rightarrow> 'r community_result list" where
  "toPBCommunityResults results =
     map (\<lambda>r. \<lparr>cs_id = cs_id r, cs_name = cs_name r, cs_icon_url = cs_icon_url r,
               cs_description = cs_description r, cs_member_count = cs_member_count r,
               cs_joined = cs_joined r, cs_relevance = cs_relevance r\<rparr>) results"

datatype search_task = TaskUsers | TaskMessages | TaskDMs | TaskCommunities

fun run_task ::
  "pg_env \<Rightarrow> ('q, 'r::linorder) search_env \<Rightarrow> string \<Rightarrow> string \<Rightarrow> int \<Rightarrow> search_task \<Rightarrow> 'r search_response \<Rightarrow>
   ('z infra_scheme, go_error + 'r search_response) state" where
  "run_task P E query callerID limit TaskUsers acc = do {
     r \<leftarrow> SearchUsers P E query limit;
     ret (map_sum id (\<lambda>rs. acc\<lparr>sr_users := rs\<rparr>) r)
   }"
| "run_task P E query callerID limit TaskMessages acc = do {
     r \<leftarrow> SearchChannelMessages P E query callerID limit;
     ret (map_sum id (\<lambda>rs. acc\<lparr>sr_messages := rs\<rparr>) r)
   }"
| "run_task P E query callerID limit TaskDMs acc = do {
     r \<leftarrow> SearchDMMessages P E query callerID limit;
     ret (map_sum id (\<lambda>rs. acc\<lparr>sr_dm_messages := rs\<rparr>) r)
   }"
| "run_task P E query callerID limit TaskCommunities acc = do {
     r \<leftarrow> SearchCommunities P E query callerID limit;
     ret (map_sum id (\<lambda>rs. acc\<lparr>sr_communities := rs\<rparr>) r)
   }"

text \<open>
  \<open>errgroup\<close>: every goroutine runs, and the first error is the one \<open>Wait\<close> returns. (The error
  cancels the context of those still running; what they return then is not looked at.)
\<close>

fun wait_all ::
  "(search_task \<Rightarrow> 'a \<Rightarrow> ('s, go_error + 'a) state) \<Rightarrow> search_task list \<Rightarrow> 'a \<Rightarrow> ('s, go_error + 'a) state" where
  "wait_all f [] acc = ret (Inr acc)"
| "wait_all f (t # ts) acc = do {
     r \<leftarrow> f t acc;
     case r of
       Inr acc' \<Rightarrow> wait_all f ts acc'
     | Inl e \<Rightarrow> do { _ \<leftarrow> wait_all f ts acc; ret (Inl e) }
   }"

definition search_tasks :: "search_type list \<Rightarrow> search_task list" where
  "search_tasks types =
     (let searchAll = (types = []) in
        (if searchAll \<or> containsType types SEARCH_TYPE_USERS then [TaskUsers] else []) @
        (if searchAll \<or> containsType types SEARCH_TYPE_MESSAGES then [TaskMessages] else []) @
        (if searchAll \<or> containsType types SEARCH_TYPE_DM_MESSAGES then [TaskDMs] else []) @
        (if searchAll \<or> containsType types SEARCH_TYPE_COMMUNITIES then [TaskCommunities] else []))"

definition Search ::
  "pg_env \<Rightarrow> ('q, 'r::linorder) search_env \<Rightarrow> (search_task list \<Rightarrow> search_task list) \<Rightarrow>
   string \<Rightarrow> search_request \<Rightarrow> ('z infra_scheme, 'r search_response) handler" where
  "Search P E sched callerID msg =
     guard_that (callerID \<noteq> []) CodeUnauthenticated ''authentication required'' (
     guard_that (sq_query msg \<noteq> []) CodeInvalidArgument ''query is required'' (
     let limit = (if sq_limit msg \<le> 0 then 10 else sq_limit msg) in
     try_call (wrapped CodeInternal ''search failed'')
       (wait_all (run_task P E (sq_query msg) callerID limit) (sched (search_tasks (sq_types msg)))
          \<lparr>sr_users = [], sr_messages = [], sr_dm_messages = [], sr_communities = []\<rparr>) (\<lambda>found.
     ok \<lparr>sr_users = toPBUserResults (sr_users found), sr_messages = toPBMessageResults (sr_messages found),
         sr_dm_messages = toPBDMMessageResults (sr_dm_messages found),
         sr_communities = toPBCommunityResults (sr_communities found)\<rparr>)))"

end
