(* ===== verification/SearchFacts.thy ===== *)
theory SearchFacts
  imports SearchService "HOL-Library.Multiset"
begin

text \<open>
  What a search promises: the text handed to Postgres is always a conjunction of prefixes, whatever
  the user typed; the answer shows nobody's messages to somebody else; and it is the best of what
  there is to show.
\<close>

section \<open>The query\<close>

fun join_with :: "string \<Rightarrow> string list \<Rightarrow> string" where
  "join_with sep [] = []"
| "join_with sep [w] = w"
| "join_with sep (w # v # ws) = w @ sep @ join_with sep (v # ws)"

definition query_words :: "('q, 'r) search_env \<Rightarrow> string \<Rightarrow> string list" where
  "query_words E q =
     filter (\<lambda>w. w \<noteq> []) (map (\<lambda>f. concat (filter (word_rune E) (runes f))) (Fields q))"

lemma write_runes_concat: "write_runes E rs tok = tok @ concat (filter (word_rune E) rs)"
  by (induction rs arbitrary: tok) simp_all

lemma join_with_snoc:
  "join_with sep (ws @ [w]) = (if ws = [] then w else join_with sep ws @ sep @ w)"
  by (induction sep ws rule: join_with.induct) auto

lemma prefix_loop_join:
  "prefix_loop E fs (join_with '' & '' (map (\<lambda>w. w @ '':*'') ws)) (ws = []) =
   join_with '' & '' (map (\<lambda>w. w @ '':*'')
     (ws @ filter (\<lambda>w. w \<noteq> []) (map (\<lambda>f. concat (filter (word_rune E) (runes f))) fs)))"
proof (induction fs arbitrary: ws)
  case (Cons f fs)
  define w where "w = concat (filter (word_rune E) (runes f))"
  have loop: "prefix_loop E (f # fs) b first =
      (if w = [] then prefix_loop E fs b first
       else prefix_loop E fs ((if first then b else b @ '' & '') @ w @ '':*'') False)" for b first
    by (simp only: prefix_loop.simps write_runes_concat w_def Let_def append_Nil)
  have step: "(if ws = [] then join_with '' & '' (map (\<lambda>w. w @ '':*'') ws)
      else join_with '' & '' (map (\<lambda>w. w @ '':*'') ws) @ '' & '') @ w @ '':*'' =
    join_with '' & '' (map (\<lambda>w. w @ '':*'') (ws @ [w]))"
    by (simp add: join_with_snoc)
  show ?case
    using Cons.IH [of ws] Cons.IH [of "ws @ [w]"]
    by (cases "w = []") (simp_all only: loop step list.map filter.simps w_def [symmetric]
        if_True if_False not_True_eq_False not_False_eq_True append_is_Nil_conv not_Cons_self2
        list.simps simp_thms append_assoc append_Cons append_Nil)
qed simp

text \<open>C38: The loop that builds the query writes the words of the text (its fields without the
  characters that are no letters, digits or underscores, those that are not empty), each with
  \<open>:*\<close>, joined by \<open>&\<close>.\<close>

theorem prefixTsquery_words:
  "prefixTsquery E q = join_with '' & '' (map (\<lambda>w. w @ '':*'') (query_words E q))"
  using prefix_loop_join [of E "Fields q" "[]"] by (simp add: prefixTsquery_def query_words_def)






section \<open>Waiting for the goroutines\<close>

lemma triple_wait_all:
  assumes "\<And>t acc. Q acc \<Longrightarrow> triple I (f t acc) (\<lambda>r s. I s \<and> (\<forall>x. r = Inr x \<longrightarrow> Q x))"
  shows "Q acc \<Longrightarrow> triple I (wait_all f ts acc) (\<lambda>r s. I s \<and> (\<forall>x. r = Inr x \<longrightarrow> Q x))"
proof (induction ts arbitrary: acc)
  case Nil
  then show ?case by (simp add: triple_return)
next
  case (Cons t ts)
  have rest: "triple (\<lambda>s. I s \<and> (\<forall>x. r = Inr x \<longrightarrow> Q x))
      (case r of Inr acc' \<Rightarrow> wait_all f ts acc' | Inl e \<Rightarrow> do { _ \<leftarrow> wait_all f ts acc; ret (Inl e) })
      (\<lambda>r s. I s \<and> (\<forall>x. r = Inr x \<longrightarrow> Q x))" for r
  proof (cases r)
    case (Inl e)
    have "triple I (do { _ \<leftarrow> wait_all f ts acc; ret (Inl e) }) (\<lambda>r s. I s \<and> (\<forall>x. r = Inr x \<longrightarrow> Q x))"
      by (rule triple_bind [OF Cons.IH [OF Cons.prems]], rule triple_return) simp
    then show ?thesis by (simp add: Inl)
  next
    case (Inr x)
    show ?thesis
    proof (cases "Q x")
      case True
      from Cons.IH [OF this] show ?thesis by (simp add: Inr True)
    next
      case False
      then show ?thesis by (simp add: Inr triple_def)
    qed
  qed
  show ?case unfolding wait_all.simps
    by (rule triple_bind [OF assms [OF Cons.prems] rest])
qed

text \<open>Without failures the order of the goroutines does not matter: each fills its own variable.\<close>

lemma wait_all_calm:
  assumes "\<And>t acc. t \<in> set ts \<Longrightarrow> run_state (f t acc) s = (Inr (g t acc), s)"
  shows "run_state (wait_all f ts acc) s = (Inr (fold g ts acc), s)"
  using assms by (induction ts arbitrary: acc) simp_all

section \<open>Rows\<close>

lemma mset_top_by: "mset (top_by rank limit xs) \<subseteq># mset xs"
proof -
  let ?ys = "rev (sort_key rank (rev xs))"
  have "mset (take n ?ys) \<subseteq># mset ?ys" for n
    by (metis append_take_drop_id mset_append mset_subset_eq_add_left)
  then show ?thesis by (simp add: top_by_def)
qed

lemma set_top_by: "x \<in> set (top_by rank limit xs) \<Longrightarrow> x \<in> set xs"
  using mset_top_by [of rank limit xs] by (auto dest: mset_subset_eqD)

lemma length_top_by [simp]: "length (top_by rank limit xs) = min (nat limit) (length xs)"
  by (simp add: top_by_def min.commute)

lemma sorted_wrt_desc: "sorted_wrt (\<lambda>a b. rank b \<le> rank a) (rev (sort_key rank xs))"
  using sorted_sort_key [of rank xs] by (simp add: sorted_wrt_rev sorted_map)

lemma sorted_top_by: "sorted_wrt (\<lambda>a b. rank b \<le> rank a) (top_by rank limit xs)"
  unfolding top_by_def by (rule sorted_wrt_take [OF sorted_wrt_desc])

lemma top_by_best:
  assumes "x \<in> set xs" and "x \<notin> set (top_by rank limit xs)" and "y \<in> set (top_by rank limit xs)"
  shows "rank x \<le> rank y"
proof -
  let ?ys = "rev (sort_key rank (rev xs))"
  have "x \<in> set (drop (nat limit) ?ys)"
    using assms(1,2) by (metis Un_iff append_take_drop_id set_append set_rev set_sort top_by_def)
  moreover have "sorted_wrt (\<lambda>a b. rank b \<le> rank a) (take (nat limit) ?ys @ drop (nat limit) ?ys)"
    by (simp only: append_take_drop_id sorted_wrt_desc)
  ultimately show ?thesis using assms(3) by (simp add: sorted_wrt_append top_by_def del: append_take_drop_id)
qed

lemma distinct_top_by: "distinct (map key xs) \<Longrightarrow> distinct (map key (top_by rank limit xs))"
proof -
  assume "distinct (map key xs)"
  then have "distinct (map key (rev (sort_key rank (rev xs))))"
    by (metis distinct_rev mset_eq_imp_distinct_iff mset_map mset_rev mset_sort rev_map)
  then show ?thesis unfolding top_by_def by (simp only: take_map [symmetric] distinct_take)
qed

section \<open>What is shown\<close>

definition message_shown :: "pg_env \<Rightarrow> database \<Rightarrow> string \<Rightarrow> 'r message_result \<Rightarrow> bool" where
  "message_shown P d u r \<longleftrightarrow>
     (\<exists>v m c. uuid_in P u = Some v \<and> m \<in> set (channel_messages d) \<and> c \<in> set (channels d) \<and>
        cm_channel_id m = ch_id c \<and> has_member d (ch_community_id c) v \<and>
        ms_id r = cm_id m \<and> ms_channel_id r = ch_id c \<and> ms_community_id r = ch_community_id c \<and>
        ms_author_id r = cm_author_id m \<and> ms_content r = cm_content m)"

definition dm_shown :: "pg_env \<Rightarrow> database \<Rightarrow> string \<Rightarrow> 'r dm_result \<Rightarrow> bool" where
  "dm_shown P d u r \<longleftrightarrow>
     (\<exists>v m c. uuid_in P u = Some v \<and> m \<in> set (dm_messages d) \<and> c \<in> set (dm_conversations d) \<and>
        dm_conversation_id m = dc_id c \<and>
        (dc_user_a_id c = v \<and> dms_peer_id r = dc_user_b_id c \<or>
         dc_user_b_id c = v \<and> dms_peer_id r = dc_user_a_id c) \<and>
        dms_id r = dm_id m \<and> dms_conversation_id r = dc_id c \<and> dms_content r = dm_content m)"

definition community_shown :: "pg_env \<Rightarrow> database \<Rightarrow> string \<Rightarrow> 'r community_result \<Rightarrow> bool" where
  "community_shown P d u r \<longleftrightarrow>
     (\<exists>v c. uuid_in P u = Some v \<and> c \<in> set (communities d) \<and> comm_is_public c \<and>
        cs_id r = comm_id c \<and> cs_name r = comm_name c \<and> cs_description r = comm_description c \<and>
        cs_joined r = has_member d (comm_id c) v)"

definition response_shown :: "pg_env \<Rightarrow> database \<Rightarrow> string \<Rightarrow> 'r search_response \<Rightarrow> bool" where
  "response_shown P d u resp \<longleftrightarrow>
     list_all (message_shown P d u) (sr_messages resp) \<and> list_all (dm_shown P d u) (sr_dm_messages resp) \<and>
     list_all (community_shown P d u) (sr_communities resp)"

lemma all_rows_InrD: "all_rows msg r = Inr rows \<Longrightarrow> r = Inr (rows, None)"
  by (auto simp: all_rows_def split: sum.splits prod.splits option.splits)

lemma searched_InrD:
  assumes "run_state (do { r \<leftarrow> pg_query P sel; ret (all_rows msg r) }) s = (Inr rows, s')"
  shows "sel (db s) = Inr rows"
proof -
  obtain r where r: "run_state (pg_query P sel) s = (r, s')" "all_rows msg r = Inr rows"
    using assms by (auto split: prod.splits)
  with all_rows_InrD have "run_state (pg_query P sel) s = (Inr (rows, None), s')" by blast
  from pg_query_InrD(1) [OF this] show ?thesis by auto
qed

lemma sql_search_shown:
  "sql_search_messages P E tsq u limit d = Inr ms \<Longrightarrow> list_all (message_shown P d u) ms"
  "sql_search_dms P E tsq u limit d = Inr dms \<Longrightarrow> list_all (dm_shown P d u) dms"
  "sql_search_communities P E tsq u limit d = Inr cs \<Longrightarrow> list_all (community_shown P d u) cs"
  by (auto simp: sql_search_messages_def sql_search_dms_def sql_search_communities_def tsquery_param_def
      uuid_param_def list_all_iff message_shown_def dm_shown_def community_shown_def has_member_def
      member_key_def peer_of_def split: option.splits dest!: set_top_by) force+

lemma map_sum_InrD: "map_sum id f r = Inr y \<Longrightarrow> \<exists>x. r = Inr x \<and> y = f x"
  by (cases r) simp_all

lemma search_InrD:
  "run_state (SearchUsers P E q limit) s = (Inr us, s') \<Longrightarrow>
     sql_search_users E (prefixTsquery E q) limit (db s) = Inr us"
  "run_state (SearchChannelMessages P E q u limit) s = (Inr ms, s') \<Longrightarrow>
     sql_search_messages P E (prefixTsquery E q) u limit (db s) = Inr ms"
  "run_state (SearchDMMessages P E q u limit) s = (Inr dms, s') \<Longrightarrow>
     sql_search_dms P E (prefixTsquery E q) u limit (db s) = Inr dms"
  "run_state (SearchCommunities P E q u limit) s = (Inr cs, s') \<Longrightarrow>
     sql_search_communities P E (prefixTsquery E q) u limit (db s) = Inr cs"
  unfolding SearchUsers_def SearchChannelMessages_def SearchDMMessages_def SearchCommunities_def Let_def
  by (rule searched_InrD, assumption)+

lemmas search_ops = SearchUsers_def SearchChannelMessages_def SearchDMMessages_def SearchCommunities_def

lemma keeps_db_run_task: "keeps db (run_task P E q u limit t acc)"
  by (cases t) (simp_all add: search_ops Let_def, (intro preserves_intros keeps_db_pg_query)+)

lemma run_task_shown:
  assumes run: "run_state (run_task P E q u limit t acc) s = (Inr acc', s')"
    and acc: "response_shown P (db s) u acc"
  shows "response_shown P (db s) u acc'"
  using assms
  by (cases t)
     (auto simp: response_shown_def split: prod.splits
       dest!: map_sum_InrD search_InrD(2,3,4) sql_search_shown)

lemma toPB_id [simp]: "toPBUserResults = id" "toPBMessageResults = id" "toPBDMMessageResults = id"
  "toPBCommunityResults = id"
  unfolding toPBUserResults_def toPBMessageResults_def toPBDMMessageResults_def toPBCommunityResults_def
  by (rule ext, simp add: map_idI)+

text \<open>C4: Whatever fails and in whatever order the goroutines run, a search that answers shows only
  messages of channels in communities the caller is a member of, direct messages of the caller's own
  conversations (with the other one as the peer), and public communities; and it changes no table.\<close>

theorem search_private:
  assumes "run_state (Search P E sched u msg) s = (Inr resp, s')"
  shows "response_shown P (db s) u resp \<and> db s' = db s"
proof -
  let ?none = "\<lparr>sr_users = [], sr_messages = [], sr_dm_messages = [], sr_communities = []\<rparr>"
  let ?limit = "if sq_limit msg \<le> 0 then 10 else sq_limit msg"
  let ?run = "run_task P E (sq_query msg) u ?limit"
  from assms obtain found where
    found: "run_state (wait_all ?run (sched (search_tasks (sq_types msg))) ?none) s = (Inr found, s')" and
    resp: "resp = found"
    unfolding Search_def Let_def by (elim handler_InrE) simp
  have task: "triple (\<lambda>x. db x = db s) (?run t acc)
      (\<lambda>r x. db x = db s \<and> (\<forall>y. r = Inr y \<longrightarrow> response_shown P (db s) u y))"
    if acc: "response_shown P (db s) u acc" for t acc
  proof (intro tripleI conjI allI impI)
    fix x r x' assume x: "db x = db s" and run: "run_state (?run t acc) x = (r, x')"
    show "db x' = db s" using keepsD [OF keeps_db_run_task run] x by simp
    show "response_shown P (db s) u y" if "r = Inr y" for y
      using run_task_shown [of P E "sq_query msg" u ?limit t acc x y x'] run that acc x by simp
  qed
  have "triple (\<lambda>x. db x = db s) (wait_all ?run (sched (search_tasks (sq_types msg))) ?none)
      (\<lambda>r x. db x = db s \<and> (\<forall>y. r = Inr y \<longrightarrow> response_shown P (db s) u y))"
    by (rule triple_wait_all [OF task]) (simp_all add: response_shown_def)
  from tripleD [OF this found] show ?thesis by (simp add: resp)
qed

section \<open>What is found\<close>

text \<open>Without failures each goroutine fills its variable with the rows of its statement.\<close>

lemma run_search_calm [run_simps]:
  assumes "outcomes s = []"
  shows "sql_search_users E (prefixTsquery E q) limit (db s) = Inr us \<Longrightarrow>
      run_state (SearchUsers P E q limit) s = (Inr us, s)"
    "sql_search_messages P E (prefixTsquery E q) u limit (db s) = Inr ms \<Longrightarrow>
      run_state (SearchChannelMessages P E q u limit) s = (Inr ms, s)"
    "sql_search_dms P E (prefixTsquery E q) u limit (db s) = Inr dms \<Longrightarrow>
      run_state (SearchDMMessages P E q u limit) s = (Inr dms, s)"
    "sql_search_communities P E (prefixTsquery E q) u limit (db s) = Inr cs \<Longrightarrow>
      run_state (SearchCommunities P E q u limit) s = (Inr cs, s)"
  using assms by (simp_all add: search_ops Let_def run_simps all_rows_def)

lemma sql_search_total:
  assumes "tsquery_in E tsq = Some qq" and "uuid_in P u = Some v"
  shows "\<exists>us. sql_search_users E tsq limit d = Inr us"
    "\<exists>ms. sql_search_messages P E tsq u limit d = Inr ms"
    "\<exists>dms. sql_search_dms P E tsq u limit d = Inr dms"
    "\<exists>cs. sql_search_communities P E tsq u limit d = Inr cs"
  using assms
  by (simp_all add: sql_search_users_def sql_search_messages_def sql_search_dms_def
      sql_search_communities_def tsquery_param_def uuid_param_def)

fun fill ::
  "'r user_result list \<Rightarrow> 'r message_result list \<Rightarrow> 'r dm_result list \<Rightarrow> 'r community_result list \<Rightarrow>
   search_task \<Rightarrow> 'r search_response \<Rightarrow> 'r search_response" where
  "fill us ms dms cs TaskUsers acc = acc\<lparr>sr_users := us\<rparr>"
| "fill us ms dms cs TaskMessages acc = acc\<lparr>sr_messages := ms\<rparr>"
| "fill us ms dms cs TaskDMs acc = acc\<lparr>sr_dm_messages := dms\<rparr>"
| "fill us ms dms cs TaskCommunities acc = acc\<lparr>sr_communities := cs\<rparr>"

lemma fold_fill:
  "fold (fill us ms dms cs) ts acc =
     acc\<lparr>sr_users := if TaskUsers \<in> set ts then us else sr_users acc,
         sr_messages := if TaskMessages \<in> set ts then ms else sr_messages acc,
         sr_dm_messages := if TaskDMs \<in> set ts then dms else sr_dm_messages acc,
         sr_communities := if TaskCommunities \<in> set ts then cs else sr_communities acc\<rparr>"
proof (induction ts arbitrary: acc)
  case (Cons t ts)
  then show ?case by (cases t) auto
qed simp

lemma Search_calm:
  assumes calm: "outcomes s = []" and query: "sq_query msg \<noteq> []" and caller: "u \<noteq> []"
    and ids: "uuid_in P u = Some v" "tsquery_in E (prefixTsquery E (sq_query msg)) = Some qq"
    and sched: "set (sched (search_tasks (sq_types msg))) = set (search_tasks (sq_types msg))"
    and limit: "limit = (if sq_limit msg \<le> 0 then 10 else sq_limit msg)"
    and rows: "sql_search_users E (prefixTsquery E (sq_query msg)) limit (db s) = Inr us"
      "sql_search_messages P E (prefixTsquery E (sq_query msg)) u limit (db s) = Inr ms"
      "sql_search_dms P E (prefixTsquery E (sq_query msg)) u limit (db s) = Inr dms"
      "sql_search_communities P E (prefixTsquery E (sq_query msg)) u limit (db s) = Inr cs"
  shows "run_state (Search P E sched u msg) s =
    (let ts = search_tasks (sq_types msg) in
     (Inr \<lparr>sr_users = if TaskUsers \<in> set ts then us else [],
           sr_messages = if TaskMessages \<in> set ts then ms else [],
           sr_dm_messages = if TaskDMs \<in> set ts then dms else [],
           sr_communities = if TaskCommunities \<in> set ts then cs else []\<rparr>, s))"
proof -
  have task: "run_state (run_task P E (sq_query msg) u limit t acc) s = (Inr (fill us ms dms cs t acc), s)" for t acc
    by (cases t) (simp_all add: run_search_calm(1) [OF calm rows(1)] run_search_calm(2) [OF calm rows(2)]
        run_search_calm(3) [OF calm rows(3)] run_search_calm(4) [OF calm rows(4)])
  have "run_state (wait_all (run_task P E (sq_query msg) u limit) (sched (search_tasks (sq_types msg))) acc) s =
      (Inr (fold (fill us ms dms cs) (sched (search_tasks (sq_types msg))) acc), s)" for acc
    by (rule wait_all_calm) (rule task)
  then show ?thesis
    using query caller by (simp add: Search_def run_simps fold_fill sched limit [symmetric] Let_def)
qed


section \<open>The best of what there is\<close>

text \<open>A list of answers \<open>xs\<close> shows the best \<open>n\<close> of the rows \<open>hits\<close>: it is sorted by rank, shows no row
  twice, and no row that is left out ranks higher than one that is shown.\<close>

definition shows_best ::
  "nat \<Rightarrow> ('m \<Rightarrow> string) \<Rightarrow> ('m \<Rightarrow> 'r::linorder) \<Rightarrow> 'm set \<Rightarrow> ('a \<Rightarrow> string) \<Rightarrow> ('a \<Rightarrow> 'r) \<Rightarrow> 'a list \<Rightarrow> bool" where
  "shows_best n key rank hits akey arank xs \<longleftrightarrow>
     distinct (map akey xs) \<and> length xs = min n (card hits) \<and> sorted_wrt (\<lambda>a b. arank b \<le> arank a) xs \<and>
     (\<forall>x \<in> set xs. \<exists>m \<in> hits. akey x = key m \<and> arank x = rank m) \<and>
     (\<forall>m \<in> hits. key m \<in> akey ` set xs \<or> (\<forall>x \<in> set xs. rank m \<le> arank x))"

lemma top_by_shows_best:
  assumes keys: "distinct (map key ms)" and row: "\<And>m. akey (row m) = key m" "\<And>m. arank (row m) = rank m"
  shows "shows_best (nat limit) key rank (set ms) akey arank (top_by arank limit (map row ms))"
proof -
  let ?top = "top_by arank limit (map row ms)"
  have "map akey (map row ms) = map key ms" by (simp add: row(1))
  with keys have "distinct (map akey ?top)" by (intro distinct_top_by) (simp only:)
  moreover have "card (set ms) = length ms" using keys by (intro distinct_card) (simp add: distinct_map)
  moreover have "\<exists>m \<in> set ms. akey x = key m \<and> arank x = rank m" if "x \<in> set ?top" for x
    using set_top_by [OF that] row by auto
  moreover have "key m \<in> akey ` set ?top \<or> (\<forall>x \<in> set ?top. rank m \<le> arank x)" if m: "m \<in> set ms" for m
  proof (cases "row m \<in> set ?top")
    case True
    then show ?thesis using row(1) [of m] by (metis image_eqI)
  next
    case False
    then show ?thesis using top_by_best [of "row m" "map row ms" arank limit] m by (simp add: row(2))
  qed
  ultimately show ?thesis using sorted_top_by [of arank limit "map row ms"] by (simp add: shows_best_def)
qed

lemma filter_shows_best:
  assumes "distinct (map key ms)" and "\<And>m. akey (row m) = key m" "\<And>m. arank (row m) = rank m"
  shows "shows_best (nat limit) key rank {m \<in> set ms. Q m} akey arank
    (top_by arank limit (map row (filter Q ms)))"
  unfolding set_filter [symmetric]
  by (rule top_by_shows_best) (simp_all only: distinct_map_filter [OF assms(1)] assms(2,3))

text \<open>A join with a table by its key adds at most one row.\<close>

lemma concat_if: "concat (map (\<lambda>x. if Q x then [f x] else []) xs) = map f (filter Q xs)"
  by (induction xs) simp_all

lemma concat_none: "\<forall>c \<in> set cs. key c \<noteq> k \<Longrightarrow> concat (map (\<lambda>c. if key c = k then f c else []) cs) = []"
  by (induction cs) auto

lemma concat_by_key:
  assumes "distinct (map key cs)"
  shows "concat (map (\<lambda>c. if key c = k then f c else []) cs) =
    (case find (\<lambda>c. key c = k) cs of None \<Rightarrow> [] | Some c \<Rightarrow> f c)"
  using assms
proof (induction cs)
  case (Cons c cs)
  show ?case
  proof (cases "key c = k")
    case True
    then have "\<forall>c' \<in> set cs. key c' \<noteq> k" using Cons.prems by (auto simp: image_iff)
    from concat_none [OF this] True show ?thesis by simp
  qed (use Cons in simp)
qed simp

lemma concat_members:
  assumes "distinct (map member_key ms)"
  shows "concat (map (\<lambda>b. if mem_community_id b = c \<and> mem_user_id b = v then xs else []) ms) =
    (if (c, v) \<in> member_key ` set ms then xs else [])"
proof -
  have "(\<lambda>b. if mem_community_id b = c \<and> mem_user_id b = v then xs else []) =
      (\<lambda>b. if member_key b = (c, v) then xs else [])"
    by (auto simp: fun_eq_iff member_key_def)
  then have "concat (map (\<lambda>b. if mem_community_id b = c \<and> mem_user_id b = v then xs else []) ms) =
      (case find (\<lambda>b. member_key b = (c, v)) ms of None \<Rightarrow> [] | Some b \<Rightarrow> xs)"
    by (simp only: concat_by_key [OF assms])
  also have "\<dots> = (if (c, v) \<in> member_key ` set ms then xs else [])"
  proof (cases "find (\<lambda>b. member_key b = (c, v)) ms")
    case None
    then have "(c, v) \<notin> member_key ` set ms" by (auto simp: find_None_iff)
    with None show ?thesis by simp
  next
    case (Some b)
    then have "b \<in> set ms" "member_key b = (c, v)" using find_SomeD [OF Some] by simp_all
    then have "(c, v) \<in> member_key ` set ms" by (metis image_eqI)
    with Some show ?thesis by simp
  qed
  finally show ?thesis .
qed

text \<open>The rows a search of a user may show.\<close>

definition user_hits :: "('q, 'r) search_env \<Rightarrow> 'q \<Rightarrow> database \<Rightarrow> user_table_row set" where
  "user_hits E q d = {u \<in> set (users d). ts_match E (u_nickname u) q}"

definition message_hits :: "('q, 'r) search_env \<Rightarrow> 'q \<Rightarrow> string \<Rightarrow> database \<Rightarrow> channel_message_row set" where
  "message_hits E q v d =
     {m \<in> set (channel_messages d). ts_match E (cm_content m) q \<and>
        (\<exists>c \<in> set (channels d). ch_id c = cm_channel_id m \<and> has_member d (ch_community_id c) v)}"

definition dm_hits :: "('q, 'r) search_env \<Rightarrow> 'q \<Rightarrow> string \<Rightarrow> database \<Rightarrow> dm_message_row set" where
  "dm_hits E q v d =
     {m \<in> set (dm_messages d). ts_match E (dm_content m) q \<and>
        (\<exists>c \<in> set (dm_conversations d). dc_id c = dm_conversation_id m \<and>
           (dc_user_a_id c = v \<or> dc_user_b_id c = v))}"

definition community_hits :: "('q, 'r) search_env \<Rightarrow> 'q \<Rightarrow> database \<Rightarrow> community_table_row set" where
  "community_hits E q d = {c \<in> set (communities d). comm_is_public c \<and> ts_match E (community_document c) q}"

text \<open>Each statement lists the hits, each once.\<close>

lemma message_rows:
  assumes "db_ok d"
  shows "[\<lparr>ms_id = cm_id m, ms_channel_id = cm_channel_id m, ms_community_id = ch_community_id c,
           ms_author_id = cm_author_id m, ms_content = cm_content m,
           ms_created_at = epoch_seconds (cm_created_at m), ms_relevance = ts_rank E (cm_content m) q\<rparr>.
          m \<leftarrow> channel_messages d, c \<leftarrow> channels d, ch_id c = cm_channel_id m,
          mb \<leftarrow> community_members d, mem_community_id mb = ch_community_id c \<and> mem_user_id mb = v,
          ts_match E (cm_content m) q] =
    map (\<lambda>m. let c = the (find (\<lambda>c. ch_id c = cm_channel_id m) (channels d)) in
           \<lparr>ms_id = cm_id m, ms_channel_id = cm_channel_id m, ms_community_id = ch_community_id c,
            ms_author_id = cm_author_id m, ms_content = cm_content m,
            ms_created_at = epoch_seconds (cm_created_at m), ms_relevance = ts_rank E (cm_content m) q\<rparr>)
      (filter (\<lambda>m. ts_match E (cm_content m) q \<and>
          (\<exists>c \<in> set (channels d). ch_id c = cm_channel_id m \<and> has_member d (ch_community_id c) v))
         (channel_messages d))"
proof -
  have keys: "distinct (map ch_id (channels d))" "distinct (map member_key (community_members d))"
    using assms by (simp_all add: db_ok_defs)
  have one: "(\<exists>c \<in> set (channels d). ch_id c = k \<and> Q c) \<longleftrightarrow>
      (case find (\<lambda>c. ch_id c = k) (channels d) of None \<Rightarrow> False | Some c \<Rightarrow> Q c)" for k Q
    using distinct_map_key_eq [OF keys(1)]
    by (auto split: option.splits dest: find_SomeD find_None_all)
  show ?thesis
    unfolding concat_members [OF keys(2)] concat_by_key [OF keys(1)] concat_if [symmetric] one
    by (intro arg_cong [where f = concat] map_cong refl)
       (auto simp: has_member_def split: option.split)
qed

lemma dm_rows:
  assumes "db_ok d"
  shows "[\<lparr>dms_id = dm_id m, dms_conversation_id = dm_conversation_id m, dms_peer_id = peer_of v c,
           dms_content = dm_content m, dms_created_at = epoch_seconds (dm_created_at m),
           dms_relevance = ts_rank E (dm_content m) q\<rparr>.
          m \<leftarrow> dm_messages d, c \<leftarrow> dm_conversations d, dc_id c = dm_conversation_id m,
          dc_user_a_id c = v \<or> dc_user_b_id c = v, ts_match E (dm_content m) q] =
    map (\<lambda>m. let c = the (find (\<lambda>c. dc_id c = dm_conversation_id m) (dm_conversations d)) in
           \<lparr>dms_id = dm_id m, dms_conversation_id = dm_conversation_id m, dms_peer_id = peer_of v c,
            dms_content = dm_content m, dms_created_at = epoch_seconds (dm_created_at m),
            dms_relevance = ts_rank E (dm_content m) q\<rparr>)
      (filter (\<lambda>m. ts_match E (dm_content m) q \<and>
          (\<exists>c \<in> set (dm_conversations d). dc_id c = dm_conversation_id m \<and>
             (dc_user_a_id c = v \<or> dc_user_b_id c = v))) (dm_messages d))"
proof -
  have key: "distinct (map dc_id (dm_conversations d))"
    using assms by (simp add: db_ok_defs)
  have one: "(\<exists>c \<in> set (dm_conversations d). dc_id c = k \<and> Q c) \<longleftrightarrow>
      (case find (\<lambda>c. dc_id c = k) (dm_conversations d) of None \<Rightarrow> False | Some c \<Rightarrow> Q c)" for k Q
    using distinct_map_key_eq [OF key]
    by (auto split: option.splits dest: find_SomeD find_None_all)
  show ?thesis
    unfolding concat_by_key [OF key] concat_if [symmetric] one
    by (intro arg_cong [where f = concat] map_cong refl) (auto split: option.split)
qed

text \<open>C36: Without failures, a search for everything shows in each part the best of what the caller may
  see: users by nickname, messages of the channels of the caller's communities, direct messages of
  the caller's conversations, and public communities by name and description; each once, best first,
  as many as the limit allows, and nothing left out that ranks higher than something shown.\<close>

theorem search_best:
  assumes tables: "db_ok (db s)" "distinct (map dm_id (dm_messages (db s)))"
    and calm: "outcomes s = []" and query: "sq_query msg \<noteq> []" and caller: "u \<noteq> []" "uuid_in P u = Some v"
    and everything: "sq_types msg = []"
    and sched: "set (sched (search_tasks (sq_types msg))) = set (search_tasks (sq_types msg))"
    and parsed: "tsquery_in E (prefixTsquery E (sq_query msg)) = Some q"
    and limit: "n = nat (if sq_limit msg \<le> 0 then 10 else sq_limit msg)"
  shows "\<exists>resp. run_state (Search P E sched u msg) s = (Inr resp, s) \<and>
    shows_best n u_id (\<lambda>x. ts_rank E (u_nickname x) q) (user_hits E q (db s)) us_id us_relevance (sr_users resp) \<and>
    shows_best n cm_id (\<lambda>m. ts_rank E (cm_content m) q) (message_hits E q v (db s)) ms_id ms_relevance (sr_messages resp) \<and>
    shows_best n dm_id (\<lambda>m. ts_rank E (dm_content m) q) (dm_hits E q v (db s)) dms_id dms_relevance (sr_dm_messages resp) \<and>
    shows_best n comm_id (\<lambda>c. ts_rank E (community_document c) q) (community_hits E q (db s)) cs_id cs_relevance
      (sr_communities resp)"
proof -
  let ?d = "db s" and ?tsq = "prefixTsquery E (sq_query msg)"
  define lim where lim: "lim = (if sq_limit msg \<le> 0 then 10 else sq_limit msg)"
  then have n: "n = nat lim" by (simp only: limit)
  have keys: "distinct (map u_id (users ?d))" "distinct (map cm_id (channel_messages ?d))"
    "distinct (map comm_id (communities ?d))"
    using tables(1) by (simp_all add: db_ok_defs)
  from sql_search_total [OF parsed caller(2), of lim ?d] obtain us ms dms cs where
    rows: "sql_search_users E ?tsq lim ?d = Inr us" "sql_search_messages P E ?tsq u lim ?d = Inr ms"
      "sql_search_dms P E ?tsq u lim ?d = Inr dms" "sql_search_communities P E ?tsq u lim ?d = Inr cs"
    by metis
  have us: "shows_best n u_id (\<lambda>x. ts_rank E (u_nickname x) q) (user_hits E q ?d) us_id us_relevance us"
    using rows(1) unfolding sql_search_users_def tsquery_param_def parsed option.case concat_if n user_hits_def

    by (simp only: sum.inject, elim subst) (rule filter_shows_best [OF keys(1)]; simp)
  have ms: "shows_best n cm_id (\<lambda>m. ts_rank E (cm_content m) q) (message_hits E q v ?d) ms_id ms_relevance ms"
    using rows(2) unfolding sql_search_messages_def tsquery_param_def uuid_param_def parsed caller(2)
      option.case message_rows [OF tables(1)] n message_hits_def
    by (simp only: sum.inject, elim subst) (rule filter_shows_best [OF keys(2)]; simp add: Let_def)
  have dms: "shows_best n dm_id (\<lambda>m. ts_rank E (dm_content m) q) (dm_hits E q v ?d) dms_id dms_relevance dms"
    using rows(3) unfolding sql_search_dms_def tsquery_param_def uuid_param_def parsed caller(2)
      option.case dm_rows [OF tables(1)] n dm_hits_def
    by (simp only: sum.inject, elim subst) (rule filter_shows_best [OF tables(2)]; simp add: Let_def)
  have cs: "shows_best n comm_id (\<lambda>c. ts_rank E (community_document c) q) (community_hits E q ?d) cs_id cs_relevance cs"
    using rows(4) unfolding sql_search_communities_def tsquery_param_def uuid_param_def parsed caller(2)
      option.case concat_if n community_hits_def
    by (simp only: sum.inject, elim subst) (rule filter_shows_best [OF keys(3)]; simp)
  have asked: "set (search_tasks (sq_types msg)) = {TaskUsers, TaskMessages, TaskDMs, TaskCommunities}"
    by (auto simp: search_tasks_def everything)
  show ?thesis
    unfolding Search_calm [where sched = sched and msg = msg, OF calm query caller parsed sched lim rows] Let_def asked
    using us ms dms cs by simp
qed

section \<open>Examples\<close>

text \<open>A small search engine: a query matches the documents that begin with its first two characters,
  the longer ones rank higher. Ann is a member of one of two communities that have a message.\<close>

definition demo_search :: "(string, nat) search_env" where
  "demo_search =
     \<lparr>letter_or_digit = (\<lambda>_. False), tsquery_in = Some,
      ts_match = (\<lambda>doc q. q \<noteq> [] \<and> take 2 doc = take 2 q), ts_rank = (\<lambda>doc q. length doc)\<rparr>"

definition demo_search_user :: "string \<Rightarrow> string \<Rightarrow> user_table_row" where
  "demo_search_user i n =
     \<lparr>u_id = i, u_email = i, u_password_hash = [], u_nickname = n, u_avatar_url = [],
      u_status_message = [], u_created_at = 0, u_updated_at = 0\<rparr>"

definition demo_search_community :: "string \<Rightarrow> bool \<Rightarrow> community_table_row" where
  "demo_search_community i public =
     \<lparr>comm_id = i, comm_name = ''hello '' @ i, comm_description = [], comm_icon_url = [],
      comm_owner_id = ''ub'', comm_created_at = 0, comm_updated_at = 0, comm_is_public = public\<rparr>"

definition demo_search_channel :: "string \<Rightarrow> string \<Rightarrow> channel_row" where
  "demo_search_channel i c =
     \<lparr>ch_id = i, ch_community_id = c, ch_name = [], ch_topic = [], ch_type = ''text'', ch_position = 0,
      ch_created_at = 0, ch_updated_at = 0\<rparr>"

definition demo_search_message :: "string \<Rightarrow> string \<Rightarrow> int \<Rightarrow> channel_message_row" where
  "demo_search_message i h n =
     \<lparr>cm_id = i, cm_channel_id = h, cm_author_id = ''ub'', cm_content = ''hello'', cm_created_at = 0,
      cm_updated_at = 0, cm_seq = n\<rparr>"

definition demo_search_start :: infra where
  "demo_search_start =
     \<lparr>db = empty_db\<lparr>users := [demo_search_user ''ua'' ''Ann'', demo_search_user ''ub'' ''hedwig''],
            communities := [demo_search_community ''c1'' True, demo_search_community ''c2'' False],
            channels := [demo_search_channel ''h1'' ''c1'', demo_search_channel ''h2'' ''c2''],
            community_members := [\<lparr>mem_community_id = ''c1'', mem_user_id = ''ua'', mem_nickname = [], mem_joined_at = 0\<rparr>],
            channel_messages := [demo_search_message ''m1'' ''h1'' 1, demo_search_message ''m2'' ''h2'' 2],
            next_message_seq := 3\<rparr>,
      now = 0, outcomes = [], nats_connected = True, published = [], redis = Map.empty\<rparr>"

definition demo_search_request :: search_request where
  "demo_search_request = \<lparr>sq_query = ''he!l & l'', sq_types = [], sq_limit = 0\<rparr>"

lemma demo_search_ok: "db_ok (db demo_search_start)"
  by (simp add: demo_search_start_def empty_db_def db_ok_defs has_defs member_key_def demo_search_user_def
      demo_search_community_def demo_search_channel_def demo_search_message_def)

lemma demo_query: "prefixTsquery demo_search (sq_query demo_search_request) = ''hel:* & l:*''"
  by code_simp

lemma demo_search_calm: "outcomes demo_search_start = []" "distinct (map dm_id (dm_messages (db demo_search_start)))"
  by (simp_all add: demo_search_start_def empty_db_def)

lemma demo_request: "sq_query demo_search_request \<noteq> []" "sq_types demo_search_request = []"
  "sq_limit demo_search_request = 0"
  by (simp_all add: demo_search_request_def)

theorem search_private_witness:
  "\<exists>resp s'. run_state (Search demo_env demo_search rev ''ua'' demo_search_request) demo_search_start = (Inr resp, s') \<and>
     map ms_id (sr_messages resp) = [''m1''] \<and>
     response_shown demo_env (db demo_search_start) ''ua'' resp \<and> db s' = db demo_search_start"
proof -
  let ?run = "run_state (Search demo_env demo_search rev ''ua'' demo_search_request) demo_search_start"
  have "map_sum (\<lambda>_. ()) (\<lambda>r. map ms_id (sr_messages r)) (fst ?run) = Inr [''m1'']" by code_simp
  then obtain resp where "fst ?run = Inr resp" "map ms_id (sr_messages resp) = [''m1'']"
    by (cases "fst ?run") auto
  then show ?thesis
    using search_private [of demo_env demo_search rev "''ua''" demo_search_request demo_search_start resp "snd ?run"]
    by (metis prod.collapse)
qed


theorem search_best_witness:
  "\<exists>resp. run_state (Search demo_env demo_search rev ''ua'' demo_search_request) demo_search_start =
      (Inr resp, demo_search_start) \<and>
    shows_best 10 cm_id (\<lambda>m. length (cm_content m)) {demo_search_message ''m1'' ''h1'' 1} ms_id ms_relevance
      (sr_messages resp) \<and>
    map cs_id (sr_communities resp) = [''c1'']"
proof -
  have ua: "''ua'' \<noteq> []" "uuid_in demo_env ''ua'' = Some ''ua''" by code_simp+
  have parsed: "tsquery_in demo_search (prefixTsquery demo_search (sq_query demo_search_request)) = Some ''hel:* & l:*''"
    unfolding demo_query by (simp add: demo_search_def)
  have hits: "message_hits demo_search ''hel:* & l:*'' ''ua'' (db demo_search_start) = {demo_search_message ''m1'' ''h1'' 1}"
    "community_hits demo_search ''hel:* & l:*'' (db demo_search_start) = {demo_search_community ''c1'' True}"
    by (auto simp: message_hits_def community_hits_def demo_search_start_def demo_search_def demo_search_channel_def
        demo_search_message_def demo_search_community_def has_member_def member_key_def community_document_def)
  have rank: "ts_rank demo_search doc q = length doc" for doc q by (simp add: demo_search_def)
  from search_best [OF demo_search_ok demo_search_calm(2,1) demo_request(1) ua demo_request(2) _ parsed refl, of rev]
  obtain resp where run: "run_state (Search demo_env demo_search rev ''ua'' demo_search_request) demo_search_start =
      (Inr resp, demo_search_start)"
    and ms: "shows_best 10 cm_id (\<lambda>m. length (cm_content m)) {demo_search_message ''m1'' ''h1'' 1} ms_id ms_relevance
      (sr_messages resp)"
    and cs: "shows_best 10 comm_id (\<lambda>c. length (community_document c)) {demo_search_community ''c1'' True} cs_id
      cs_relevance (sr_communities resp)"
    by (auto simp: demo_request(3) hits rank)
  from cs have len: "length (sr_communities resp) = min 10 (card {demo_search_community ''c1'' True})"
    and ids: "\<forall>x \<in> set (sr_communities resp). \<exists>m \<in> {demo_search_community ''c1'' True}. cs_id x = comm_id m \<and>
      cs_relevance x = length (community_document m)"
    unfolding shows_best_def by blast+
  from len obtain x where x: "sr_communities resp = [x]" by (auto simp: length_Suc_conv)
  with ids have "cs_id x = comm_id (demo_search_community ''c1'' True)" by simp
  with x have c1: "map cs_id (sr_communities resp) = [''c1'']" by (simp add: demo_search_community_def)
  show ?thesis by (intro exI [of _ resp] conjI run ms c1)
qed

end
