(* ===== verification/Http.thy ===== *)
theory Http
  imports AuthService
begin

text \<open>
  What the handlers of \<open>backend/services/api-gateway\<close> share: the request as the router hands it over,
  the response, \<open>handlers/helpers.go\<close>, the readers of query parameters of \<open>user_handler.go\<close>, the
  JSON bodies, and \<open>jwtAuthMiddleware\<close> of \<open>routes.go\<close>.

  A request body is the document the JSON decoder reads, or nothing when it is no JSON; numbers are
  whole. A response is a status and a document. A call to a service crosses the network: it can be
  lost, and a handler that panics there closes the connection; what the client then sees is a
  parameter (\<open>rpc_failure\<close>), as is the text of a cause that comes from a library.
\<close>

section \<open>Requests and responses\<close>

datatype upload_form =
    FormUnreadable
  | NoFileField
  | FormFile string string "go_error + string"    \<comment> \<open>file name, content type, data\<close>

record http_request =
  hr_authorization :: string                      \<comment> \<open>empty when the header is absent\<close>
  hr_params :: "(string \<times> string) list"          \<comment> \<open>of the path\<close>
  hr_query :: "(string \<times> string) list"
  hr_body :: "json option"
  hr_form :: upload_form

datatype http_response = Response (status_of: int) (body_of: json)

definition writeJSON :: "int \<Rightarrow> json \<Rightarrow> http_response" where
  "writeJSON status v = Response status v"

definition writeError :: "int \<Rightarrow> string \<Rightarrow> http_response" where
  "writeError status message = Response status (JObj [(''error'', JStr message)])"

definition URLParam :: "http_request \<Rightarrow> string \<Rightarrow> string" where
  "URLParam r key = (case map_of (hr_params r) key of None \<Rightarrow> [] | Some v \<Rightarrow> v)"

definition query_get :: "http_request \<Rightarrow> string \<Rightarrow> string" where
  "query_get r key = (case map_of (hr_query r) key of None \<Rightarrow> [] | Some v \<Rightarrow> v)"

text \<open>\<open>strconv.ParseInt(s, 10, 32)\<close>.\<close>

definition parse_int32 :: "string \<Rightarrow> go_error + int" where
  "parse_int32 s = sum_bind (parse_int64 s) (\<lambda>n. if - (2 ^ 31) \<le> n \<and> n < 2 ^ 31 then Inr n else Inl Range)"

definition int32FromQuery :: "http_request \<Rightarrow> string \<Rightarrow> int \<Rightarrow> int" where
  "int32FromQuery r key defaultVal =
     (let s = query_get r key in
      if s = [] then defaultVal
      else case parse_int32 s of Inl err \<Rightarrow> defaultVal | Inr v \<Rightarrow> v)"

definition int64FromQuery :: "http_request \<Rightarrow> string \<Rightarrow> int \<Rightarrow> int" where
  "int64FromQuery r key def =
     (let raw = query_get r key in
      if raw = [] then def
      else case parse_int64 raw of Inl err \<Rightarrow> def | Inr v \<Rightarrow> v)"

section \<open>Bodies\<close>

text \<open>
  \<open>encoding/json\<close> finds the field of a key without looking at case; two letters outside ASCII fold to
  \<open>k\<close> and \<open>s\<close> (the Kelvin sign and the long s). A null leaves a field as it is, a later key replaces
  an earlier one, a value of another type makes the whole decoding fail.
\<close>

function json_fold :: "string \<Rightarrow> string" where
  "json_fold [] = []"
| "json_fold (c # s) =
     (case strip_prefix [CHR 0xE2, CHR 0x84, CHR 0xAA] (c # s) of
        Some rest \<Rightarrow> CHR ''k'' # json_fold rest
      | None \<Rightarrow>
          (case strip_prefix [CHR 0xC5, CHR 0xBF] (c # s) of
             Some rest \<Rightarrow> CHR ''s'' # json_fold rest
           | None \<Rightarrow> ascii_lower c # json_fold s))"
  by pat_completeness auto
termination
  by (relation "measure length") (auto simp: strip_prefix_Some simp del: strip_prefix.simps)

definition body_values :: "(string \<times> json) list \<Rightarrow> string \<Rightarrow> json list" where
  "body_values kvs key = map snd (filter (\<lambda>(k, v). json_fold k = json_fold key \<and> v \<noteq> JNull) kvs)"

fun read_all :: "(json \<Rightarrow> go_error + 'a) \<Rightarrow> 'a \<Rightarrow> json list \<Rightarrow> go_error + 'a" where
  "read_all f zero [] = Inr zero"
| "read_all f zero (j # js) = sum_bind (f j) (\<lambda>x. read_all f x js)"

definition body_str :: "(string \<times> json) list \<Rightarrow> string \<Rightarrow> go_error + string" where
  "body_str kvs key = read_all json_str [] (body_values kvs key)"

definition json_int32 :: "json \<Rightarrow> go_error + int" where
  "json_int32 j = sum_bind (json_int j) (\<lambda>n. if - (2 ^ 31) \<le> n \<and> n < 2 ^ 31 then Inr n else Inl JsonError)"

definition body_int32 :: "(string \<times> json) list \<Rightarrow> string \<Rightarrow> go_error + int" where
  "body_int32 kvs key = read_all json_int32 0 (body_values kvs key)"

definition body_strs :: "(string \<times> json) list \<Rightarrow> string \<Rightarrow> go_error + string list" where
  "body_strs kvs key = read_all (json_arr json_str) [] (body_values kvs key)"

definition decode_body :: "http_request \<Rightarrow> ((string \<times> json) list \<Rightarrow> go_error + 'a) \<Rightarrow> go_error + 'a" where
  "decode_body r f =
     (case hr_body r of
        Some (JObj kvs) \<Rightarrow> f kvs
      | Some JNull \<Rightarrow> f []
      | _ \<Rightarrow> Inl JsonError)"

section \<open>Errors\<close>

record api_env = auth_env +
  cause_text :: "go_error \<Rightarrow> string"
  rpc_failure :: "code \<times> string"
  filesPublicBase :: string
  jwtSecret :: string

definition mapConnectCode :: "code \<Rightarrow> string \<Rightarrow> int \<times> string" where
  "mapConnectCode c message =
     (case c of
        CodeInvalidArgument \<Rightarrow> (400, message)
      | CodeUnauthenticated \<Rightarrow> (401, message)
      | CodePermissionDenied \<Rightarrow> (403, message)
      | CodeNotFound \<Rightarrow> (404, message)
      | CodeAlreadyExists \<Rightarrow> (409, message)
      | CodeInternal \<Rightarrow> (500, ''internal server error'')
      | CodeUnavailable \<Rightarrow> (503, ''service unavailable'')
      | CodeDeadlineExceeded \<Rightarrow> (504, ''request timeout'')
      | CodeCanceled \<Rightarrow> (408, ''request canceled'')
      | CodeFailedPrecondition \<Rightarrow> (400, message)
      | CodeAborted \<Rightarrow> (409, message)
      | CodeOutOfRange \<Rightarrow> (400, message)
      | CodeUnimplemented \<Rightarrow> (501, message)
      | CodeDataLoss \<Rightarrow> (500, ''internal server error'')
      | CodeResourceExhausted \<Rightarrow> (429, message)
      | CodeUnknown \<Rightarrow> (500, ''internal server error''))"

text \<open>A client returns no panic: it has become a failed call.\<close>

definition writeConnectError :: "api_env \<Rightarrow> connect_error \<Rightarrow> http_response" where
  "writeConnectError A err =
     (case err of
        NewError c e \<Rightarrow>
          let (status, message) = mapConnectCode c (error_text (cause_text A) e) in writeError status message
      | Panic \<Rightarrow> writeError 500 [])"

section \<open>Calls to the services\<close>

definition forwardAuth :: "http_request \<Rightarrow> string" where
  "forwardAuth r = (let auth = hr_authorization r in if auth \<noteq> [] then auth else [])"

definition failed_rpc :: "api_env \<Rightarrow> connect_error" where
  "failed_rpc A = NewError (fst (rpc_failure A)) (Errorf (snd (rpc_failure A)))"

definition over_network ::
  "api_env \<Rightarrow> ('z infra_scheme, 'a) handler \<Rightarrow> ('z infra_scheme, 'a) handler" where
  "over_network A m = do {
     o1 \<leftarrow> next_outcome;
     (case o1 of
        Done \<Rightarrow> do { r \<leftarrow> m; ret (case r of Inl Panic \<Rightarrow> Inl (failed_rpc A) | _ \<Rightarrow> r) }
      | Lost \<Rightarrow> do { _ \<leftarrow> m; ret (Inl (failed_rpc A)) }
      | _ \<Rightarrow> ret (Inl (failed_rpc A)))
   }"

text \<open>Every service but the auth service has the interceptor in front of its handlers.\<close>

definition service_call ::
  "api_env \<Rightarrow> http_request \<Rightarrow> string \<Rightarrow> (string \<Rightarrow> ('z infra_scheme, 'a) handler) \<Rightarrow>
   ('z infra_scheme, 'a) handler" where
  "service_call A r procedure h =
     over_network A (AuthInterceptor A (jwtSecret A) [] h procedure (forwardAuth r))"

definition respond ::
  "api_env \<Rightarrow> ('s, 'a) handler \<Rightarrow> ('a \<Rightarrow> http_response) \<Rightarrow> ('s, http_response) state" where
  "respond A m k = do {
     r \<leftarrow> m;
     ret (case r of Inl err \<Rightarrow> writeConnectError A err | Inr x \<Rightarrow> k x)
   }"

text \<open>The early returns of the handlers.\<close>

definition need :: "bool \<Rightarrow> string \<Rightarrow> ('s, http_response) state \<Rightarrow> ('s, http_response) state" where
  "need b msg m = (if b then m else ret (writeError 400 msg))"

definition with_body ::
  "http_request \<Rightarrow> ((string \<times> json) list \<Rightarrow> go_error + 'a) \<Rightarrow> ('a \<Rightarrow> ('s, http_response) state) \<Rightarrow>
   ('s, http_response) state" where
  "with_body r f k =
     (case decode_body r f of
        Inl err \<Rightarrow> ret (writeError 400 ''invalid request body'')
      | Inr req \<Rightarrow> k req)"

section \<open>The middleware\<close>

definition jwtAuthMiddleware ::
  "'e jwt_env_scheme \<Rightarrow> string \<Rightarrow> (http_request \<Rightarrow> ('z infra_scheme, http_response) state) \<Rightarrow>
   http_request \<Rightarrow> ('z infra_scheme, http_response) state" where
  "jwtAuthMiddleware E secret next r =
     (let authHeader = hr_authorization r in
      if authHeader = [] then ret (writeError 401 ''missing Authorization header'')
      else
        let parts = split_space authHeader in
        if \<not> (length parts = 2 \<and> equal_fold (parts ! 0) ''Bearer'')
        then ret (writeError 401 ''invalid Authorization header format'')
        else do {
          p \<leftarrow> ParseToken E secret (parts ! 1);
          (case p of
             Inl err \<Rightarrow> ret (writeError 401 ''invalid or expired token'')
           | Inr userID \<Rightarrow> next r)
        })"

definition notImplemented :: "http_request \<Rightarrow> ('s, http_response) state" where
  "notImplemented r = ret (Response 501 (JObj [(''error'', JStr ''not implemented'')]))"

section \<open>Rules\<close>

lemma preserves_over_network [preserves_intros]:
  "calls_safe I \<Longrightarrow> preserves I m \<Longrightarrow> preserves I (over_network A m)"
  unfolding over_network_def
  by (intro preserves_bind preserves_next_outcome) (auto split: outcome.split intro!: preserves_intros)

lemma preserves_http [preserves_intros]:
  "preserves I m \<Longrightarrow> preserves I (respond A m k)"
  "preserves I n \<Longrightarrow> preserves I (need b msg n)"
  "(\<And>x. preserves I (h x)) \<Longrightarrow> preserves I (with_body r f h)"
  "calls_safe J \<Longrightarrow> (\<And>u. preserves J (g u)) \<Longrightarrow> preserves J (service_call A r p g)"
  "(\<And>q. preserves J (next q)) \<Longrightarrow> preserves J (jwtAuthMiddleware E secret next r)"
  "preserves I (notImplemented r)"
  unfolding respond_def need_def with_body_def service_call_def jwtAuthMiddleware_def notImplemented_def Let_def
  by (auto split: sum.split intro!: preserves_intros)

end
