(* ===== verification/ApiCommunity.thy ===== *)
theory ApiCommunity
  imports Http CommunityService
begin

text \<open>
  \<open>backend/services/api-gateway/handlers/community_handler.go\<close>: one definition per REST handler, in the
  state of the community service it calls. The page requests carry an offset that the service does
  not read, and never a cursor.
\<close>

abbreviation community_rpc ::
  "api_env \<Rightarrow> http_request \<Rightarrow> string \<Rightarrow> (string \<Rightarrow> (community_svc, 'a) handler) \<Rightarrow> (community_svc, 'a) handler" where
  "community_rpc A r method \<equiv> service_call A r (''/community.v1.CommunityService/'' @ method)"

definition page_of :: "int \<Rightarrow> int \<Rightarrow> pagination_request option" where
  "page_of limit offset = Some \<lparr>pg_limit = limit, pg_offset = offset, pg_cursor = []\<rparr>"

section \<open>Communities\<close>

definition communityToResponse :: "pb_community \<Rightarrow> json" where
  "communityToResponse s =
     JObj [(''id'', JStr (pbc_id s)), (''name'', JStr (pbc_name s)),
           (''description'', JStr (pbc_description s)), (''icon_url'', JStr (pbc_icon_url s)),
           (''owner_id'', JStr (pbc_owner_id s)), (''created_at'', JNum (pbc_created_at s)),
           (''updated_at'', JNum (pbc_updated_at s))]"

definition api_ListCommunities ::
  "pg_env \<Rightarrow> api_env \<Rightarrow> http_request \<Rightarrow> (community_svc, http_response) state" where
  "api_ListCommunities P A r =
     (let limit = int32FromQuery r ''limit'' 50; offset = int32FromQuery r ''offset'' 0 in
      respond A
        (community_rpc A r ''ListCommunities'' (\<lambda>u. ListCommunities P u (page_of limit offset)))
        (\<lambda>(communities, pagination).
           writeJSON 200
             (JObj [(''has_more'', JBool (pgr_has_more pagination)),
                    (''items'', JArr (map communityToResponse communities))])))"

record create_community_request =
  ccr_Name :: string
  ccr_Description :: string
  ccr_IconURL :: string

definition read_community_body :: "(string \<times> json) list \<Rightarrow> go_error + create_community_request" where
  "read_community_body kvs =
     sum_bind (body_str kvs ''name'') (\<lambda>n. sum_bind (body_str kvs ''description'') (\<lambda>ds.
     sum_bind (body_str kvs ''icon_url'') (\<lambda>url.
       Inr \<lparr>ccr_Name = n, ccr_Description = ds, ccr_IconURL = url\<rparr>)))"

definition api_CreateCommunity ::
  "pg_env \<Rightarrow> api_env \<Rightarrow> http_request \<Rightarrow> (community_svc, http_response) state" where
  "api_CreateCommunity P A r =
     with_body r read_community_body (\<lambda>req.
     need (ccr_Name req \<noteq> []) ''name is required'' (
     respond A
       (community_rpc A r ''CreateCommunity''
          (\<lambda>u. CreateCommunity P u (ccr_Name req) (ccr_Description req) (ccr_IconURL req)))
       (\<lambda>c. writeJSON 201 (communityToResponse c))))"

definition api_GetCommunity ::
  "pg_env \<Rightarrow> api_env \<Rightarrow> http_request \<Rightarrow> (community_svc, http_response) state" where
  "api_GetCommunity P A r =
     (let communityID = URLParam r ''id'' in
      need (communityID \<noteq> []) ''community id is required'' (
      respond A (community_rpc A r ''GetCommunity'' (\<lambda>u. GetCommunity P communityID))
        (\<lambda>c. writeJSON 200 (communityToResponse c))))"

definition api_UpdateCommunity ::
  "pg_env \<Rightarrow> api_env \<Rightarrow> http_request \<Rightarrow> (community_svc, http_response) state" where
  "api_UpdateCommunity P A r =
     (let communityID = URLParam r ''id'' in
      need (communityID \<noteq> []) ''community id is required'' (
      with_body r read_community_body (\<lambda>req.
      respond A
        (community_rpc A r ''UpdateCommunity''
           (\<lambda>u. UpdateCommunity P u communityID (ccr_Name req) (ccr_Description req) (ccr_IconURL req)))
        (\<lambda>c. writeJSON 200 (communityToResponse c)))))"

section \<open>Channels\<close>

definition channelToResponse :: "pb_channel \<Rightarrow> json" where
  "channelToResponse c =
     (let typeStr = (case pbh_type c of CHANNEL_TYPE_ANNOUNCEMENT \<Rightarrow> ''announcement'' | _ \<Rightarrow> ''text'') in
      JObj [(''id'', JStr (pbh_id c)), (''community_id'', JStr (pbh_community_id c)),
            (''name'', JStr (pbh_name c)), (''topic'', JStr (pbh_topic c)), (''type'', JStr typeStr),
            (''position'', JNum (pbh_position c)), (''created_at'', JNum (pbh_created_at c)),
            (''updated_at'', JNum (pbh_updated_at c))])"

definition channelTypeFromString :: "string \<Rightarrow> channel_type" where
  "channelTypeFromString s =
     (if s = ''announcement'' then CHANNEL_TYPE_ANNOUNCEMENT else CHANNEL_TYPE_TEXT)"

record create_channel_request =
  chr_Name :: string
  chr_Topic :: string
  chr_Type :: string
  chr_Position :: int

definition read_channel_body :: "(string \<times> json) list \<Rightarrow> go_error + create_channel_request" where
  "read_channel_body kvs =
     sum_bind (body_str kvs ''name'') (\<lambda>n. sum_bind (body_str kvs ''topic'') (\<lambda>tp.
     sum_bind (body_str kvs ''type'') (\<lambda>ty. sum_bind (body_int32 kvs ''position'') (\<lambda>pos.
       Inr \<lparr>chr_Name = n, chr_Topic = tp, chr_Type = ty, chr_Position = pos\<rparr>))))"

definition api_CreateChannel ::
  "pg_env \<Rightarrow> api_env \<Rightarrow> http_request \<Rightarrow> (community_svc, http_response) state" where
  "api_CreateChannel P A r =
     (let communityID = URLParam r ''id'' in
      need (communityID \<noteq> []) ''community id is required'' (
      with_body r read_channel_body (\<lambda>req.
      need (chr_Name req \<noteq> []) ''name is required'' (
      respond A
        (community_rpc A r ''CreateChannel''
           (\<lambda>u. CreateChannel P u communityID (chr_Name req) (chr_Topic req)
                  (channelTypeFromString (chr_Type req)) (chr_Position req)))
        (\<lambda>c. writeJSON 201 (channelToResponse c))))))"

definition api_GetChannels ::
  "pg_env \<Rightarrow> api_env \<Rightarrow> http_request \<Rightarrow> (community_svc, http_response) state" where
  "api_GetChannels P A r =
     (let communityID = URLParam r ''id'' in
      need (communityID \<noteq> []) ''community id is required'' (
      respond A (community_rpc A r ''ListChannels'' (\<lambda>u. ListChannels P communityID))
        (\<lambda>channels. writeJSON 200 (JObj [(''channels'', JArr (map channelToResponse channels))]))))"

definition api_UpdateChannel ::
  "pg_env \<Rightarrow> api_env \<Rightarrow> http_request \<Rightarrow> (community_svc, http_response) state" where
  "api_UpdateChannel P A r =
     (let channelID = URLParam r ''id'' in
      need (channelID \<noteq> []) ''channel id is required'' (
      with_body r read_channel_body (\<lambda>req.
      respond A
        (community_rpc A r ''UpdateChannel''
           (\<lambda>u. UpdateChannel P u channelID (chr_Name req) (chr_Topic req)
                  (channelTypeFromString (chr_Type req)) (chr_Position req)))
        (\<lambda>c. writeJSON 200 (channelToResponse c)))))"

section \<open>Membership\<close>

text \<open>The services leave the role identifiers of a member empty, which is a null in JSON.\<close>

definition memberToResponse :: "pb_member \<Rightarrow> json" where
  "memberToResponse m =
     JObj [(''community_id'', JStr (pbm_community_id m)), (''user_id'', JStr (pbm_user_id m)),
           (''nickname'', JStr (pbm_nickname m)), (''role_ids'', JNull),
           (''joined_at'', JNum (pbm_joined_at m))]"

definition api_JoinCommunity ::
  "pg_env \<Rightarrow> api_env \<Rightarrow> http_request \<Rightarrow> (community_svc, http_response) state" where
  "api_JoinCommunity P A r =
     (let communityID = URLParam r ''id'' in
      need (communityID \<noteq> []) ''community id is required'' (
      respond A (community_rpc A r ''JoinCommunity'' (\<lambda>u. JoinCommunity P u communityID))
        (\<lambda>m. writeJSON 201 (memberToResponse m))))"

definition api_AddMember ::
  "pg_env \<Rightarrow> api_env \<Rightarrow> http_request \<Rightarrow> (community_svc, http_response) state" where
  "api_AddMember P A r =
     (let communityID = URLParam r ''id'' in
      need (communityID \<noteq> []) ''community id is required'' (
      with_body r (\<lambda>kvs. body_str kvs ''user_id'') (\<lambda>userID.
      need (userID \<noteq> []) ''user_id is required'' (
      respond A (community_rpc A r ''JoinCommunity'' (\<lambda>u. JoinCommunity P u communityID))
        (\<lambda>m. writeJSON 201 (memberToResponse m))))))"

definition status_response :: "string \<Rightarrow> http_response" where
  "status_response text = writeJSON 200 (JObj [(''status'', JStr text)])"

definition api_RemoveMember ::
  "pg_env \<Rightarrow> api_env \<Rightarrow> http_request \<Rightarrow> (community_svc, http_response) state" where
  "api_RemoveMember P A r =
     (let communityID = URLParam r ''id'' in
      need (communityID \<noteq> []) ''community id is required'' (
      let uid = URLParam r ''uid'' in
      need (uid \<noteq> []) ''user id is required'' (
      respond A (community_rpc A r ''KickMember'' (\<lambda>u. KickMember P u communityID uid))
        (\<lambda>_. status_response ''removed''))))"

definition api_LeaveCommunity ::
  "pg_env \<Rightarrow> api_env \<Rightarrow> http_request \<Rightarrow> (community_svc, http_response) state" where
  "api_LeaveCommunity P A r =
     (let communityID = URLParam r ''id'' in
      need (communityID \<noteq> []) ''community id is required'' (
      respond A (community_rpc A r ''LeaveCommunity'' (\<lambda>u. LeaveCommunity P u communityID))
        (\<lambda>_. status_response ''left'')))"

definition api_ListMembers ::
  "pg_env \<Rightarrow> api_env \<Rightarrow> http_request \<Rightarrow> (community_svc, http_response) state" where
  "api_ListMembers P A r =
     (let communityID = URLParam r ''id'' in
      need (communityID \<noteq> []) ''community id is required'' (
      let limit = int32FromQuery r ''limit'' 50; offset = int32FromQuery r ''offset'' 0 in
      respond A
        (community_rpc A r ''ListMembers'' (\<lambda>u. ListMembers P communityID (page_of limit offset)))
        (\<lambda>(members, _). writeJSON 200 (JObj [(''members'', JArr (map memberToResponse members))]))))"

section \<open>Messages\<close>

text \<open>\<open>strings.TrimRight(s, "/")\<close>.\<close>

definition trim_right_slash :: "string \<Rightarrow> string" where
  "trim_right_slash s = rev (dropWhile (\<lambda>c. c = CHR ''/'') (rev s))"

definition attachmentURL :: "api_env \<Rightarrow> string \<Rightarrow> string" where
  "attachmentURL A fileID =
     (if fileID = [] \<or> filesPublicBase A = [] then []
      else trim_right_slash (filesPublicBase A) @ ''/constell/originals/'' @ fileID)"

definition attachmentToResponse :: "api_env \<Rightarrow> attachment \<Rightarrow> json" where
  "attachmentToResponse A a =
     JObj [(''file_id'', JStr (at_file_id a)), (''filename'', JStr (at_filename a)),
           (''content_type'', JStr (at_content_type a)), (''size'', JNum (at_size a)),
           (''url'', JStr (attachmentURL A (at_file_id a)))]"

text \<open>Appending to a nil slice: without attachments the field is a null.\<close>

definition messageToResponse :: "api_env \<Rightarrow> pb_channel_message \<Rightarrow> json" where
  "messageToResponse A m =
     JObj [(''id'', JStr (pbg_id m)), (''channel_id'', JStr (pbg_channel_id m)),
           (''author_id'', JStr (pbg_author_id m)), (''content'', JStr (pbg_content m)),
           (''created_at'', JNum (pbg_created_at m)), (''updated_at'', JNum (pbg_updated_at m)),
           (''seq'', JNum (pbg_seq m)),
           (''attachments'', if pbg_attachments m = [] then JNull
                             else JArr (map (attachmentToResponse A) (pbg_attachments m)))]"

record send_message_body =
  smb_Content :: string
  smb_FileIDs :: "string list"

definition read_message_body :: "(string \<times> json) list \<Rightarrow> go_error + send_message_body" where
  "read_message_body kvs =
     sum_bind (body_str kvs ''content'') (\<lambda>c. sum_bind (body_strs kvs ''file_ids'') (\<lambda>fs.
       Inr \<lparr>smb_Content = c, smb_FileIDs = fs\<rparr>))"

definition api_SendMessage ::
  "pg_env \<Rightarrow> api_env \<Rightarrow> http_request \<Rightarrow> (community_svc, http_response) state" where
  "api_SendMessage P A r =
     (let channelID = URLParam r ''id'' in
      need (channelID \<noteq> []) ''channel id is required'' (
      with_body r read_message_body (\<lambda>req.
      need (smb_Content req \<noteq> []) ''content is required'' (
      respond A
        (community_rpc A r ''SendMessage''
           (\<lambda>u. SendMessage P u channelID (smb_Content req) (smb_FileIDs req)))
        (\<lambda>m. writeJSON 201 (messageToResponse A m))))))"

definition api_DeleteMessage ::
  "pg_env \<Rightarrow> api_env \<Rightarrow> http_request \<Rightarrow> (community_svc, http_response) state" where
  "api_DeleteMessage P A r =
     (let messageID = URLParam r ''mid'' in
      need (messageID \<noteq> []) ''message id is required'' (
      respond A (community_rpc A r ''DeleteMessage'' (\<lambda>u. DeleteMessage P u messageID))
        (\<lambda>_. status_response ''deleted'')))"

definition api_EditMessage ::
  "pg_env \<Rightarrow> api_env \<Rightarrow> http_request \<Rightarrow> (community_svc, http_response) state" where
  "api_EditMessage P A r =
     (let messageID = URLParam r ''mid'' in
      need (messageID \<noteq> []) ''message id is required'' (
      with_body r (\<lambda>kvs. body_str kvs ''content'') (\<lambda>content.
      need (trim_space content \<noteq> []) ''content is required'' (
      respond A (community_rpc A r ''EditMessage'' (\<lambda>u. EditMessage P u messageID content))
        (\<lambda>m. writeJSON 200 (messageToResponse A m))))))"

definition api_GetHistory ::
  "pg_env \<Rightarrow> api_env \<Rightarrow> http_request \<Rightarrow> (community_svc, http_response) state" where
  "api_GetHistory P A r =
     (let channelID = URLParam r ''id'' in
      need (channelID \<noteq> []) ''channel id is required'' (
      let limit = int32FromQuery r ''limit'' 50; offset = int32FromQuery r ''offset'' 0;
          sinceSeq = int64FromQuery r ''since_seq'' 0 in
      respond A
        (community_rpc A r ''GetMessages'' (\<lambda>u. GetMessages P u channelID (page_of limit offset) sinceSeq))
        (\<lambda>(messages, _).
           writeJSON 200 (JObj [(''messages'', JArr (map (messageToResponse A) messages))]))))"

lemmas api_community_defs = api_ListCommunities_def api_CreateCommunity_def api_GetCommunity_def
  api_UpdateCommunity_def api_CreateChannel_def api_GetChannels_def api_UpdateChannel_def
  api_JoinCommunity_def api_AddMember_def api_RemoveMember_def api_LeaveCommunity_def
  api_ListMembers_def api_SendMessage_def api_DeleteMessage_def api_EditMessage_def api_GetHistory_def

end
