(* ===== verification/ApiServices.thy ===== *)
theory ApiServices
  imports ApiCommunity UserService FileService SearchService NotifyService
begin

text \<open>
  The other REST handlers of \<open>backend/services/api-gateway/handlers\<close>: \<open>user_handler.go\<close>,
  \<open>auth_handler.go\<close>, \<open>file_handler.go\<close>, \<open>search_handler.go\<close> and \<open>notify_handler.go\<close>, each in the
  state of the service it calls.
\<close>

section \<open>Users\<close>

abbreviation user_rpc ::
  "api_env \<Rightarrow> http_request \<Rightarrow> string \<Rightarrow> (string \<Rightarrow> (user_svc, 'a) handler) \<Rightarrow> (user_svc, 'a) handler" where
  "user_rpc A r method \<equiv> service_call A r (''/user.v1.UserService/'' @ method)"

definition presenceKeyPrefix :: string where
  "presenceKeyPrefix = ''ws:uid:''"

text \<open>The loop over the identifiers, with the two lists it appends to.\<close>

fun presence_loop ::
  "string list \<Rightarrow> string list \<Rightarrow> string list \<Rightarrow> ('z infra_scheme, string list \<times> string list) state" where
  "presence_loop [] online offline = ret (online, offline)"
| "presence_loop (i # ids) online offline = do {
     exists \<leftarrow> redis_exists (presenceKeyPrefix @ i);
     (case exists of
        Inl err \<Rightarrow> presence_loop ids online (offline @ [i])
      | Inr n \<Rightarrow> if n = 1 then presence_loop ids (online @ [i]) offline
                 else presence_loop ids online (offline @ [i]))
   }"

definition presence_response :: "string list \<Rightarrow> string list \<Rightarrow> http_response" where
  "presence_response online offline =
     writeJSON 200 (JObj [(''offline'', JArr (map JStr offline)), (''online'', JArr (map JStr online))])"

text \<open>\<open>connected\<close>: there is a Redis client (\<open>h.redis != nil\<close>).\<close>

definition api_GetPresence ::
  "bool \<Rightarrow> http_request \<Rightarrow> ('z infra_scheme, http_response) state" where
  "api_GetPresence connected r =
     (let idsParam = query_get r ''ids'' in
      if idsParam = [] then ret (presence_response [] [])
      else
        let ids = split_comma idsParam in
        if connected
        then do { (online, offline) \<leftarrow> presence_loop ids [] []; ret (presence_response online offline) }
        else ret (presence_response [] ids))"

definition userToResponse :: "pb_user \<Rightarrow> json" where
  "userToResponse u =
     JObj [(''id'', JStr (pbu_id u)), (''email'', JStr (pbu_email u)), (''nickname'', JStr (pbu_nickname u)),
           (''avatar_url'', JStr (pbu_avatar_url u)), (''status_message'', JStr (pbu_status_message u)),
           (''created_at'', JNum (pbu_created_at u)), (''updated_at'', JNum (pbu_updated_at u))]"

definition api_GetUser ::
  "pg_env \<Rightarrow> api_env \<Rightarrow> http_request \<Rightarrow> (user_svc, http_response) state" where
  "api_GetUser P A r =
     (let userID = URLParam r ''id'' in
      need (userID \<noteq> []) ''user id is required'' (
      respond A (user_rpc A r ''GetUser'' (\<lambda>u. GetUser P userID))
        (\<lambda>m. writeJSON 200 (userToResponse m))))"

record update_profile_request =
  upr_Nickname :: string
  upr_AvatarURL :: string
  upr_StatusMessage :: string

definition read_profile_body :: "(string \<times> json) list \<Rightarrow> go_error + update_profile_request" where
  "read_profile_body kvs =
     sum_bind (body_str kvs ''nickname'') (\<lambda>n. sum_bind (body_str kvs ''avatar_url'') (\<lambda>url.
     sum_bind (body_str kvs ''status_message'') (\<lambda>st.
       Inr \<lparr>upr_Nickname = n, upr_AvatarURL = url, upr_StatusMessage = st\<rparr>)))"

definition api_UpdateProfile ::
  "pg_env \<Rightarrow> api_env \<Rightarrow> http_request \<Rightarrow> (user_svc, http_response) state" where
  "api_UpdateProfile P A r =
     (let userID = URLParam r ''id'' in
      need (userID \<noteq> []) ''user id is required'' (
      with_body r read_profile_body (\<lambda>req.
      respond A
        (user_rpc A r ''UpdateProfile''
           (\<lambda>u. UpdateProfile P u (upr_Nickname req) (upr_AvatarURL req) (upr_StatusMessage req)))
        (\<lambda>profile. writeJSON 200 (userToResponse profile)))))"

text \<open>The service leaves the avatar of a friend empty.\<close>

definition friendToResponse :: "pb_user_brief \<Rightarrow> json" where
  "friendToResponse f =
     JObj [(''id'', JStr (pbb_id f)), (''nickname'', JStr (pbb_nickname f)), (''avatar_url'', JStr [])]"

definition api_ListFriends ::
  "pg_env \<Rightarrow> api_env \<Rightarrow> http_request \<Rightarrow> (user_svc, http_response) state" where
  "api_ListFriends P A r =
     (let limit = int32FromQuery r ''limit'' 20; offset = int32FromQuery r ''offset'' 0 in
      respond A (user_rpc A r ''ListFriends'' (\<lambda>u. ListFriends P u (page_of limit offset)))
        (\<lambda>(friends, pagination).
           writeJSON 200 (JObj [(''friends'', JArr (map friendToResponse friends)),
                                (''has_more'', JBool (pgr_has_more pagination))])))"

definition dmToResponse :: "pb_dm_message \<Rightarrow> json" where
  "dmToResponse m =
     JObj [(''id'', JStr (pbd_id m)), (''conversation_id'', JStr (pbd_conversation_id m)),
           (''sender_id'', JStr (pbd_sender_id m)), (''content'', JStr (pbd_content m)),
           (''created_at'', JNum (pbd_created_at m)), (''seq'', JNum (pbd_seq m))]"

definition api_SendDM ::
  "pg_env \<Rightarrow> api_env \<Rightarrow> http_request \<Rightarrow> (user_svc, http_response) state" where
  "api_SendDM P A r =
     with_body r (\<lambda>kvs. sum_bind (body_str kvs ''target_user_id'') (\<lambda>t.
                        sum_bind (body_str kvs ''content'') (\<lambda>c. Inr (t, c)))) (\<lambda>(target, content).
     need (\<not> (target = [] \<or> content = [])) ''target_user_id and content are required'' (
     respond A (user_rpc A r ''SendDM'' (\<lambda>u. SendDM P u target content []))
       (\<lambda>dm. writeJSON 201 (dmToResponse dm))))"

definition api_GetDMHistory ::
  "pg_env \<Rightarrow> api_env \<Rightarrow> http_request \<Rightarrow> (user_svc, http_response) state" where
  "api_GetDMHistory P A r =
     (let peerID = URLParam r ''peerId'' in
      need (peerID \<noteq> []) ''peer id is required'' (
      let limit = int32FromQuery r ''limit'' 50; offset = int32FromQuery r ''offset'' 0;
          sinceSeq = int64FromQuery r ''since_seq'' 0 in
      respond A
        (user_rpc A r ''GetDMHistory'' (\<lambda>u. GetDMHistory P u peerID (page_of limit offset) sinceSeq))
        (\<lambda>(messages, _). writeJSON 200 (JObj [(''messages'', JArr (map dmToResponse messages))]))))"

definition conversationToResponse :: "pb_dm_conversation \<Rightarrow> json" where
  "conversationToResponse c =
     JObj [(''id'', JStr (pbv_id c)), (''peer_id'', JStr (pbv_peer_id c)), (''created_at'', JNum (pbv_created_at c))]"

definition api_GetDMConversations ::
  "pg_env \<Rightarrow> api_env \<Rightarrow> http_request \<Rightarrow> (user_svc, http_response) state" where
  "api_GetDMConversations P A r =
     (let limit = int32FromQuery r ''limit'' 50; offset = int32FromQuery r ''offset'' 0 in
      respond A (user_rpc A r ''GetDMConversations'' (\<lambda>u. GetDMConversations P u (page_of limit offset)))
        (\<lambda>(conversations, pagination).
           writeJSON 200 (JObj [(''conversations'', JArr (map conversationToResponse conversations)),
                                (''has_more'', JBool (pgr_has_more pagination))])))"

section \<open>Accounts\<close>

text \<open>No header is forwarded: the auth service has no interceptor.\<close>

definition token_fields :: "token_pair \<Rightarrow> (string \<times> json) list" where
  "token_fields p =
     [(''access_token'', JStr (AccessToken p)), (''refresh_token'', JStr (Refresh_Token p)),
      (''expires_at'', JNum (ExpiresAt p))]"

definition api_Register ::
  "pg_env \<Rightarrow> api_env \<Rightarrow> http_request \<Rightarrow> (auth_svc, http_response) state" where
  "api_Register P A r =
     with_body r (\<lambda>kvs. sum_bind (body_str kvs ''email'') (\<lambda>e. sum_bind (body_str kvs ''password'') (\<lambda>p.
                        sum_bind (body_str kvs ''nickname'') (\<lambda>n. Inr (e, p, n)))))
       (\<lambda>(email, password, nickname).
     need (\<not> (email = [] \<or> password = [] \<or> nickname = [])) ''email, password, and nickname are required'' (
     respond A (over_network A (Register P (auth_env.truncate A) (jwtSecret A) email password nickname))
       (\<lambda>(userID, pair). writeJSON 201 (JObj ((''user_id'', JStr userID) # token_fields pair)))))"

definition api_Login :: "api_env \<Rightarrow> http_request \<Rightarrow> (auth_svc, http_response) state" where
  "api_Login A r =
     with_body r (\<lambda>kvs. sum_bind (body_str kvs ''email'') (\<lambda>e. sum_bind (body_str kvs ''password'') (\<lambda>p.
                        Inr (e, p)))) (\<lambda>(email, password).
     need (\<not> (email = [] \<or> password = [])) ''email and password are required'' (
     respond A (over_network A (Login (auth_env.truncate A) (jwtSecret A) email password))
       (\<lambda>(userID, pair). writeJSON 200 (JObj ((''user_id'', JStr userID) # token_fields pair)))))"

definition api_RefreshToken :: "api_env \<Rightarrow> http_request \<Rightarrow> (auth_svc, http_response) state" where
  "api_RefreshToken A r =
     with_body r (\<lambda>kvs. body_str kvs ''refresh_token'') (\<lambda>token.
     need (token \<noteq> []) ''refresh_token is required'' (
     respond A (over_network A (RefreshToken (auth_env.truncate A) (jwtSecret A) token))
       (\<lambda>pair. writeJSON 200 (JObj (token_fields pair)))))"

section \<open>Files\<close>

abbreviation file_rpc ::
  "api_env \<Rightarrow> http_request \<Rightarrow> string \<Rightarrow> (string \<Rightarrow> (file_svc, 'a) handler) \<Rightarrow> (file_svc, 'a) handler" where
  "file_rpc A r method \<equiv> service_call A r (''/file.v1.FileService/'' @ method)"

definition fileToResponse :: "file_info \<Rightarrow> json" where
  "fileToResponse f =
     JObj [(''id'', JStr (fi_id f)), (''filename'', JStr (fi_filename f)),
           (''content_type'', JStr (fi_content_type f)), (''size'', JNum (fi_size f)),
           (''url'', JStr (fi_url f)), (''thumbnail_url'', JStr (fi_thumbnail_url f)),
           (''created_at'', JNum (fi_created_at f))]"

text \<open>\<open>newID\<close> is what \<open>uuid.New()\<close> returns.\<close>

definition api_UploadFile ::
  "pg_env \<Rightarrow> api_env \<Rightarrow> file_env \<Rightarrow> string \<Rightarrow> http_request \<Rightarrow> (file_svc, http_response) state" where
  "api_UploadFile P A E newID r =
     (case hr_form r of
        FormUnreadable \<Rightarrow> ret (writeError 400 ''failed to parse multipart form'')
      | NoFileField \<Rightarrow> ret (writeError 400 ''file field is required'')
      | FormFile filename ctype content \<Rightarrow>
          (case content of
             Inl err \<Rightarrow> ret (writeError 500 ''failed to read file'')
           | Inr data \<Rightarrow>
               let contentType = (if ctype = [] then ''application/octet-stream'' else ctype) in
               respond A (file_rpc A r ''UploadFile'' (\<lambda>u. UploadFile E P u newID filename contentType data))
                 (\<lambda>f. writeJSON 201 (fileToResponse f))))"

definition api_GetFileURL ::
  "pg_env \<Rightarrow> api_env \<Rightarrow> file_env \<Rightarrow> http_request \<Rightarrow> (file_svc, http_response) state" where
  "api_GetFileURL P A E r =
     (let fileID = URLParam r ''id'' in
      need (fileID \<noteq> []) ''file id is required'' (
      respond A (file_rpc A r ''GetFilePresignedURL'' (\<lambda>u. GetFilePresignedURL E P u fileID))
        (\<lambda>(url, _). writeJSON 200 (JObj [(''url'', JStr url)]))))"

definition api_DeleteFile ::
  "pg_env \<Rightarrow> api_env \<Rightarrow> http_request \<Rightarrow> (file_svc, http_response) state" where
  "api_DeleteFile P A r =
     (let fileID = URLParam r ''id'' in
      need (fileID \<noteq> []) ''file id is required'' (
      respond A (file_rpc A r ''DeleteFile'' (\<lambda>u. DeleteFile P u fileID))
        (\<lambda>_. status_response ''deleted'')))"

section \<open>Search\<close>

definition searchToResponse :: "'r search_response \<Rightarrow> json" where
  "searchToResponse m =
     JObj [(''users'', JArr (map (\<lambda>u. JObj [(''id'', JStr (us_id u)), (''nickname'', JStr (us_nickname u)),
              (''avatar_url'', JStr (us_avatar_url u))]) (sr_users m))),
           (''messages'', JArr (map (\<lambda>m. JObj [(''id'', JStr (ms_id m)), (''channel_id'', JStr (ms_channel_id m)),
              (''community_id'', JStr (ms_community_id m)), (''author_id'', JStr (ms_author_id m)),
              (''content'', JStr (ms_content m)), (''created_at'', JNum (ms_created_at m))]) (sr_messages m))),
           (''dm_messages'', JArr (map (\<lambda>m. JObj [(''id'', JStr (dms_id m)),
              (''conversation_id'', JStr (dms_conversation_id m)), (''peer_id'', JStr (dms_peer_id m)),
              (''content'', JStr (dms_content m)), (''created_at'', JNum (dms_created_at m))]) (sr_dm_messages m))),
           (''communities'', JArr (map (\<lambda>c. JObj [(''id'', JStr (cs_id c)), (''name'', JStr (cs_name c)),
              (''icon_url'', JStr (cs_icon_url c)), (''description'', JStr (cs_description c)),
              (''member_count'', JNum (int (cs_member_count c))), (''joined'', JBool (cs_joined c))])
              (sr_communities m)))]"

definition api_Search ::
  "pg_env \<Rightarrow> api_env \<Rightarrow> ('q, 'r::linorder) search_env \<Rightarrow> (search_task list \<Rightarrow> search_task list) \<Rightarrow>
   http_request \<Rightarrow> ('z infra_scheme, http_response) state" where
  "api_Search P A E sched r =
     (let query = query_get r ''q'' in
      need (query \<noteq> []) ''query parameter q is required'' (
      let limit = int32FromQuery r ''limit'' 20 in
      respond A
        (service_call A r ''/search.v1.SearchService/Search''
           (\<lambda>u. Search P E sched u \<lparr>sq_query = query, sq_types = [], sq_limit = limit\<rparr>))
        (\<lambda>m. writeJSON 200 (searchToResponse m))))"

section \<open>Read state\<close>

abbreviation notify_rpc ::
  "api_env \<Rightarrow> http_request \<Rightarrow> string \<Rightarrow> (string \<Rightarrow> ('z infra_scheme, 'a) handler) \<Rightarrow>
   ('z infra_scheme, 'a) handler" where
  "notify_rpc A r method \<equiv> service_call A r (''/notify.v1.NotifyService/'' @ method)"

definition unreadToResponse :: "unread_counts \<Rightarrow> json" where
  "unreadToResponse m =
     JObj [(''dm_total'', JNum (sint (un_dm_total m))),
           (''dm_conversations'', JArr (map (\<lambda>c. JObj [(''conversation_id'', JStr (ud_conversation_id c)),
              (''peer_id'', JStr (ud_peer_id c)), (''count'', JNum (sint (ud_count c)))]) (un_dms m))),
           (''channel_total'', JNum (sint (un_channel_total m))),
           (''channels'', JArr (map (\<lambda>c. JObj [(''channel_id'', JStr (uc_channel_id c)),
              (''community_id'', JStr (uc_community_id c)), (''count'', JNum (sint (uc_count c)))]) (un_channels m)))]"

definition api_GetUnread ::
  "pg_env \<Rightarrow> api_env \<Rightarrow> http_request \<Rightarrow> ('z infra_scheme, http_response) state" where
  "api_GetUnread P A r =
     respond A (notify_rpc A r ''GetUnreadCounts'' (\<lambda>u. GetUnreadCounts P u))
       (\<lambda>m. writeJSON 200 (unreadToResponse m))"

definition api_MarkDMRead ::
  "pg_env \<Rightarrow> api_env \<Rightarrow> http_request \<Rightarrow> ('z infra_scheme, http_response) state" where
  "api_MarkDMRead P A r =
     (let convID = URLParam r ''conv_id'' in
      need (convID \<noteq> []) ''conversation id is required'' (
      respond A (notify_rpc A r ''MarkDMRead'' (\<lambda>u. MarkDMRead P u convID))
        (\<lambda>_. status_response ''marked_read'')))"

definition api_MarkChannelRead ::
  "pg_env \<Rightarrow> api_env \<Rightarrow> http_request \<Rightarrow> ('z infra_scheme, http_response) state" where
  "api_MarkChannelRead P A r =
     (let chID = URLParam r ''ch_id'' in
      need (chID \<noteq> []) ''channel id is required'' (
      respond A (notify_rpc A r ''MarkChannelRead'' (\<lambda>u. MarkChannelRead P u chID))
        (\<lambda>_. status_response ''marked_read'')))"

lemmas api_user_defs = api_GetUser_def api_UpdateProfile_def api_ListFriends_def api_SendDM_def
  api_GetDMHistory_def api_GetDMConversations_def

lemmas api_auth_defs = api_Register_def api_Login_def api_RefreshToken_def

lemmas api_file_defs = api_UploadFile_def api_GetFileURL_def api_DeleteFile_def

lemmas api_notify_defs = api_GetUnread_def api_MarkDMRead_def api_MarkChannelRead_def

end
