(* ===== verification/ApiRoutes.thy ===== *)
theory ApiRoutes
  imports ApiServices CommunityCluster
begin

text \<open>
  The whole platform behind its REST interface: the router of
  \<open>backend/services/api-gateway/routes.go\<close>, and the state in which a request is served, which is the
  tables, Redis, NATS and the object store that the services share and what each service keeps for
  itself. A handler runs in the state of its service; \<open>on_service\<close> runs it in the state of the
  platform.
\<close>

section \<open>The platform\<close>

record platform = infra +
  pl_community :: instance_caches
  pl_userCache :: "json cache"
  pl_relationCache :: "json cache"
  pl_salts :: nat
  pl_objects :: "string \<Rightarrow> (string \<times> string) option"
  pl_uploads :: "string \<Rightarrow> upload option"
  pl_upload_count :: nat

definition on_service ::
  "('p \<Rightarrow> 's) \<Rightarrow> ('p \<Rightarrow> 's \<Rightarrow> 'p) \<Rightarrow> ('s, 'a) state \<Rightarrow> ('p, 'a) state" where
  "on_service view put m = State (\<lambda>p. case run_state m (view p) of (r, s) \<Rightarrow> (r, put p s))"

definition with_infra :: "platform \<Rightarrow> infra \<Rightarrow> platform" where
  "with_infra p s =
     infra.extend s (platform.fields (pl_community p) (pl_userCache p) (pl_relationCache p)
       (pl_salts p) (pl_objects p) (pl_uploads p) (pl_upload_count p))"

definition community_view :: "platform \<Rightarrow> community_svc" where
  "community_view p = service_of (infra.truncate p) (pl_community p)"

definition put_community :: "platform \<Rightarrow> community_svc \<Rightarrow> platform" where
  "put_community p s = (with_infra p (infra.truncate s))\<lparr>pl_community := caches_of s\<rparr>"

definition user_view :: "platform \<Rightarrow> user_svc" where
  "user_view p = infra.extend (infra.truncate p) (user_svc.fields (pl_userCache p) (pl_relationCache p))"

definition put_user :: "platform \<Rightarrow> user_svc \<Rightarrow> platform" where
  "put_user p s =
     (with_infra p (infra.truncate s))\<lparr>pl_userCache := userCache s, pl_relationCache := relationCache s\<rparr>"

definition auth_view :: "platform \<Rightarrow> auth_svc" where
  "auth_view p = infra.extend (infra.truncate p) (auth_svc.fields (pl_salts p))"

definition put_auth :: "platform \<Rightarrow> auth_svc \<Rightarrow> platform" where
  "put_auth p s = (with_infra p (infra.truncate s))\<lparr>pl_salts := salts s\<rparr>"

definition file_view :: "platform \<Rightarrow> file_svc" where
  "file_view p =
     infra.extend (infra.truncate p) (file_svc.fields (pl_objects p) (pl_uploads p) (pl_upload_count p))"

definition put_file :: "platform \<Rightarrow> file_svc \<Rightarrow> platform" where
  "put_file p s =
     (with_infra p (infra.truncate s))
       \<lparr>pl_objects := objects s, pl_uploads := uploads s, pl_upload_count := upload_count s\<rparr>"

text \<open>The notify and the search service keep nothing for themselves.\<close>

definition shared_view :: "platform \<Rightarrow> infra" where
  "shared_view p = infra.truncate p"

lemmas view_defs = shared_view_def with_infra_def community_view_def put_community_def user_view_def put_user_def
  auth_view_def put_auth_def file_view_def put_file_def service_of_def caches_of_def
  infra.defs platform.defs community_svc.defs user_svc.defs auth_svc.defs file_svc.defs

section \<open>Views\<close>

text \<open>What a service sees of the platform, and what it leaves there, are the same shared parts.\<close>

locale service_view =
  fixes view :: "platform \<Rightarrow> 's infra_scheme" and put :: "platform \<Rightarrow> 's infra_scheme \<Rightarrow> platform"
  assumes view_shared: "infra.truncate (view p) = infra.truncate p"
    and put_shared: "infra.truncate (put p s) = infra.truncate s"
begin

lemma shared_fields:
  "db (view p) = db p" "now (view p) = now p" "outcomes (view p) = outcomes p"
  "db (put p s) = db s" "now (put p s) = now s" "outcomes (put p s) = outcomes s"
  using view_shared [of p] put_shared [of p s] by (simp_all add: infra.defs)

lemma preserves_on:
  assumes "preserves (\<lambda>s. Q (db s)) m"
  shows "preserves (\<lambda>p. Q (db p)) (on_service view put m)"
  using assms by (auto simp: preserves_def on_service_def shared_fields case_prod_unfold)

lemma run_on: "run_state (on_service view put m) p = (r, p') \<longleftrightarrow>
    (\<exists>s. run_state m (view p) = (r, s) \<and> p' = put p s)"
  by (auto simp: on_service_def split: prod.splits)

end

text \<open>A service other than the community service leaves that one's caches alone.\<close>

locale other_view = service_view view put
  for view :: "platform \<Rightarrow> 's infra_scheme" and put :: "platform \<Rightarrow> 's infra_scheme \<Rightarrow> platform" +
  assumes caches_kept: "pl_community (put p s) = pl_community p"
begin

lemma on_keeps_caches: "pl_community (snd (run_state (on_service view put m) p)) = pl_community p"
  by (simp add: on_service_def caches_kept case_prod_unfold)

end

interpretation community: service_view community_view put_community
  by unfold_locales (simp_all add: view_defs)

interpretation user: other_view user_view put_user
  by unfold_locales (simp_all add: view_defs)

interpretation auth: other_view auth_view put_auth
  by unfold_locales (simp_all add: view_defs)

interpretation files: other_view file_view put_file
  by unfold_locales (simp_all add: view_defs)

interpretation stateless: other_view shared_view with_infra
  by unfold_locales (simp_all add: view_defs)

section \<open>Routes\<close>

datatype endpoint =
    EpRegister | EpLogin | EpRefreshToken
  | EpGetPresence | EpGetUser | EpUpdateProfile | EpListFriends | EpNotImplemented
  | EpSendDM | EpGetDMHistory | EpGetDMConversations
  | EpListCommunities | EpCreateCommunity | EpGetCommunity | EpUpdateCommunity
  | EpCreateChannel | EpGetChannels | EpAddMember | EpRemoveMember | EpListMembers
  | EpJoinCommunity | EpLeaveCommunity | EpUpdateChannel
  | EpSendMessage | EpGetHistory | EpDeleteMessage | EpEditMessage
  | EpUploadFile | EpGetFileURL | EpDeleteFile
  | EpSearch | EpGetUnread | EpMarkDMRead | EpMarkChannelRead

datatype seg = Lit string | Par string

text \<open>Under \<open>/api/v1/auth\<close>, and under \<open>/api/v1\<close> behind the middleware; the segments of a path. The
  router prefers a literal to a parameter, which here is the order of the table.\<close>

definition auth_routes :: "(string \<times> seg list \<times> endpoint) list" where
  "auth_routes =
     [(''POST'', [Lit ''register''], EpRegister), (''POST'', [Lit ''login''], EpLogin),
      (''POST'', [Lit ''refresh''], EpRefreshToken)]"

definition api_routes :: "(string \<times> seg list \<times> endpoint) list" where
  "api_routes =
     [(''GET'', [Lit ''users'', Lit ''presence''], EpGetPresence),
      (''GET'', [Lit ''users'', Par ''id''], EpGetUser),
      (''PATCH'', [Lit ''users'', Par ''id''], EpUpdateProfile),
      (''GET'', [Lit ''users'', Par ''id'', Lit ''friends''], EpListFriends),
      (''POST'', [Lit ''users'', Par ''id'', Lit ''block''], EpNotImplemented),
      (''DELETE'', [Lit ''users'', Par ''id'', Lit ''block'', Par ''tid''], EpNotImplemented),
      (''GET'', [Lit ''users'', Par ''id'', Lit ''relation'', Par ''tid''], EpNotImplemented),
      (''POST'', [Lit ''dm'', Lit ''send''], EpSendDM),
      (''GET'', [Lit ''dm'', Lit ''history'', Par ''peerId''], EpGetDMHistory),
      (''GET'', [Lit ''dm'', Lit ''conversations''], EpGetDMConversations),
      (''GET'', [Lit ''communities''], EpListCommunities),
      (''POST'', [Lit ''communities''], EpCreateCommunity),
      (''GET'', [Lit ''communities'', Par ''id''], EpGetCommunity),
      (''PATCH'', [Lit ''communities'', Par ''id''], EpUpdateCommunity),
      (''POST'', [Lit ''communities'', Par ''id'', Lit ''channels''], EpCreateChannel),
      (''GET'', [Lit ''communities'', Par ''id'', Lit ''channels''], EpGetChannels),
      (''POST'', [Lit ''communities'', Par ''id'', Lit ''members''], EpAddMember),
      (''DELETE'', [Lit ''communities'', Par ''id'', Lit ''members'', Par ''uid''], EpRemoveMember),
      (''GET'', [Lit ''communities'', Par ''id'', Lit ''members''], EpListMembers),
      (''POST'', [Lit ''communities'', Par ''id'', Lit ''join''], EpJoinCommunity),
      (''DELETE'', [Lit ''communities'', Par ''id'', Lit ''leave''], EpLeaveCommunity),
      (''POST'', [Lit ''communities'', Par ''id'', Lit ''roles''], EpNotImplemented),
      (''POST'', [Lit ''communities'', Par ''id'', Lit ''members'', Par ''uid'', Lit ''roles'', Par ''rid''],
         EpNotImplemented),
      (''PATCH'', [Lit ''channels'', Par ''id''], EpUpdateChannel),
      (''POST'', [Lit ''channels'', Par ''id'', Lit ''messages''], EpSendMessage),
      (''GET'', [Lit ''channels'', Par ''id'', Lit ''messages''], EpGetHistory),
      (''DELETE'', [Lit ''channels'', Par ''id'', Lit ''messages'', Par ''mid''], EpDeleteMessage),
      (''PATCH'', [Lit ''channels'', Par ''id'', Lit ''messages'', Par ''mid''], EpEditMessage),
      (''POST'', [Lit ''files'', Lit ''upload''], EpUploadFile),
      (''GET'', [Lit ''files'', Par ''id'', Lit ''url''], EpGetFileURL),
      (''DELETE'', [Lit ''files'', Par ''id''], EpDeleteFile),
      (''GET'', [Lit ''search''], EpSearch),
      (''GET'', [Lit ''notify'', Lit ''unread''], EpGetUnread),
      (''POST'', [Lit ''notify'', Lit ''dm'', Par ''conv_id'', Lit ''read''], EpMarkDMRead),
      (''POST'', [Lit ''notify'', Lit ''channel'', Par ''ch_id'', Lit ''read''], EpMarkChannelRead)]"

fun match_path :: "seg list \<Rightarrow> string list \<Rightarrow> (string \<times> string) list option" where
  "match_path [] [] = Some []"
| "match_path (Lit s # segs) (p # ps) = (if p = s then match_path segs ps else None)"
| "match_path (Par k # segs) (p # ps) =
     (case match_path segs ps of None \<Rightarrow> None | Some kvs \<Rightarrow> Some ((k, p) # kvs))"
| "match_path _ _ = None"

fun find_route ::
  "(string \<times> seg list \<times> endpoint) list \<Rightarrow> string \<Rightarrow> string list \<Rightarrow> (endpoint \<times> (string \<times> string) list) option" where
  "find_route [] meth path = None"
| "find_route ((m, segs, ep) # routes) meth path =
     (case (if m = meth then match_path segs path else None) of
        None \<Rightarrow> find_route routes meth path
      | Some kvs \<Rightarrow> Some (ep, kvs))"

section \<open>Serving\<close>

record ('q, 'r) platform_env =
  pe_pg :: pg_env
  pe_api :: api_env
  pe_file :: file_env
  pe_search :: "('q, 'r) search_env"
  pe_sched :: "search_task list \<Rightarrow> search_task list"
  pe_redis :: bool                                  \<comment> \<open>the gateway has a Redis client\<close>

text \<open>\<open>newID\<close> is the identifier the gateway would make for an uploaded file.\<close>

fun serve_endpoint ::
  "('q, 'r::linorder) platform_env \<Rightarrow> string \<Rightarrow> endpoint \<Rightarrow> http_request \<Rightarrow> (platform, http_response) state" where
  "serve_endpoint E newID EpRegister r = on_service auth_view put_auth (api_Register (pe_pg E) (pe_api E) r)"
| "serve_endpoint E newID EpLogin r = on_service auth_view put_auth (api_Login (pe_api E) r)"
| "serve_endpoint E newID EpRefreshToken r = on_service auth_view put_auth (api_RefreshToken (pe_api E) r)"
| "serve_endpoint E newID EpGetPresence r =
     on_service shared_view with_infra (api_GetPresence (pe_redis E) r)"
| "serve_endpoint E newID EpGetUser r = on_service user_view put_user (api_GetUser (pe_pg E) (pe_api E) r)"
| "serve_endpoint E newID EpUpdateProfile r = on_service user_view put_user (api_UpdateProfile (pe_pg E) (pe_api E) r)"
| "serve_endpoint E newID EpListFriends r = on_service user_view put_user (api_ListFriends (pe_pg E) (pe_api E) r)"
| "serve_endpoint E newID EpNotImplemented r = notImplemented r"
| "serve_endpoint E newID EpSendDM r = on_service user_view put_user (api_SendDM (pe_pg E) (pe_api E) r)"
| "serve_endpoint E newID EpGetDMHistory r = on_service user_view put_user (api_GetDMHistory (pe_pg E) (pe_api E) r)"
| "serve_endpoint E newID EpGetDMConversations r =
     on_service user_view put_user (api_GetDMConversations (pe_pg E) (pe_api E) r)"
| "serve_endpoint E newID EpListCommunities r =
     on_service community_view put_community (api_ListCommunities (pe_pg E) (pe_api E) r)"
| "serve_endpoint E newID EpCreateCommunity r =
     on_service community_view put_community (api_CreateCommunity (pe_pg E) (pe_api E) r)"
| "serve_endpoint E newID EpGetCommunity r =
     on_service community_view put_community (api_GetCommunity (pe_pg E) (pe_api E) r)"
| "serve_endpoint E newID EpUpdateCommunity r =
     on_service community_view put_community (api_UpdateCommunity (pe_pg E) (pe_api E) r)"
| "serve_endpoint E newID EpCreateChannel r =
     on_service community_view put_community (api_CreateChannel (pe_pg E) (pe_api E) r)"
| "serve_endpoint E newID EpGetChannels r =
     on_service community_view put_community (api_GetChannels (pe_pg E) (pe_api E) r)"
| "serve_endpoint E newID EpAddMember r =
     on_service community_view put_community (api_AddMember (pe_pg E) (pe_api E) r)"
| "serve_endpoint E newID EpRemoveMember r =
     on_service community_view put_community (api_RemoveMember (pe_pg E) (pe_api E) r)"
| "serve_endpoint E newID EpListMembers r =
     on_service community_view put_community (api_ListMembers (pe_pg E) (pe_api E) r)"
| "serve_endpoint E newID EpJoinCommunity r =
     on_service community_view put_community (api_JoinCommunity (pe_pg E) (pe_api E) r)"
| "serve_endpoint E newID EpLeaveCommunity r =
     on_service community_view put_community (api_LeaveCommunity (pe_pg E) (pe_api E) r)"
| "serve_endpoint E newID EpUpdateChannel r =
     on_service community_view put_community (api_UpdateChannel (pe_pg E) (pe_api E) r)"
| "serve_endpoint E newID EpSendMessage r =
     on_service community_view put_community (api_SendMessage (pe_pg E) (pe_api E) r)"
| "serve_endpoint E newID EpGetHistory r =
     on_service community_view put_community (api_GetHistory (pe_pg E) (pe_api E) r)"
| "serve_endpoint E newID EpDeleteMessage r =
     on_service community_view put_community (api_DeleteMessage (pe_pg E) (pe_api E) r)"
| "serve_endpoint E newID EpEditMessage r =
     on_service community_view put_community (api_EditMessage (pe_pg E) (pe_api E) r)"
| "serve_endpoint E newID EpUploadFile r =
     on_service file_view put_file (api_UploadFile (pe_pg E) (pe_api E) (pe_file E) newID r)"
| "serve_endpoint E newID EpGetFileURL r =
     on_service file_view put_file (api_GetFileURL (pe_pg E) (pe_api E) (pe_file E) r)"
| "serve_endpoint E newID EpDeleteFile r =
     on_service file_view put_file (api_DeleteFile (pe_pg E) (pe_api E) r)"
| "serve_endpoint E newID EpSearch r =
     on_service shared_view with_infra (api_Search (pe_pg E) (pe_api E) (pe_search E) (pe_sched E) r)"
| "serve_endpoint E newID EpGetUnread r =
     on_service shared_view with_infra (api_GetUnread (pe_pg E) (pe_api E) r)"
| "serve_endpoint E newID EpMarkDMRead r =
     on_service shared_view with_infra (api_MarkDMRead (pe_pg E) (pe_api E) r)"
| "serve_endpoint E newID EpMarkChannelRead r =
     on_service shared_view with_infra (api_MarkChannelRead (pe_pg E) (pe_api E) r)"

text \<open>Where nothing is registered the router answers itself (405 when the path has another method).\<close>

definition no_route :: "(string \<times> seg list \<times> endpoint) list \<Rightarrow> string list \<Rightarrow> http_response" where
  "no_route routes path =
     Response (if \<exists>(m, segs, ep) \<in> set routes. match_path segs path \<noteq> None then 405 else 404) JNull"

definition dispatch ::
  "('q, 'r::linorder) platform_env \<Rightarrow> string \<Rightarrow> (string \<times> seg list \<times> endpoint) list \<Rightarrow> string \<Rightarrow> string list \<Rightarrow>
   http_request \<Rightarrow> (platform, http_response) state" where
  "dispatch E newID routes meth path r =
     (case find_route routes meth path of
        None \<Rightarrow> ret (no_route routes path)
      | Some (ep, kvs) \<Rightarrow> serve_endpoint E newID ep (r\<lparr>hr_params := kvs\<rparr>))"

fun serve_http ::
  "('q, 'r::linorder) platform_env \<Rightarrow> string \<Rightarrow> string \<Rightarrow> string list \<Rightarrow> http_request \<Rightarrow>
   (platform, http_response) state" where
  "serve_http E newID meth (a # v # path) r =
     (if a = ''api'' \<and> v = ''v1''
      then
        (case path of
           p # rest \<Rightarrow>
             if p = ''auth'' then dispatch E newID auth_routes meth rest r
             else jwtAuthMiddleware (pe_api E) (jwtSecret (pe_api E)) (dispatch E newID api_routes meth path) r
         | [] \<Rightarrow> jwtAuthMiddleware (pe_api E) (jwtSecret (pe_api E)) (dispatch E newID api_routes meth path) r)
      else ret (Response 404 JNull))"
| "serve_http E newID meth path r = ret (Response 404 JNull)"

end
