(* ===== verification/Platform.thy ===== *)
theory Platform
  imports ApiRoutes FileFacts AuthFacts NotifyFacts UserFacts SearchFacts
begin

text \<open>
  The tables that all services share, under the requests of all of them: \<open>platform_tables\<close> puts the
  invariants of the services together, \<open>platform_ok\<close> adds what the caches of the community service
  promise, and every request to the REST interface keeps both.
\<close>

section \<open>The tables of all services\<close>

definition platform_tables :: "database \<Rightarrow> bool" where
  "platform_tables d \<longleftrightarrow> user_db_ok d \<and> distinct (map u_email (users d)) \<and> files_ok d"

lemma platform_tables_db_ok: "platform_tables d \<Longrightarrow> db_ok d"
  by (simp add: platform_tables_def user_db_ok_def)

lemma platform_tables_user: "platform_tables d \<Longrightarrow> user_db_ok d"
  by (simp add: platform_tables_def)

lemma user_db_ok_db: "user_db_ok d \<Longrightarrow> db_ok d"
  by (simp add: user_db_ok_def)

lemma accounts_stay_users:
  assumes "accounts_stay d d'"
  shows "has_user d' = has_user d"
  using map_key_set [of u_id "users d'" "users d"] assms by (simp add: accounts_stay_def has_user_def fun_eq_iff)

lemma platform_tables_stay:
  assumes ok: "platform_tables d" and db: "db_ok d'" and stay: "accounts_stay d d'"
  shows "platform_tables d'"
proof -
  have "relations_ok d'"
    using ok stay accounts_stay_users [OF stay]
    by (simp add: platform_tables_def user_db_ok_def relations_ok_def accounts_stay_def)
  moreover have "files_ok d'"
    using ok stay accounts_stay_users [OF stay]
    by (auto simp: platform_tables_def files_ok_def accounts_stay_def)
  ultimately show ?thesis
    using ok db stay by (simp add: platform_tables_def user_db_ok_def accounts_stay_def)
qed

text \<open>Tables that came from \<open>d0\<close>: the owners of communities evolved, which is what a cache relies on.\<close>

definition grown_from :: "pg_env \<Rightarrow> database \<Rightarrow> database \<Rightarrow> bool" where
  "grown_from P d0 d \<longleftrightarrow> platform_tables d \<and> owners_evolve P d0 d"

lemma grown_from_tables: "grown_from P d0 d \<Longrightarrow> platform_tables d"
  by (simp add: grown_from_def)

lemma grown_from_refl: "grown_from P d d = platform_tables d"
  by (simp add: grown_from_def)

lemma grown_from_stay:
  assumes "grown_from P d0 d" and "db_ok d'" and "accounts_stay d d'" and "owners_evolve P d d'"
  shows "grown_from P d0 d'"
  using assms platform_tables_stay [of d d'] owners_evolve_trans [of P d0 d d'] by (simp add: grown_from_def)

lemma stmt_keeps_tables:
  assumes "stmt_keeps db_ok stmt" and "stmt_rel accounts_stay stmt" and "stmt_rel (owners_evolve P) stmt"
  shows "stmt_keeps (grown_from P d0) stmt"
proof (rule stmt_keepsI)
  fix t d x d' assume ok: "grown_from P d0 d" and run: "stmt t d = Inr (x, d')"
  have "db_ok d'"
    using assms(1) platform_tables_db_ok [OF grown_from_tables [OF ok]] run by (auto simp: stmt_keeps_def)
  moreover have "accounts_stay d d'" "owners_evolve P d d'" using assms(2,3) run by (auto simp: stmt_rel_def)
  ultimately show "grown_from P d0 d'" by (rule grown_from_stay [OF ok])
qed

text \<open>The services of communities and of users.\<close>

lemma evolving_platform: "evolving P (\<lambda>s :: community_svc. grown_from P d0 (db s))"
  unfolding evolving_def
  by (auto intro: grown_from_stay platform_tables_db_ok grown_from_tables)

lemmas community_tables =
  preserves_community_handlers [OF handler_safe_db [where Q = "grown_from P d0", OF evolving_platform]]
  preserves_db_CreateCommunity [where Q = "grown_from P d0", OF evolving_platform]
  for P d0

lemma user_handler_safe_platform: "user_handler_safe P (\<lambda>s. grown_from P d0 (db s))"
  unfolding user_handler_safe_def user_evolving_def
  by (intro conjI allI impI preserves_user_caches_db)
     (auto intro: grown_from_stay user_db_ok_db platform_tables_user grown_from_tables)

lemmas user_tables = preserves_user_handlers [OF user_handler_safe_platform]

text \<open>The auth service adds accounts.\<close>

lemma sql_insert_user_tables: "stmt_keeps (grown_from P d0) (sql_insert_user P nick email h)"
proof (rule stmt_keepsI)
  fix t d x d' assume old: "grown_from P d0 d" and run: "sql_insert_user P nick email h t d = Inr (x, d')"
  let ?r = "new_user P nick email h t d"
  note ok = grown_from_tables [OF old]
  from sql_insert_user_InrD [OF run] have fresh: "\<not> has_user d (u_id ?r)" "email \<notin> u_email ` set (users d)"
    and d': "d' = d\<lparr>users := users d @ [?r], uuid_count := Suc (uuid_count d)\<rparr>" by (simp_all add: new_user_def)
  have "db_ok d'" unfolding d' using platform_tables_db_ok [OF ok] fresh(1) by (rule db_ok_add_user)
  moreover have "has_user d' u" if "has_user d u" for u using that by (auto simp: d' has_user_def)
  ultimately have "platform_tables d'"
    using ok fresh(2)
    by (auto simp: platform_tables_def user_db_ok_def relations_ok_def files_ok_def d' new_user_def)
  moreover have "owners_evolve P d0 d'"
    using old owners_evolve_trans [of P d0 d d'] owners_evolve_same [of d' d P]
    by (simp add: grown_from_def d')
  ultimately show "grown_from P d0 d'" by (simp add: grown_from_def)
qed

lemma auth_calls_tables:
  "preserves (\<lambda>s. grown_from P d0 (db s)) (repo_CreateUser P nick email h)"
  "preserves (\<lambda>s. Q (db s)) (repo_GetUserByEmail email)"
  "preserves (\<lambda>s. Q (db s)) (hashPassword E pw)"
  "preserves (\<lambda>s. Q (db s)) (generateTokenPair E k u)"
  "preserves (\<lambda>s. Q (db s)) (redis_get key)" "preserves (\<lambda>s. Q (db s)) (redis_del key)"
proof -
  show "preserves (\<lambda>s. grown_from P d0 (db s)) (repo_CreateUser P nick email h)"
    unfolding repo_CreateUser_def
    by (intro preserves_intros preserves_pg_query_row stmt_safe_db sql_insert_user_tables)
  show "preserves (\<lambda>s. Q (db s)) (repo_GetUserByEmail email)"
    unfolding repo_GetUserByEmail_def
    by (intro preserves_intros keeps_preserves [where f = db] keeps_db_pg_query_row reads_only_select_user)
  show "preserves (\<lambda>s. Q (db s)) (hashPassword E pw)"
    unfolding hashPassword_def by (auto simp: preserves_def Let_def split: sum.split)
  show "preserves (\<lambda>s. Q (db s)) (generateTokenPair E k u)"
    unfolding generateTokenPair_def
    by (intro preserves_intros keeps_preserves [where f = db])
  show "preserves (\<lambda>s. Q (db s)) (redis_get key)" "preserves (\<lambda>s. Q (db s)) (redis_del key)"
    by (rule keeps_preserves [where f = db], intro preserves_intros)+
qed

lemma auth_tables:
  "preserves (\<lambda>s. grown_from P d0 (db s)) (Register P E k email pw nick)"
  "preserves (\<lambda>s. grown_from P d0 (db s)) (Login E k email pw)"
  "preserves (\<lambda>s. grown_from P d0 (db s)) (RefreshToken E k tok)"
  unfolding Register_def Login_def RefreshToken_def Let_def
  by (intro preserves_intros auth_calls_tables)+

text \<open>The file service changes the table of files only.\<close>

lemma platform_tables_files:
  "user_db_ok (d\<lparr>file_metadata := fs\<rparr>) = user_db_ok d" "users (d\<lparr>file_metadata := fs\<rparr>) = users d"
  "owners_evolve P d0 (d\<lparr>file_metadata := fs\<rparr>) = owners_evolve P d0 d"
  by (simp_all add: user_db_ok_def relations_ok_def has_user_def)
    (simp add: owners_evolve_def owner_of_def)

lemma file_stmts_tables:
  "fm_status f \<in> {''ready'', ''uploading''} \<Longrightarrow> stmt_keeps (grown_from P d0) (sql_insert_file P f)"
  "stmt_keeps (grown_from P d0) (sql_update_file_status P i ''ready'')"
  "stmt_keeps (grown_from P d0) (sql_delete_file P i)"
proof -
  have changes: "\<exists>fs. d' = d\<lparr>file_metadata := fs\<rparr>"
    if "sql_insert_file P f t d = Inr (x, d') \<or> sql_update_file_status P i ''ready'' t d = Inr (x, d') \<or>
        sql_delete_file P i t d = Inr (x, d')" for t d d' x
    using that by (auto simp: sql_insert_file_def sql_update_file_status_def sql_delete_file_def uuid_param_def
        split: option.splits if_splits)
  have rest: "user_db_ok d' \<and> distinct (map u_email (users d')) \<and> owners_evolve P d0 d'"
    if "grown_from P d0 d" "sql_insert_file P f t d = Inr (x, d') \<or>
        sql_update_file_status P i ''ready'' t d = Inr (x, d') \<or> sql_delete_file P i t d = Inr (x, d')" for t d d' x
    using changes [OF that(2)] that(1)
    by (auto simp: grown_from_def platform_tables_def platform_tables_files)
  show "fm_status f \<in> {''ready'', ''uploading''} \<Longrightarrow> stmt_keeps (grown_from P d0) (sql_insert_file P f)"
    using rest files_ok_stmts(1) by (intro stmt_keepsI) (metis grown_from_def platform_tables_def)
  show "stmt_keeps (grown_from P d0) (sql_update_file_status P i ''ready'')"
    using rest files_ok_stmts(2) by (intro stmt_keepsI) (metis grown_from_def platform_tables_def)
  show "stmt_keeps (grown_from P d0) (sql_delete_file P i)"
    using rest files_ok_stmts(3) by (intro stmt_keepsI) (metis grown_from_def platform_tables_def)
qed

lemma file_repo_tables:
  "fm_status f \<in> {''ready'', ''uploading''} \<Longrightarrow>
     preserves (\<lambda>s. grown_from P d0 (db s)) (repo_InsertFileMeta P f)"
  "preserves (\<lambda>s. grown_from P d0 (db s)) (repo_DeleteFileMeta P i)"
  unfolding repo_InsertFileMeta_def repo_DeleteFileMeta_def
  by (intro preserves_intros preserves_pg_exec stmt_safe_db file_stmts_tables; assumption)+

lemma file_tables:
  "preserves (\<lambda>s. grown_from P d0 (db s)) (UploadFile E P u i n t x)"
  "preserves (\<lambda>s. grown_from P d0 (db s)) (GetFilePresignedURL E P u i)"
  "preserves (\<lambda>s. grown_from P d0 (db s)) (DeleteFile P u i)"
  unfolding UploadFile_def put_thumbnail_def GetFilePresignedURL_def DeleteFile_def signed_in_def Let_def
  by (intro preserves_intros file_repo_tables; simp)+

text \<open>The notify service moves cursors, the search service only reads.\<close>

lemma cursor_stmts_tables:
  "stmt_keeps (grown_from P d0) (sql_mark_channel_read P u c)"
  "stmt_keeps (grown_from P d0) (sql_mark_dm_read P u c)"
proof -
  have "stmt_rel accounts_stay (sql_mark_channel_read P u c)" "stmt_rel accounts_stay (sql_mark_dm_read P u c)"
    by (rule stmt_relI;
        auto simp: sql_mark_channel_read_def sql_mark_dm_read_def stmt_cases advance_channel_def advance_dm_def
          dest!: put_channel_cursor_InrD put_dm_cursor_InrD intro!: accounts_stay_same)+
  moreover have owners: "stmt_rel (owners_evolve P) (sql_mark_channel_read P u c)"
    "stmt_rel (owners_evolve P) (sql_mark_dm_read P u c)"
    by (rule stmt_relI;
        auto simp: sql_mark_channel_read_def sql_mark_dm_read_def stmt_cases advance_channel_def advance_dm_def
          dest!: put_channel_cursor_InrD put_dm_cursor_InrD intro!: owners_evolve_same)+
  ultimately show "stmt_keeps (grown_from P d0) (sql_mark_channel_read P u c)"
    "stmt_keeps (grown_from P d0) (sql_mark_dm_read P u c)"
    using cursor_stmts_keep by (auto intro!: stmt_keeps_tables owners)
qed

lemma notify_tables:
  "preserves (\<lambda>s :: 'z infra_scheme. grown_from P d0 (db s)) (GetUnreadCounts P u)"
  "preserves (\<lambda>s :: 'z infra_scheme. grown_from P d0 (db s)) (MarkDMRead P u c)"
  "preserves (\<lambda>s :: 'z infra_scheme. grown_from P d0 (db s)) (MarkChannelRead P u c)"
  unfolding GetUnreadCounts_def MarkDMRead_def MarkChannelRead_def
  by (intro preserves_intros preserves_store_reads preserves_store_writes stmt_safe_db cursor_stmts_tables
      calls_safe_db)+

lemma search_tables: "preserves (\<lambda>s :: 'z infra_scheme. Q (db s)) (Search P E sched u msg)"
proof -
  have "preserves (\<lambda>s :: 'z infra_scheme. Q (db s)) (wait_all (run_task P E q u lim) ts acc)" for q lim ts acc
  proof (induction ts arbitrary: acc)
    case (Cons t ts)
    have "preserves (\<lambda>s :: 'z infra_scheme. Q (db s)) (run_task P E q u lim t a)" for a
      by (rule keeps_preserves [where f = db]) (rule keeps_db_run_task)
    then show ?case using Cons by (auto intro!: preserves_intros split: sum.split)
  qed (auto intro: preserves_intros)
  then show ?thesis unfolding Search_def Let_def by (intro preserves_intros)
qed

lemma presence_tables: "preserves (\<lambda>s :: 'z infra_scheme. Q (db s)) (api_GetPresence c r)"
proof -
  have "preserves (\<lambda>s :: 'z infra_scheme. Q (db s)) (presence_loop ids online offline)" for ids online offline
    by (induction ids arbitrary: online offline) (auto intro!: preserves_intros split: sum.split)
  then show ?thesis unfolding api_GetPresence_def Let_def by (intro preserves_intros)
qed

section \<open>Integrity\<close>

lemma upload_tables: "preserves (\<lambda>s. grown_from P d0 (db s)) (api_UploadFile P A E newID r)"
  unfolding api_UploadFile_def Let_def
  by (cases "hr_form r") (auto split: sum.split intro!: preserves_intros file_tables calls_safe_db)

lemma grown_serve_endpoint:
  "preserves (\<lambda>p. grown_from (pe_pg E) d0 (db p)) (serve_endpoint E newID ep r)"
proof -
  note tables = community_tables user_tables auth_tables file_tables notify_tables search_tables presence_tables
    upload_tables
  show ?thesis
    by (cases ep)
       (simp_all only: serve_endpoint.simps api_community_defs api_user_defs api_auth_defs api_GetFileURL_def
         api_DeleteFile_def api_notify_defs api_Search_def Let_def,
        (intro community.preserves_on user.preserves_on auth.preserves_on files.preserves_on
          stateless.preserves_on preserves_intros tables calls_safe_db)+)
qed

text \<open>What the REST interface keeps: the tables, and the caches of the community service.\<close>

definition platform_ok :: "pg_env \<Rightarrow> platform \<Rightarrow> bool" where
  "platform_ok P p \<longleftrightarrow> platform_tables (db p) \<and> svc_ok P (community_view p)"

lemma community_view_put: "community_view (put_community p s) = s"
  by (simp add: view_defs)

lemma db_community_view: "db (community_view p) = db p"
  by (simp add: view_defs)

lemma svc_ok_on_community:
  assumes "preserves (svc_ok P) m" and "svc_ok P (community_view p)"
  shows "svc_ok P (community_view (snd (run_state (on_service community_view put_community m) p)))"
  using assms by (simp add: preserves_def on_service_def community_view_put case_prod_unfold)

lemma svc_ok_other_view:
  assumes "pg_env_ok P" and "svc_ok P (community_view p)" and "grown_from P (db p) (db p')"
    and "pl_community p' = pl_community p"
  shows "svc_ok P (community_view p')"
  using assms svc_ok_other_tables [of P "infra.truncate p" "pl_community p" "infra.truncate p'"]
  by (simp add: community_view_def grown_from_def platform_tables_db_ok)

lemma community_endpoints_safe:
  assumes "pg_env_ok P"
  shows "preserves (svc_ok P) (api_ListCommunities P A r)" "preserves (svc_ok P) (api_CreateCommunity P A r)"
    "preserves (svc_ok P) (api_GetCommunity P A r)" "preserves (svc_ok P) (api_UpdateCommunity P A r)"
    "preserves (svc_ok P) (api_CreateChannel P A r)" "preserves (svc_ok P) (api_GetChannels P A r)"
    "preserves (svc_ok P) (api_AddMember P A r)" "preserves (svc_ok P) (api_RemoveMember P A r)"
    "preserves (svc_ok P) (api_ListMembers P A r)" "preserves (svc_ok P) (api_JoinCommunity P A r)"
    "preserves (svc_ok P) (api_LeaveCommunity P A r)" "preserves (svc_ok P) (api_UpdateChannel P A r)"
    "preserves (svc_ok P) (api_SendMessage P A r)" "preserves (svc_ok P) (api_GetHistory P A r)"
    "preserves (svc_ok P) (api_DeleteMessage P A r)" "preserves (svc_ok P) (api_EditMessage P A r)"
  unfolding api_community_defs Let_def
  by (intro preserves_intros calls_safe_svc_ok preserves_svc_ok_CreateCommunity [OF assms]
      preserves_community_handlers [OF handler_safe_svc_ok [OF assms]])+

lemma endpoint_keeps_svc_ok:
  assumes P: "pg_env_ok (pe_pg E)" and ok: "svc_ok (pe_pg E) (community_view p)"
    and grown: "grown_from (pe_pg E) (db p) (db (snd (run_state (serve_endpoint E newID ep r) p)))"
  shows "svc_ok (pe_pg E) (community_view (snd (run_state (serve_endpoint E newID ep r) p)))"
proof -
  have community: "svc_ok (pe_pg E) (community_view
      (snd (run_state (on_service community_view put_community m) p)))" if "preserves (svc_ok (pe_pg E)) m"
    for m :: "(community_svc, http_response) state" by (rule svc_ok_on_community [OF that ok])
  note other = svc_ok_other_view [OF P ok _ user.on_keeps_caches] svc_ok_other_view [OF P ok _ auth.on_keeps_caches]
    svc_ok_other_view [OF P ok _ files.on_keeps_caches] svc_ok_other_view [OF P ok _ stateless.on_keeps_caches]
  show ?thesis
    using grown ok
    by (cases ep) (simp_all add: community community_endpoints_safe [OF P] other notImplemented_def)
qed

lemma preserves_serve_endpoint:
  assumes "pg_env_ok (pe_pg E)"
  shows "preserves (platform_ok (pe_pg E)) (serve_endpoint E newID ep r)"
proof (rule preservesI)
  fix p assume ok: "platform_ok (pe_pg E) p"
  let ?p' = "snd (run_state (serve_endpoint E newID ep r) p)"
  have "grown_from (pe_pg E) (db p) (db ?p')"
    using grown_serve_endpoint [of E "db p"] ok by (simp add: preserves_def platform_ok_def grown_from_refl)
  with endpoint_keeps_svc_ok [OF assms _ this] ok show "platform_ok (pe_pg E) ?p'"
    by (simp add: platform_ok_def grown_from_tables)
qed

lemma preserves_serve_http:
  assumes P: "pg_env_ok (pe_pg E)"
  shows "preserves (platform_ok (pe_pg E)) (serve_http E newID meth path r)"
proof -
  have "preserves (platform_ok (pe_pg E)) (dispatch E newID routes meth path r)" for routes path r
    unfolding dispatch_def
    by (auto split: option.split intro!: preserves_intros preserves_serve_endpoint [OF P])
  moreover have "calls_safe (platform_ok (pe_pg E))"
    by (simp add: calls_safe_def platform_ok_def view_defs svc_ok_def)
  ultimately show ?thesis
    by (cases "(E, newID, meth, path, r)" rule: serve_http.cases)
       (auto split: list.split intro!: preserves_intros)
qed

text \<open>Any sequence of requests; each brings the identifier the gateway would give an uploaded file.\<close>

definition serve_all ::
  "('q, 'r::linorder) platform_env \<Rightarrow> (string \<times> string \<times> string list \<times> http_request) list \<Rightarrow>
   (platform, unit) state" where
  "serve_all E reqs =
     for_each (\<lambda>(newID, meth, path, r). no_result (serve_http E newID meth path r)) reqs"

lemma preserves_serve_all:
  assumes P: "pg_env_ok (pe_pg E)"
  shows "preserves (platform_ok (pe_pg E)) (serve_all E reqs)"
  unfolding serve_all_def no_result_def
  by (auto split: prod.split intro!: preserves_intros preserves_serve_http [OF P])

end
