(* ===== verification/ApiFacts.thy ===== *)
theory ApiFacts
  imports Platform CommunityFacts
begin

text \<open>
  What a client of the REST interface can rely on: without a valid token nothing but the account
  routes does anything, the communities change only for a caller who may change them, internal
  errors stay inside; and where the handlers lose what a request says.
\<close>

section \<open>Examples\<close>

text \<open>The three users of \<open>demo_db\<close>, whose tokens are their names after an expiry in seconds.\<close>

definition demo_api :: api_env where
  "demo_api =
     \<lparr>jwt_sign = jwt_sign demo_auth, jwt_parse = jwt_parse demo_auth, bcrypt_hash = bcrypt_hash demo_auth,
      bcrypt_compare = bcrypt_compare demo_auth, sha256_hex = sha256_hex demo_auth,
      cause_text = (\<lambda>_. ''cause''), rpc_failure = (CodeUnavailable, ''connection lost''),
      filesPublicBase = ''http://files/'', jwtSecret = ''k''\<rparr>"

definition demo_platform_env :: "(string, nat) platform_env" where
  "demo_platform_env =
     \<lparr>pe_pg = demo_env, pe_api = demo_api, pe_file = demo_files, pe_search = demo_search, pe_sched = rev,
      pe_redis = True\<rparr>"

definition demo_platform :: platform where
  "demo_platform =
     infra.extend (demo_infra demo_db)
       (platform.fields (new_instance []) (NewCache 10000 []) (NewCache 10000 []) 0 Map.empty Map.empty 0)"

definition demo_http :: "string \<Rightarrow> (string \<times> json) list \<Rightarrow> http_request" where
  "demo_http auth kvs =
     \<lparr>hr_authorization = auth, hr_params = [], hr_query = [], hr_body = Some (JObj kvs), hr_form = FormUnreadable\<rparr>"

definition demo_found :: platform where
  "demo_found =
     snd (run_state (serve_http demo_platform_env ''f'' ''POST'' [''api'', ''v1'', ''communities'']
       (demo_http ''Bearer 9.ua'' [(''Name'', JStr ''Home'')])) demo_platform)"

lemma demo_platform_ok: "platform_ok demo_env demo_platform"
proof -
  have "community_view demo_platform = demo_start"
    by (simp add: view_defs demo_platform_def demo_start_def demo_infra_def)
  then show ?thesis
    using demo_svc_ok(1) demo_db_ok(1)
    by (simp add: platform_ok_def platform_tables_def user_db_ok_def relations_ok_def files_ok_def demo_platform_def
        demo_infra_def infra.defs demo_db_def empty_db_def demo_user_def)
qed

lemma demo_created_http:
  "status_of (fst (run_state (serve_http demo_platform_env ''f'' ''POST'' [''api'', ''v1'', ''communities'']
     (demo_http ''Bearer 9.ua'' [(''Name'', JStr ''Home'')])) demo_platform)) = 201"
  "map comm_owner_id (communities (db demo_found)) = [''ua'']"
  by code_simp+

text \<open>C1: Whatever requests arrive at the REST interface, in any order and with any failures of the
  database, Redis, the object store, NATS and the network between the services, the tables that all
  services share keep their integrity (keys, references, sequence numbers and cursors, relations
  between users, unique emails, files with their uploaders and attachments), and so do the caches
  of the community service: what they hold about an owner is what the tables say.\<close>

theorem platform_integrity:
  assumes "pg_env_ok (pe_pg E)" and "platform_ok (pe_pg E) p"
  shows "platform_ok (pe_pg E) (snd (run_state (serve_all E reqs) p))"
  using preserves_serve_all [OF assms(1)] assms(2) by (simp add: preserves_def)

theorem platform_integrity_witness:
  "platform_ok demo_env (snd (run_state (serve_all demo_platform_env
     [(''f'', ''POST'', [''api'', ''v1'', ''communities''],
       demo_http ''Bearer 9.ua'' [(''Name'', JStr ''Home'')])]) demo_platform))"
  using platform_integrity [of demo_platform_env demo_platform] demo_platform_ok demo_env_ok
  by (simp add: demo_platform_env_def)

section \<open>Without a token\<close>

lemma jwtAuthMiddleware_cases:
  obtains (refused) body where
      "run_state (jwtAuthMiddleware E k next r) s = (Response 401 body, s)"
  | (passed) tok u where "header_token (hr_authorization r) = Some tok" "jwt_parse E k (now s) tok = Inr u"
      "run_state (jwtAuthMiddleware E k next r) s = run_state (next r) s"
proof -
  let ?run = "run_state (jwtAuthMiddleware E k next r) s" and ?h = "hr_authorization r"
  consider "?h = []" | "?h \<noteq> []" "\<not> (length (split_space ?h) = 2 \<and> equal_fold (split_space ?h ! 0) ''Bearer'')"
    | a tok where "?h \<noteq> []" "split_space ?h = [a, tok]" "equal_fold a ''Bearer''"
    by (cases "split_space ?h"; cases "tl (split_space ?h)"; cases "tl (tl (split_space ?h))") auto
  then show thesis
  proof cases
    case (3 a tok)
    then have run: "?run = (case (if tok = [] then Inl (Errorf ''empty token'')
        else wrap_err ''parse token'' (jwt_parse E k (now s) tok)) of
          Inl e \<Rightarrow> (writeError 401 ''invalid or expired token'', s) | Inr u \<Rightarrow> run_state (next r) s)"
      by (simp add: jwtAuthMiddleware_def run_simps split: sum.split)
    show thesis
    proof (cases "tok = [] \<or> isl (jwt_parse E k (now s) tok)")
      case True
      with run show thesis by (intro refused) (auto simp: writeError_def isl_def)
    next
      case False
      then obtain u where "tok \<noteq> []" "jwt_parse E k (now s) tok = Inr u"
        by (cases "jwt_parse E k (now s) tok") auto
      with 3 run show thesis by (intro passed [of tok u]) (simp_all add: header_token_def)
    qed
  qed (auto simp: jwtAuthMiddleware_def writeError_def run_simps Let_def intro!: refused)
qed

text \<open>The user a header speaks for at an instant.\<close>

definition caller :: "api_env \<Rightarrow> http_request \<Rightarrow> int \<Rightarrow> string option" where
  "caller A r t =
     (case header_token (hr_authorization r) of
        None \<Rightarrow> None
      | Some tok \<Rightarrow> (case jwt_parse A (jwtSecret A) t tok of Inl e \<Rightarrow> None | Inr u \<Rightarrow> Some u))"

lemma serve_http_protected:
  assumes "take 1 path \<noteq> [''auth'']"
  shows "serve_http E newID meth (''api'' # ''v1'' # path) r =
    jwtAuthMiddleware (pe_api E) (jwtSecret (pe_api E)) (dispatch E newID api_routes meth path) r"
  using assms by (cases path) auto

text \<open>C6: Outside the account routes a request that carries no token, or one that the secret does
  not accept at that instant, is refused with 401 and changes nothing at all, whatever its method,
  path, query and body are, and whether or not there is such a route.\<close>

theorem rest_needs_token:
  assumes "take 1 path \<noteq> [''auth'']" and "caller (pe_api E) r (now p) = None"
  shows "\<exists>body. run_state (serve_http E newID meth (''api'' # ''v1'' # path) r) p = (Response 401 body, p)"
  unfolding serve_http_protected [OF assms(1)]
  by (cases rule: jwtAuthMiddleware_cases [of "pe_api E" "jwtSecret (pe_api E)" "dispatch E newID api_routes meth path" r p])
     (use assms(2) in \<open>auto simp: caller_def\<close>)

theorem rest_needs_token_witness:
  "\<exists>body. run_state (serve_http demo_platform_env ''f'' ''POST'' [''api'', ''v1'', ''communities'']
     (demo_http ''Bearer 0.ua'' [(''Name'', JStr ''Home'')])) demo_platform = (Response 401 body, demo_platform)"
proof -
  have "caller (pe_api demo_platform_env) (demo_http ''Bearer 0.ua'' [(''Name'', JStr ''Home'')]) (now demo_platform) = None"
    by code_simp
  then show ?thesis by (intro rest_needs_token) simp_all
qed

section \<open>Authority, end to end\<close>

text \<open>The request that the community service gets from a REST request of the user \<open>u\<close>, when the
  gateway makes one. \<open>AddMember\<close> joins the caller.\<close>

fun as_request :: "endpoint \<Rightarrow> http_request \<Rightarrow> string \<Rightarrow> community_request option" where
  "as_request EpCreateCommunity r u =
     (case decode_body r read_community_body of
        Inl err \<Rightarrow> None
      | Inr b \<Rightarrow> Some (ReqCreateCommunity u (ccr_Name b) (ccr_Description b) (ccr_IconURL b)))"
| "as_request EpUpdateCommunity r u =
     (case decode_body r read_community_body of
        Inl err \<Rightarrow> None
      | Inr b \<Rightarrow> Some (ReqUpdateCommunity u (URLParam r ''id'') (ccr_Name b) (ccr_Description b) (ccr_IconURL b)))"
| "as_request EpCreateChannel r u =
     (case decode_body r read_channel_body of
        Inl err \<Rightarrow> None
      | Inr b \<Rightarrow> Some (ReqCreateChannel u (URLParam r ''id'') (chr_Name b) (chr_Topic b)
          (channelTypeFromString (chr_Type b)) (chr_Position b)))"
| "as_request EpUpdateChannel r u =
     (case decode_body r read_channel_body of
        Inl err \<Rightarrow> None
      | Inr b \<Rightarrow> Some (ReqUpdateChannel u (URLParam r ''id'') (chr_Name b) (chr_Topic b)
          (channelTypeFromString (chr_Type b)) (chr_Position b)))"
| "as_request EpAddMember r u = Some (ReqJoinCommunity u (URLParam r ''id''))"
| "as_request EpJoinCommunity r u = Some (ReqJoinCommunity u (URLParam r ''id''))"
| "as_request EpLeaveCommunity r u = Some (ReqLeaveCommunity u (URLParam r ''id''))"
| "as_request EpRemoveMember r u = Some (ReqKickMember u (URLParam r ''id'') (URLParam r ''uid''))"
| "as_request EpSendMessage r u =
     (case decode_body r read_message_body of
        Inl err \<Rightarrow> None
      | Inr b \<Rightarrow> Some (ReqSendMessage u (URLParam r ''id'') (smb_Content b) (smb_FileIDs b)))"
| "as_request EpDeleteMessage r u = Some (ReqDeleteMessage u (URLParam r ''mid''))"
| "as_request EpEditMessage r u =
     (case decode_body r (\<lambda>kvs. body_str kvs ''content'') of
        Inl err \<Rightarrow> None
      | Inr content \<Rightarrow> Some (ReqEditMessage u (URLParam r ''mid'') content))"
| "as_request _ r u = None"

definition community_endpoints :: "endpoint list" where
  "community_endpoints =
     [EpListCommunities, EpCreateCommunity, EpGetCommunity, EpUpdateCommunity, EpCreateChannel, EpGetChannels,
      EpAddMember, EpRemoveMember, EpListMembers, EpJoinCommunity, EpLeaveCommunity, EpUpdateChannel,
      EpSendMessage, EpGetHistory, EpDeleteMessage, EpEditMessage]"

text \<open>The token is looked at twice, in the gateway and in the service, a moment apart.\<close>

definition rest_authority :: "pg_env \<Rightarrow> api_env \<Rightarrow> database \<Rightarrow> endpoint \<Rightarrow> http_request \<Rightarrow> bool" where
  "rest_authority P A d ep r \<longleftrightarrow>
     (\<exists>t u req. caller A r t = Some u \<and> as_request ep r u = Some req \<and> authority P d req)"

lemma rest_authorityI:
  "caller A r t = Some u \<Longrightarrow> as_request ep r u = Some req \<Longrightarrow> authority P d req \<Longrightarrow> rest_authority P A d ep r"
  by (auto simp: rest_authority_def)

lemma changes_only_weaken: "changes_only P d B m \<Longrightarrow> (B \<Longrightarrow> A) \<Longrightarrow> changes_only P d A m"
  unfolding changes_only_def by (erule triple_weaken) auto

lemma changes_only_ret: "changes_only P d A m \<Longrightarrow> changes_only P d A (do { x \<leftarrow> m; ret (f x) })"
  by (auto simp: changes_only_def triple_def run_simps split: prod.splits)

lemma changes_only_same: "changes_only P d A (ret x)"
  by (intro changes_only_none preserves_intros)

lemma changes_only_http:
  "changes_only P d A m \<Longrightarrow> changes_only P d A (respond B m k)"
  "changes_only P d A n \<Longrightarrow> changes_only P d A (need b msg n)"
  unfolding respond_def need_def by (simp_all add: changes_only_ret changes_only_same)

lemma changes_only_with_body:
  "(\<And>x. decode_body r f = Inr x \<Longrightarrow> changes_only P d A (h x)) \<Longrightarrow> changes_only P d A (with_body r f h)"
  unfolding with_body_def by (simp add: changes_only_same split: sum.split)

lemma changes_only_service_call:
  assumes g: "\<And>t u. caller B r t = Some u \<Longrightarrow> changes_only P d A (g u)"
  shows "changes_only P d A (service_call B r proc g)"
proof -
  have h: "forwardAuth r = hr_authorization r" by (simp add: forwardAuth_def Let_def)
  have "changes_only P d A (AuthInterceptor B (jwtSecret B) [] g proc (forwardAuth r))"
    unfolding changes_only_def
  proof (rule tripleI)
    fix s x s' assume at: "at_db P d s"
      and run: "run_state (AuthInterceptor B (jwtSecret B) [] g proc (forwardAuth r)) s = (x, s')"
    have "proc \<notin> set []" by simp
    then show "db s' = d \<or> A"
    proof (cases rule: AuthInterceptor_cases [of proc "[]" B "jwtSecret B" g "forwardAuth r" s])
      case (refused m)
      with run at show ?thesis by (simp add: at_db_def)
    next
      case (passed tok u)
      then have "caller B r (now s) = Some u" by (simp add: caller_def h)
      from tripleD [OF g [OF this, unfolded changes_only_def] _ at] passed(3) run show ?thesis by metis
    qed
  qed
  then show ?thesis
    unfolding service_call_def over_network_def
    by (intro changes_only_after preserves_next_outcome)
       (auto intro: changes_only_ret changes_only_same split: outcome.split)
qed

text \<open>Each handler of the community service, as \<open>serve_changes\<close> has it.\<close>

lemma changes_only_serve:
  assumes "db_ok d" and "ids_used P d"
  shows "changes_only P d (authority P d (ReqCreateCommunity u n ds url)) (CreateCommunity P u n ds url)"
    and "changes_only P d (authority P d (ReqUpdateCommunity u c n ds url)) (UpdateCommunity P u c n ds url)"
    and "changes_only P d (authority P d (ReqCreateChannel u c n tp ty pos)) (CreateChannel P u c n tp ty pos)"
    and "changes_only P d (authority P d (ReqUpdateChannel u c n tp ty pos)) (UpdateChannel P u c n tp ty pos)"
    and "changes_only P d (authority P d (ReqJoinCommunity u c)) (JoinCommunity P u c)"
    and "changes_only P d (authority P d (ReqLeaveCommunity u c)) (LeaveCommunity P u c)"
    and "changes_only P d (authority P d (ReqKickMember u c v)) (KickMember P u c v)"
    and "changes_only P d (authority P d (ReqSendMessage u c content fs)) (SendMessage P u c content fs)"
    and "changes_only P d (authority P d (ReqDeleteMessage u m)) (DeleteMessage P u m)"
    and "changes_only P d (authority P d (ReqEditMessage u m content)) (EditMessage P u m content)"
  using serve_changes [OF assms]
  by (simp_all only: authority.simps manages_channel_def wrote_message_def CreateCommunity_authority
      UpdateCommunity_authority CreateChannel_authority UpdateChannel_authority JoinCommunity_authority
      LeaveCommunity_authority KickMember_authority SendMessage_authority DeleteMessage_authority
      EditMessage_authority assms)

lemma community_endpoint_changes:
  assumes "db_ok d" and "ids_used P d"
  shows "changes_only P d (rest_authority P B d EpListCommunities r) (api_ListCommunities P B r)"
    and "changes_only P d (rest_authority P B d EpCreateCommunity r) (api_CreateCommunity P B r)"
    and "changes_only P d (rest_authority P B d EpGetCommunity r) (api_GetCommunity P B r)"
    and "changes_only P d (rest_authority P B d EpUpdateCommunity r) (api_UpdateCommunity P B r)"
    and "changes_only P d (rest_authority P B d EpCreateChannel r) (api_CreateChannel P B r)"
    and "changes_only P d (rest_authority P B d EpGetChannels r) (api_GetChannels P B r)"
    and "changes_only P d (rest_authority P B d EpAddMember r) (api_AddMember P B r)"
    and "changes_only P d (rest_authority P B d EpRemoveMember r) (api_RemoveMember P B r)"
    and "changes_only P d (rest_authority P B d EpListMembers r) (api_ListMembers P B r)"
    and "changes_only P d (rest_authority P B d EpJoinCommunity r) (api_JoinCommunity P B r)"
    and "changes_only P d (rest_authority P B d EpLeaveCommunity r) (api_LeaveCommunity P B r)"
    and "changes_only P d (rest_authority P B d EpUpdateChannel r) (api_UpdateChannel P B r)"
    and "changes_only P d (rest_authority P B d EpSendMessage r) (api_SendMessage P B r)"
    and "changes_only P d (rest_authority P B d EpGetHistory r) (api_GetHistory P B r)"
    and "changes_only P d (rest_authority P B d EpDeleteMessage r) (api_DeleteMessage P B r)"
    and "changes_only P d (rest_authority P B d EpEditMessage r) (api_EditMessage P B r)"
  unfolding api_community_defs Let_def
  by (intro changes_only_http changes_only_with_body changes_only_service_call reads_authority
        changes_only_serve [OF assms, THEN changes_only_weaken];
      (erule rest_authorityI, simp, assumption))+

lemma on_community_changes:
  assumes "svc_ok P (community_view p)" and "changes_only P (db p) A m"
    and "db (snd (run_state (on_service community_view put_community m) p)) \<noteq> db p"
  shows A
proof -
  have "at_db P (db p) (community_view p)"
    using assms(1) by (simp add: at_db_def community.shared_fields)
  with assms(2,3) show A
    by (auto simp: changes_only_def triple_def on_service_def community.shared_fields split: prod.splits)
qed

lemma endpoint_changes:
  assumes ok: "svc_ok (pe_pg E) (community_view p)" and ep: "ep \<in> set community_endpoints"
    and changes: "db (snd (run_state (serve_endpoint E newID ep r) p)) \<noteq> db p"
  shows "rest_authority (pe_pg E) (pe_api E) (db p) ep r"
proof -
  have tables: "db_ok (db p)" "ids_used (pe_pg E) (db p)"
    using ok by (auto simp: svc_ok_def community.shared_fields)
  show ?thesis
    using changes ep
    by (cases ep)
       (simp_all add: community_endpoints_def,
        (erule on_community_changes [OF ok, rotated], rule community_endpoint_changes [OF tables])+)
qed

lemma find_route_auth: "find_route api_routes meth (''auth'' # path) = None"
  by (simp add: api_routes_def)

text \<open>C3: End to end: when a REST request for a community, a channel, a membership or a message
  changes the tables, whatever it then answers, its header carries a token that the secret accepts
  for some user, and this user had the authority for the request that the community service gets:
  owner, role permission, author or public community, as the tables had it.\<close>

theorem rest_changes_need_authority:
  assumes "platform_ok (pe_pg E) p" and "find_route api_routes meth path = Some (ep, kvs)"
    and "ep \<in> set community_endpoints"
    and "db (snd (run_state (serve_http E newID meth (''api'' # ''v1'' # path) r) p)) \<noteq> db p"
  shows "rest_authority (pe_pg E) (pe_api E) (db p) ep (r\<lparr>hr_params := kvs\<rparr>)"
proof -
  have path: "take 1 path \<noteq> [''auth'']"
    using assms(2) find_route_auth [of meth "tl path"] by (cases path) auto
  have "db (snd (run_state (serve_endpoint E newID ep (r\<lparr>hr_params := kvs\<rparr>)) p)) \<noteq> db p"
    using assms(4) unfolding serve_http_protected [OF path]
    by (cases rule: jwtAuthMiddleware_cases [of "pe_api E" "jwtSecret (pe_api E)" "dispatch E newID api_routes meth path" r p])
       (simp_all add: dispatch_def assms(2))
  with endpoint_changes assms(1,3) show ?thesis by (auto simp: platform_ok_def)
qed

theorem rest_changes_need_authority_witness:
  "rest_authority demo_env demo_api (db demo_platform) EpCreateCommunity
     (demo_http ''Bearer 9.ua'' [(''Name'', JStr ''Home'')])"
proof -
  have "communities (db demo_platform) = []"
    by (simp add: demo_platform_def demo_infra_def infra.defs demo_db_def empty_db_def)
  then have "db demo_found \<noteq> db demo_platform" using demo_created_http(2) by auto
  moreover have "find_route api_routes ''POST'' [''communities''] = Some (EpCreateCommunity, [])"
    by code_simp
  ultimately show ?thesis
    using rest_changes_need_authority [of demo_platform_env demo_platform "''POST''" "[''communities'']"
        EpCreateCommunity "[]" "''f''" "demo_http ''Bearer 9.ua'' [(''Name'', JStr ''Home'')]"] demo_platform_ok
    by (simp add: demo_platform_env_def demo_found_def community_endpoints_def demo_http_def)
qed

section \<open>What an error tells\<close>










section \<open>What the handlers lose\<close>

text \<open>C39: Adding a member adds the caller: a request to add the user \<open>v\<close> to a community does, to the
  last detail of the answer and of the state, what a request of the caller to join does. Nobody
  can be added by somebody else, and the answer is a success that shows another user than was named.\<close>

theorem add_member_joins_caller:
  assumes "decode_body r (\<lambda>kvs. body_str kvs ''user_id'') = Inr v" and "v \<noteq> []"
  shows "serve_http E newID ''POST'' [''api'', ''v1'', ''communities'', c, ''members''] r =
    serve_http E newID ''POST'' [''api'', ''v1'', ''communities'', c, ''join''] r"
proof -
  have routes: "find_route api_routes ''POST'' [''communities'', c, ''members''] = Some (EpAddMember, [(''id'', c)])"
    "find_route api_routes ''POST'' [''communities'', c, ''join''] = Some (EpJoinCommunity, [(''id'', c)])"
    by (simp_all add: api_routes_def)
  have "decode_body (r\<lparr>hr_params := kvs\<rparr>) f = decode_body r f" for kvs and f :: "(string \<times> json) list \<Rightarrow> go_error + string"
    by (simp add: decode_body_def)
  with assms have "dispatch E newID api_routes ''POST'' [''communities'', c, ''members''] r =
      dispatch E newID api_routes ''POST'' [''communities'', c, ''join''] r"
    by (simp add: dispatch_def routes api_AddMember_def api_JoinCommunity_def with_body_def need_def Let_def)
  then show ?thesis by (simp add: jwtAuthMiddleware_def Let_def)
qed

theorem add_member_joins_caller_witness:
  "serve_http demo_platform_env ''f'' ''POST'' [''api'', ''v1'', ''communities'', ''a'', ''members'']
     (demo_http ''Bearer 9.vb'' [(''user_id'', JStr ''wc'')]) =
   serve_http demo_platform_env ''f'' ''POST'' [''api'', ''v1'', ''communities'', ''a'', ''join'']
     (demo_http ''Bearer 9.vb'' [(''user_id'', JStr ''wc'')])"
proof -
  have "decode_body (demo_http ''Bearer 9.vb'' [(''user_id'', JStr ''wc'')]) (\<lambda>kvs. body_str kvs ''user_id'') = Inr ''wc''"
    by code_simp
  then show ?thesis by (rule add_member_joins_caller) simp
qed

lemma query_offset:
  "key \<noteq> ''offset'' \<Longrightarrow> query_get (r\<lparr>hr_query := (''offset'', v) # hr_query r\<rparr>) key = query_get r key"
  by (simp add: query_get_def)

lemma offset_int_query:
  "key \<noteq> ''offset'' \<Longrightarrow> int32FromQuery (r\<lparr>hr_query := (''offset'', v) # hr_query r\<rparr>) key n = int32FromQuery r key n"
  "key \<noteq> ''offset'' \<Longrightarrow> int64FromQuery (r\<lparr>hr_query := (''offset'', v) # hr_query r\<rparr>) key n = int64FromQuery r key n"
  by (simp_all add: int32FromQuery_def int64FromQuery_def query_offset)

lemma offset_elsewhere:
  "URLParam (r\<lparr>hr_query := q\<rparr>) key = URLParam r key" "forwardAuth (r\<lparr>hr_query := q\<rparr>) = forwardAuth r"
  "with_body (r\<lparr>hr_query := q\<rparr>) f h = with_body r f h" "service_call A (r\<lparr>hr_query := q\<rparr>) proc g = service_call A r proc g"
  by (simp_all add: URLParam_def forwardAuth_def with_body_def decode_body_def service_call_def)

text \<open>No service reads the offset of a page request.\<close>

lemma page_args_of: "page_args (page_of l n) = page_args (Some \<lparr>pg_limit = l, pg_offset = 0, pg_cursor = []\<rparr>)"
  by (simp add: page_of_def page_args_def)

lemma offset_unread:
  "ListCommunities P u (page_of l n) = ListCommunities P u (Some \<lparr>pg_limit = l, pg_offset = 0, pg_cursor = []\<rparr>)"
  "ListMembers P c (page_of l n) = ListMembers P c (Some \<lparr>pg_limit = l, pg_offset = 0, pg_cursor = []\<rparr>)"
  "GetMessages P u c (page_of l n) q = GetMessages P u c (Some \<lparr>pg_limit = l, pg_offset = 0, pg_cursor = []\<rparr>) q"
  "ListFriends P u (page_of l n) = ListFriends P u (Some \<lparr>pg_limit = l, pg_offset = 0, pg_cursor = []\<rparr>)"
  "GetDMHistory P u c (page_of l n) q = GetDMHistory P u c (Some \<lparr>pg_limit = l, pg_offset = 0, pg_cursor = []\<rparr>) q"
  "GetDMConversations P u (page_of l n) = GetDMConversations P u (Some \<lparr>pg_limit = l, pg_offset = 0, pg_cursor = []\<rparr>)"
  by (simp_all add: page_args_of ListCommunities_def ListMembers_def GetMessages_def ListFriends_def GetDMHistory_def
      GetDMConversations_def)

lemma serve_endpoint_offset:
  "serve_endpoint E newID ep (r\<lparr>hr_query := (''offset'', v) # hr_query r\<rparr>) = serve_endpoint E newID ep r"
  by (cases ep)
     (simp_all add: api_community_defs api_user_defs api_auth_defs api_file_defs api_notify_defs api_Search_def
       api_GetPresence_def notImplemented_def offset_unread offset_int_query query_offset offset_elsewhere
       split: upload_form.split sum.split)

text \<open>C40: The offset of a request is lost: whatever a client writes as \<open>offset\<close>, every request is
  served as if it were not there: the handlers send it on, and no service reads it. The lists of
  communities, members, friends and conversations answer whether there is more, but no cursor, so
  nothing after the first page can be asked for.\<close>

theorem rest_offset_ignored:
  "serve_http E newID meth path (r\<lparr>hr_query := (''offset'', v) # hr_query r\<rparr>) = serve_http E newID meth path r"
proof -
  have "dispatch E newID routes meth path (r\<lparr>hr_query := (''offset'', v) # hr_query r\<rparr>) = dispatch E newID routes meth path r"
    for routes path
  proof -
    have "serve_endpoint E newID ep (r\<lparr>hr_query := (''offset'', v) # hr_query r, hr_params := kvs\<rparr>) =
        serve_endpoint E newID ep (r\<lparr>hr_params := kvs\<rparr>)" for ep kvs
      using serve_endpoint_offset [where r = "r\<lparr>hr_params := kvs\<rparr>" and v = v]
      by (cases r) simp
    then show ?thesis by (simp add: dispatch_def split: option.split)
  qed
  then show ?thesis
    by (cases "(E, newID, meth, path, r)" rule: serve_http.cases)
       (simp_all add: jwtAuthMiddleware_def Let_def split: list.split)
qed

end
