(* ===== verification/Config.thy ===== *)
theory Config
  imports GoStd
begin

text \<open>
  \<open>backend/pkg/config\<close>: a loader that fills a struct from the environment. The struct type is a tree
  of fields with their tags; what the loader has set is a map from paths of field names. Reflection
  only walks this tree.
\<close>

section \<open>Structs\<close>





section \<open>One field\<close>




section \<open>The loader\<close>



section \<open>The leaves of a struct\<close>












end
