(* ===== verification/Registry.thy ===== *)
theory Registry
  imports GoStd GroupCache
begin

text \<open>
  \<open>backend/pkg/registry\<close> in the build without \<open>k8s\<close>: the instances of the services, read once from a
  YAML file; the start-up code of the gateways that looks addresses up in it; and the loop of
  \<open>groupcache\<close> that follows it. Reading and parsing the file is a parameter. An instance holds a
  reference to its metadata, which no caller writes to: it is modelled as a value.
\<close>

record reg_instance =
  ri_ServiceName :: string
  ri_Addr :: string
  ri_Metadata :: "string \<rightharpoonup> string"

record static_registry =
  sr_services :: "string \<Rightarrow> reg_instance list option"
  sr_self :: "reg_instance option"

text \<open>What the file holds: for each service the addresses and metadata of its instances.\<close>

type_synonym services_file = "string \<Rightarrow> (string \<times> (string \<rightharpoonup> string)) list option"

datatype read_result = Read_failed go_error | Parse_failed go_error | Parsed services_file

definition NewStaticRegistry :: "(string \<Rightarrow> read_result) \<Rightarrow> string \<Rightarrow> go_error + static_registry" where
  "NewStaticRegistry load path =
     (case load path of
        Read_failed err \<Rightarrow> Inl (Wrap (''registry: read config '' @ path) err)
      | Parse_failed err \<Rightarrow> Inl (Wrap ''registry: parse config'' err)
      | Parsed raw \<Rightarrow> Inr \<lparr>
          sr_services = (\<lambda>svcName. map_option (map (\<lambda>(addr, metadata).
            \<lparr>ri_ServiceName = svcName, ri_Addr = addr, ri_Metadata = metadata\<rparr>)) (raw svcName)),
          sr_self = None\<rparr>)"

definition StaticRegistry_Register :: "reg_instance \<Rightarrow> static_registry \<Rightarrow> (go_error + unit) \<times> static_registry" where
  "StaticRegistry_Register inst r = (Inr (), r\<lparr>sr_self := Some inst\<rparr>)"

definition StaticRegistry_Deregister :: "static_registry \<Rightarrow> (go_error + unit) \<times> static_registry" where
  "StaticRegistry_Deregister r = (Inr (), r)"

definition StaticRegistry_Discover :: "static_registry \<Rightarrow> string \<Rightarrow> go_error + reg_instance list" where
  "StaticRegistry_Discover r serviceName =
     (case sr_services r serviceName of
        None \<Rightarrow> Inl (Errorf (''registry: service '' @ serviceName @ '' not found''))
      | Some instances \<Rightarrow> Inr instances)"

text \<open>The channel is given as the list of what comes out of it.\<close>

definition StaticRegistry_Watch :: "static_registry \<Rightarrow> string \<Rightarrow> go_error + reg_instance list list" where
  "StaticRegistry_Watch r serviceName =
     (case StaticRegistry_Discover r serviceName of Inl err \<Rightarrow> Inl err | Inr instances \<Rightarrow> Inr [instances])"

definition StaticRegistry_SelfAddr :: "static_registry \<Rightarrow> string" where
  "StaticRegistry_SelfAddr r = (case sr_self r of None \<Rightarrow> [] | Some inst \<Rightarrow> ri_Addr inst)"

datatype registry_config = RegistryConfig (rc_Type: string) (rc_ConfigPath: string)

definition newK8sRegistry :: "registry_config \<Rightarrow> go_error + static_registry" where
  "newK8sRegistry cfg = Inl (Errorf ''registry: k8s support not compiled; rebuild with -tags k8s'')"

definition NewRegistry :: "(string \<Rightarrow> read_result) \<Rightarrow> registry_config \<Rightarrow> go_error + static_registry" where
  "NewRegistry load cfg =
     (if rc_Type cfg = ''k8s'' then newK8sRegistry cfg else NewStaticRegistry load (rc_ConfigPath cfg))"

section \<open>Addresses at start-up\<close>

text \<open>The registry is optional; without it, or without an instance, the configured URL is used.\<close>

definition startup_registry :: "(string \<Rightarrow> read_result) \<Rightarrow> string \<Rightarrow> string \<Rightarrow> static_registry option" where
  "startup_registry load registryType path =
     (if registryType = ''static'' then (case NewStaticRegistry load path of Inl _ \<Rightarrow> None | Inr r \<Rightarrow> Some r)
      else None)"

definition service_url :: "static_registry option \<Rightarrow> string \<Rightarrow> string \<Rightarrow> string" where
  "service_url reg serviceName configured =
     (case reg of
        None \<Rightarrow> configured
      | Some r \<Rightarrow>
          (case StaticRegistry_Discover r serviceName of
             Inr (i # _) \<Rightarrow> ''http://'' @ ri_Addr i
           | _ \<Rightarrow> configured))"

section \<open>The peers of a cache\<close>

definition watchPeers :: "static_registry \<Rightarrow> string \<Rightarrow> 'v cache \<Rightarrow> 'v cache" where
  "watchPeers r serviceName c =
     (case StaticRegistry_Watch r serviceName of
        Inl _ \<Rightarrow> c
      | Inr rounds \<Rightarrow> fold (\<lambda>instances c. watch_peers_update (map ri_Addr instances) c) rounds c)"

text \<open>The loop ends with the addresses the file lists for the service as peers, each once, and leaves
  the entries of the cache alone.\<close>

lemma watchPeers_static:
  assumes "NewStaticRegistry load path = Inr r" and "load path = Parsed raw" and "raw serviceName = Some is"
  shows "watchPeers r serviceName c =
    c\<lparr>peers := dedupePeers (map fst is), peerSet := peer_set (dedupePeers (map fst is))\<rparr>"
proof -
  have "sr_services r serviceName = Some (map (\<lambda>(addr, metadata).
      \<lparr>ri_ServiceName = serviceName, ri_Addr = addr, ri_Metadata = metadata\<rparr>) is)"
    using assms by (auto simp: NewStaticRegistry_def)
  then show ?thesis
    by (simp add: watchPeers_def StaticRegistry_Watch_def StaticRegistry_Discover_def watch_peers_update_def Let_def
        case_prod_beta comp_def)
qed

text \<open>An address comes from the file or from the configuration, never from anywhere else.\<close>

lemma service_url_from:
  "service_url (startup_registry load registryType path) serviceName configured = configured \<or>
   (\<exists>raw addr metadata is. load path = Parsed raw \<and> raw serviceName = Some ((addr, metadata) # is) \<and>
      service_url (startup_registry load registryType path) serviceName configured = ''http://'' @ addr)"
  by (auto simp: service_url_def startup_registry_def NewStaticRegistry_def StaticRegistry_Discover_def
      split: option.splits sum.splits read_result.splits list.splits)

text \<open>\<open>Register\<close> is not the no-op its comment says: it sets the address \<open>SelfAddr\<close> answers.\<close>

lemma SelfAddr_after_Register:
  "StaticRegistry_SelfAddr (snd (StaticRegistry_Register inst r)) = ri_Addr inst"
  by (simp add: StaticRegistry_SelfAddr_def StaticRegistry_Register_def)

end
