(* ===== verification/Migrate.thy ===== *)
theory Migrate
  imports Postgres "HOL-Library.List_Lexorder" "HOL-Library.Char_ord"
begin

text \<open>
  \<open>backend/tools/migrate\<close>: the tool that applies the migrations of a directory in order and records
  them in \<open>schema_migrations\<close>, each in a transaction of its own. What a script does to the schema is
  Postgres; it is a parameter, and so is the order in which Postgres sorts versions. The scripts
  hold no transaction commands. Every call can fail or, for a commit, take effect and be reported
  as failed.
\<close>

record 's target =
  tg_schema :: 's
  tg_versions :: "string list"
  tg_outcomes :: "outcome list"

record 's migrate_env =
  mg_files :: "string list"                        \<comment> \<open>the names in the directory\<close>
  mg_read :: "string \<Rightarrow> string option"
  mg_exec :: "string \<Rightarrow> 's \<Rightarrow> 's option"
  mg_desc :: "string list \<Rightarrow> string list"          \<comment> \<open>\<open>ORDER BY version DESC\<close>\<close>

definition next_call :: "('s target, outcome) state" where
  "next_call = State (\<lambda>s.
     case tg_outcomes s of [] \<Rightarrow> (Done, s) | o1 # os \<Rightarrow> (o1, s\<lparr>tg_outcomes := os\<rparr>))"

section \<open>Names\<close>

definition HasSuffix :: "string \<Rightarrow> string \<Rightarrow> bool" where
  "HasSuffix s suffix \<longleftrightarrow> length suffix \<le> length s \<and> drop (length s - length suffix) s = suffix"

definition TrimSuffix :: "string \<Rightarrow> string \<Rightarrow> string" where
  "TrimSuffix s suffix = (if HasSuffix s suffix then take (length s - length suffix) s else s)"

text \<open>\<open>filepath.Glob\<close> and \<open>sort.Strings\<close>; all paths have the directory in common.\<close>

definition up_files :: "'s migrate_env \<Rightarrow> string list" where
  "up_files E = sort (filter (\<lambda>f. HasSuffix f ''.up.sql'') (mg_files E))"

section \<open>One migration\<close>

text \<open>\<open>Begin\<close>, the script, the statement on \<open>schema_migrations\<close>, \<open>Commit\<close>; what is not committed is
  rolled back.\<close>

datatype tx_step = Begin_tx | Script_tx | Record_tx | Commit_tx

fun up_message :: "tx_step \<Rightarrow> string" where
  "up_message Begin_tx = ''begin tx for ''"
| "up_message Script_tx = ''execute migration ''"
| "up_message Record_tx = ''record migration ''"
| "up_message Commit_tx = ''commit migration ''"

fun down_message :: "tx_step \<Rightarrow> string" where
  "down_message Begin_tx = ''begin tx for rollback ''"
| "down_message Script_tx = ''execute rollback ''"
| "down_message Record_tx = ''remove migration record ''"
| "down_message Commit_tx = ''commit rollback ''"

definition migrate_tx ::
  "'s migrate_env \<Rightarrow> (tx_step \<Rightarrow> string) \<Rightarrow> string \<Rightarrow> (string list \<Rightarrow> string list option) \<Rightarrow> string \<Rightarrow>
   ('s target, go_error + unit) state" where
  "migrate_tx E message content stmt version = do {
     o1 \<leftarrow> next_call;
     if o1 \<noteq> Done then ret (Inl (Wrap (message Begin_tx @ version) (Pg Fault)))
     else do {
       o2 \<leftarrow> next_call;
       s \<leftarrow> State_Monad.get;
       (case (if o2 = Done then mg_exec E content (tg_schema s) else None) of
          None \<Rightarrow> ret (Inl (Wrap (message Script_tx @ version) (Pg Fault)))
        | Some schema \<Rightarrow> do {
            o3 \<leftarrow> next_call;
            (case (if o3 = Done then stmt (tg_versions s) else None) of
               None \<Rightarrow> ret (Inl (Wrap (message Record_tx @ version) (Pg Fault)))
             | Some vs \<Rightarrow> do {
                 o4 \<leftarrow> next_call;
                 (if o4 = Done \<or> o4 = Lost
                  then do {
                    modify (\<lambda>s. s\<lparr>tg_schema := schema, tg_versions := vs\<rparr>);
                    ret (if o4 = Done then Inr () else Inl (Wrap (message Commit_tx @ version) (Pg Fault)))
                  }
                  else ret (Inl (Wrap (message Commit_tx @ version) (Pg Fault))))
               })
          })
     }
   }"

text \<open>The primary key refuses a version that is there.\<close>

definition insert_version :: "string \<Rightarrow> string list \<Rightarrow> string list option" where
  "insert_version v vs = (if v \<in> set vs then None else Some (vs @ [v]))"

definition delete_version :: "string \<Rightarrow> string list \<Rightarrow> string list option" where
  "delete_version v vs = Some (filter (\<lambda>w. w \<noteq> v) vs)"

definition version_exists :: "string \<Rightarrow> ('s target, go_error + bool) state" where
  "version_exists v = do {
     o1 \<leftarrow> next_call;
     s \<leftarrow> State_Monad.get;
     ret (if o1 = Done then Inr (v \<in> set (tg_versions s)) else Inl (Pg Fault))
   }"

section \<open>Up and down\<close>

fun up_loop :: "'s migrate_env \<Rightarrow> int \<Rightarrow> int \<Rightarrow> string list \<Rightarrow> ('s target, go_error + int) state" where
  "up_loop E steps applied [] = ret (Inr applied)"
| "up_loop E steps applied (f # fs) =
     (let version = TrimSuffix f ''.up.sql'' in do {
        there \<leftarrow> version_exists version;
        (case there of
           Inl err \<Rightarrow> ret (Inl (Wrap (''check migration '' @ version) err))
         | Inr b \<Rightarrow>
             if b then up_loop E steps applied fs
             else
               (case mg_read E f of
                  None \<Rightarrow> ret (Inl (Wrap (''read migration '' @ version) (Errorf ''file'')))
                | Some content \<Rightarrow> do {
                    t \<leftarrow> migrate_tx E up_message content (insert_version version) version;
                    (case t of
                       Inl err \<Rightarrow> ret (Inl err)
                     | Inr _ \<Rightarrow>
                         if steps > 0 \<and> applied + 1 \<ge> steps then ret (Inr (applied + 1))
                         else up_loop E steps (applied + 1) fs)
                  }))
      })"

definition migrateUp :: "'s migrate_env \<Rightarrow> int \<Rightarrow> ('s target, go_error + int) state" where
  "migrateUp E steps = up_loop E steps 0 (up_files E)"

fun down_loop :: "'s migrate_env \<Rightarrow> int \<Rightarrow> int \<Rightarrow> string list \<Rightarrow> ('s target, go_error + int) state" where
  "down_loop E steps reverted [] = ret (Inr reverted)"
| "down_loop E steps reverted (version # vs) =
     (if reverted \<ge> steps then ret (Inr reverted)
      else
        (case mg_read E (version @ ''.down.sql'') of
           None \<Rightarrow> ret (Inl (Wrap (''read down migration '' @ version) (Errorf ''file'')))
         | Some content \<Rightarrow> do {
             t \<leftarrow> migrate_tx E down_message content (delete_version version) version;
             (case t of Inl err \<Rightarrow> ret (Inl err) | Inr _ \<Rightarrow> down_loop E steps (reverted + 1) vs)
           }))"

text \<open>The rows are read without a look at \<open>rows.Err\<close>: a result that breaks off is a shorter one.\<close>

definition migrateDown :: "'s migrate_env \<Rightarrow> int \<Rightarrow> ('s target, go_error + int) state" where
  "migrateDown E steps = do {
     let steps = (if steps = 0 then 1 else steps);
     o1 \<leftarrow> next_call;
     s \<leftarrow> State_Monad.get;
     (case o1 of
        Done \<Rightarrow> down_loop E steps 0 (mg_desc E (tg_versions s))
      | Cut n \<Rightarrow> down_loop E steps 0 (take n (mg_desc E (tg_versions s)))
      | _ \<Rightarrow> ret (Inl (Wrap ''query migrations'' (Pg Fault))))
   }"

text \<open>The command line; the exit code. \<open>Ping\<close> and the creation of the table come first.\<close>

definition migrate_main :: "'s migrate_env \<Rightarrow> string \<Rightarrow> int \<Rightarrow> ('s target, int) state" where
  "migrate_main E command steps = do {
     let command = (if command = [] then ''up'' else command);
     o1 \<leftarrow> next_call;
     if o1 \<noteq> Done then ret 1
     else do {
       o2 \<leftarrow> next_call;
       if o2 \<noteq> Done then ret 1
       else if command = ''up'' then do { r \<leftarrow> migrateUp E steps; ret (if isl r then 1 else 0) }
       else if command = ''down'' then do { r \<leftarrow> migrateDown E steps; ret (if isl r then 1 else 0) }
       else ret 1
     }
   }"

section \<open>What is applied\<close>

text \<open>The scripts of some versions, one after the other.\<close>

fun replay :: "'s migrate_env \<Rightarrow> string \<Rightarrow> string list \<Rightarrow> 's \<Rightarrow> 's option" where
  "replay E suffix [] schema = Some schema"
| "replay E suffix (v # vs) schema =
     (case mg_read E (v @ suffix) of
        None \<Rightarrow> None
      | Some content \<Rightarrow>
          (case mg_exec E content schema of None \<Rightarrow> None | Some schema' \<Rightarrow> replay E suffix vs schema'))"

definition pending :: "string list \<Rightarrow> string list \<Rightarrow> string list" where
  "pending versions fs = filter (\<lambda>v. v \<notin> set versions) (map (\<lambda>f. TrimSuffix f ''.up.sql'') fs)"

definition wanted :: "int \<Rightarrow> string list \<Rightarrow> string list" where
  "wanted steps vs = (if steps > 0 then take (nat steps) vs else vs)"

lemma TrimSuffix_append [simp]: "TrimSuffix (v @ s) s = v"
  by (simp add: TrimSuffix_def HasSuffix_def)

lemma HasSuffix_append: "HasSuffix f s \<Longrightarrow> TrimSuffix f s @ s = f"
  unfolding HasSuffix_def TrimSuffix_def by (metis append_take_drop_id)

lemma pending_simps [simp]:
  "pending vs [] = []"
  "pending vs (f # fs) =
     (if TrimSuffix f ''.up.sql'' \<in> set vs then pending vs fs else TrimSuffix f ''.up.sql'' # pending vs fs)"
  by (simp_all add: pending_def)

lemma pending_add:
  "v \<notin> (\<lambda>f. TrimSuffix f ''.up.sql'') ` set fs \<Longrightarrow> pending (vs @ [v]) fs = pending vs fs"
  by (auto simp: pending_def intro!: filter_cong)

lemma up_files_names:
  assumes "distinct (mg_files E)"
  shows "list_all (\<lambda>f. HasSuffix f ''.up.sql'') (up_files E)"
    and "distinct (map (\<lambda>f. TrimSuffix f ''.up.sql'') (up_files E))"
proof -
  show suffix: "list_all (\<lambda>f. HasSuffix f ''.up.sql'') (up_files E)"
    by (simp add: up_files_def list_all_iff)
  have "inj_on (\<lambda>f. TrimSuffix f ''.up.sql'') (set (up_files E))"
    by (rule inj_onI) (metis HasSuffix_append suffix list_all_iff)
  moreover have "distinct (up_files E)" using assms by (simp add: up_files_def)
  ultimately show "distinct (map (\<lambda>f. TrimSuffix f ''.up.sql'') (up_files E))" by (simp add: distinct_map)
qed

text \<open>One transaction, in any run: all of it or nothing.\<close>

lemma next_call_run: "\<exists>o1 os. run_state next_call s = (o1, s\<lparr>tg_outcomes := os\<rparr>)"
  by (cases "tg_outcomes s") (auto simp: next_call_def intro: exI [of _ "tg_outcomes s"])

lemma run_next_call_calm [run_simps]: "tg_outcomes s = [] \<Longrightarrow> run_state next_call s = (Done, s)"
  by (simp add: next_call_def)

lemma migrate_tx_cases:
  assumes "run_state (migrate_tx E message content stmt v) s = (r, s')"
  obtains (undone) e where "r = Inl e" "tg_schema s' = tg_schema s" "tg_versions s' = tg_versions s"
  | (all) schema vs where "mg_exec E content (tg_schema s) = Some schema" "stmt (tg_versions s) = Some vs"
      "tg_schema s' = schema" "tg_versions s' = vs"
proof -
  obtain o1 o2 o3 o4 os1 os2 os3 os4 where
    "run_state next_call s = (o1, s\<lparr>tg_outcomes := os1\<rparr>)"
    "run_state next_call (s\<lparr>tg_outcomes := os1\<rparr>) = (o2, s\<lparr>tg_outcomes := os2\<rparr>)"
    "run_state next_call (s\<lparr>tg_outcomes := os2\<rparr>) = (o3, s\<lparr>tg_outcomes := os3\<rparr>)"
    "run_state next_call (s\<lparr>tg_outcomes := os3\<rparr>) = (o4, s\<lparr>tg_outcomes := os4\<rparr>)"
    using next_call_run [of s] next_call_run [of "s\<lparr>tg_outcomes := _\<rparr>"] by simp metis
  with assms have "(\<exists>e. r = Inl e) \<and> tg_schema s' = tg_schema s \<and> tg_versions s' = tg_versions s \<or>
      mg_exec E content (tg_schema s) = Some (tg_schema s') \<and> stmt (tg_versions s) = Some (tg_versions s')"
    by (auto simp: migrate_tx_def run_simps split: if_splits option.splits)
  with undone all show thesis by metis
qed

lemma migrate_tx_calm:
  "tg_outcomes s = [] \<Longrightarrow> mg_exec E content (tg_schema s) = Some schema \<Longrightarrow> stmt (tg_versions s) = Some vs \<Longrightarrow>
   run_state (migrate_tx E message content stmt v) s = (Inr (), s\<lparr>tg_schema := schema, tg_versions := vs\<rparr>)"
  by (simp add: migrate_tx_def run_simps)

lemma replay_append:
  "replay E suffix (vs @ ws) schema =
     (case replay E suffix vs schema of None \<Rightarrow> None | Some schema' \<Rightarrow> replay E suffix ws schema')"
  by (induction vs arbitrary: schema) (auto split: option.split)

definition up_names :: "string list \<Rightarrow> bool" where
  "up_names fs \<longleftrightarrow> list_all (\<lambda>f. HasSuffix f ''.up.sql'') fs \<and> distinct (map (\<lambda>f. TrimSuffix f ''.up.sql'') fs)"

lemma up_names_Cons:
  "up_names (f # fs) \<longleftrightarrow> HasSuffix f ''.up.sql'' \<and> up_names fs \<and>
     TrimSuffix f ''.up.sql'' \<notin> (\<lambda>f. TrimSuffix f ''.up.sql'') ` set fs"
  by (auto simp: up_names_def)

lemma up_names_files: "distinct (mg_files E) \<Longrightarrow> up_names (up_files E)"
  by (simp add: up_names_def up_files_names)

text \<open>Whatever fails, the loop applies and records a prefix of what is pending, in order.\<close>

lemma up_loop_prefix:
  assumes "up_names fs" and "run_state (up_loop E steps n fs) s = (r, s')"
  shows "\<exists>ps rest. pending (tg_versions s) fs = ps @ rest \<and> tg_versions s' = tg_versions s @ ps \<and>
    replay E ''.up.sql'' ps (tg_schema s) = Some (tg_schema s')"
  using assms
proof (induction fs arbitrary: n s)
  case (Cons f fs)
  let ?v = "TrimSuffix f ''.up.sql''"
  have f: "?v @ ''.up.sql'' = f" and fs: "up_names fs" and fresh: "?v \<notin> (\<lambda>f. TrimSuffix f ''.up.sql'') ` set fs"
    using Cons.prems(1) HasSuffix_append [of f "''.up.sql''"] by (auto simp: up_names_Cons)
  obtain b os where there: "run_state (version_exists ?v) s = (b, s\<lparr>tg_outcomes := os\<rparr>)"
    "b \<noteq> Inr (?v \<notin> set (tg_versions s))"
    using next_call_run [of s] by (auto simp: version_exists_def run_simps)
  let ?s = "s\<lparr>tg_outcomes := os\<rparr>"
  have none: ?case if "tg_schema s' = tg_schema s" "tg_versions s' = tg_versions s"
    using that by (intro exI [of _ "[]"] exI [of _ "pending (tg_versions s) (f # fs)"]) simp
  show ?case
  proof (cases "\<exists>content. b = Inr False \<and> mg_read E f = Some content")
    case True
    then obtain content where b: "b = Inr False" and content: "mg_read E f = Some content" by blast
    obtain t s1 where tx: "run_state (migrate_tx E up_message content (insert_version ?v) ?v) ?s = (t, s1)" by fastforce
    from tx show ?thesis
    proof (cases rule: migrate_tx_cases)
      case (undone e)
      with Cons.prems(2) there b content tx show ?thesis by (intro none) (auto simp: run_simps Let_def)
    next
      case (all schema vs)
      then have v: "?v \<notin> set (tg_versions s)" and s1: "tg_versions s1 = tg_versions s @ [?v]"
        "mg_exec E content (tg_schema s) = Some (tg_schema s1)"
        by (auto simp: insert_version_def split: if_splits)
      have one: ?thesis if "tg_schema s' = tg_schema s1" "tg_versions s' = tg_versions s1"
        using that v s1 content f by (intro exI [of _ "[?v]"] exI [of _ "pending (tg_versions s) fs"]) simp
      show ?thesis
      proof (cases "isl t \<or> steps > 0 \<and> n + 1 \<ge> steps")
        case True
        with Cons.prems(2) there b content tx show ?thesis
          by (intro one) (auto simp: run_simps Let_def isl_def split: sum.splits if_splits)
      next
        case False
        with Cons.prems(2) there b content tx
        have "run_state (up_loop E steps (n + 1) fs) s1 = (r, s')"
          by (auto simp: run_simps Let_def isl_def split: sum.splits if_splits)
        from Cons.IH [OF fs this] obtain ps rest where
          "pending (tg_versions s1) fs = ps @ rest" "tg_versions s' = tg_versions s1 @ ps"
          "replay E ''.up.sql'' ps (tg_schema s1) = Some (tg_schema s')" by blast
        with v s1 content f fresh show ?thesis
          by (intro exI [of _ "?v # ps"] exI [of _ rest]) (simp add: pending_add)
      qed
    qed
  next
    case False
    show ?thesis
    proof (cases "b = Inr True")
      case True
      with Cons.prems(2) there Cons.IH [OF fs, of n ?s] show ?thesis by (auto simp: run_simps Let_def)
    next
      case False
      with \<open>\<not> (\<exists>content. b = Inr False \<and> mg_read E f = Some content)\<close> Cons.prems(2) there
      show ?thesis by (intro none) (auto simp: run_simps Let_def split: sum.splits if_splits option.splits)
    qed
  qed
qed simp

lemma run_version_exists [run_simps]:
  "tg_outcomes s = [] \<Longrightarrow> run_state (version_exists v) s = (Inr (v \<in> set (tg_versions s)), s)"
  by (simp add: version_exists_def run_simps)

lemma up_loop_steps:
  assumes "tg_outcomes s = []"
  shows "TrimSuffix f ''.up.sql'' \<in> set (tg_versions s) \<Longrightarrow>
      run_state (up_loop E steps n (f # fs)) s = run_state (up_loop E steps n fs) s"
    and "TrimSuffix f ''.up.sql'' \<notin> set (tg_versions s) \<Longrightarrow> mg_read E f = Some content \<Longrightarrow>
      run_state (migrate_tx E up_message content (insert_version (TrimSuffix f ''.up.sql'')) (TrimSuffix f ''.up.sql'')) s = (Inr (), s1) \<Longrightarrow>
      run_state (up_loop E steps n (f # fs)) s =
        (if steps > 0 \<and> n + 1 \<ge> steps then (Inr (n + 1), s1) else run_state (up_loop E steps (n + 1) fs) s1)"
  using assms by (simp_all add: run_simps Let_def)

text \<open>When nothing fails, it applies as much of it as was asked for.\<close>

lemma up_loop_calm:
  assumes "up_names fs" and "tg_outcomes s = []" and "steps \<le> 0 \<or> n < steps"
    and "ps = (if steps > 0 then take (nat (steps - n)) (pending (tg_versions s) fs) else pending (tg_versions s) fs)"
    and "replay E ''.up.sql'' ps (tg_schema s) = Some schema"
  shows "run_state (up_loop E steps n fs) s =
    (Inr (n + int (length ps)), s\<lparr>tg_schema := schema, tg_versions := tg_versions s @ ps\<rparr>)"
  using assms
proof (induction fs arbitrary: n s ps)
  case (Cons f fs)
  let ?v = "TrimSuffix f ''.up.sql''"
  have f: "?v @ ''.up.sql'' = f" and fs: "up_names fs" and fresh: "?v \<notin> (\<lambda>f. TrimSuffix f ''.up.sql'') ` set fs"
    using Cons.prems(1) HasSuffix_append [of f "''.up.sql''"] by (auto simp: up_names_Cons)
  show ?case
  proof (cases "?v \<in> set (tg_versions s)")
    case True
    then have "pending (tg_versions s) (f # fs) = pending (tg_versions s) fs" by simp
    with Cons.prems(4,5) Cons.IH [OF fs Cons.prems(2,3), of ps] True show ?thesis
      by (simp only: up_loop_steps(1) [OF Cons.prems(2) True])
  next
    case False
    let ?ps = "if steps > 0 then take (nat (steps - (n + 1))) (pending (tg_versions s) fs) else pending (tg_versions s) fs"
    have "steps > 0 \<Longrightarrow> nat (steps - n) = Suc (nat (steps - (n + 1)))" using Cons.prems(3) by auto
    then have ps: "ps = ?v # ?ps" using False Cons.prems(4) by auto
    obtain content schema1 where content: "mg_read E f = Some content" "mg_exec E content (tg_schema s) = Some schema1"
      "replay E ''.up.sql'' ?ps schema1 = Some schema"
      using Cons.prems(5) ps f by (auto split: option.splits)
    let ?s1 = "s\<lparr>tg_schema := schema1, tg_versions := tg_versions s @ [?v]\<rparr>"
    have tx: "run_state (migrate_tx E up_message content (insert_version ?v) ?v) s = (Inr (), ?s1)"
      using migrate_tx_calm [where stmt = "insert_version ?v", OF Cons.prems(2) content(2)] False
      by (simp add: insert_version_def)
    have IH: "run_state (up_loop E steps (n + 1) fs) ?s1 =
        (Inr (n + 1 + int (length ?ps)), ?s1\<lparr>tg_schema := schema, tg_versions := tg_versions ?s1 @ ?ps\<rparr>)"
      if "steps \<le> 0 \<or> n + 1 < steps"
      using that content(3) fresh Cons.prems(2) by (intro Cons.IH [OF fs]) (simp_all add: pending_add)
    show ?thesis
    proof (cases "steps > 0 \<and> n + 1 \<ge> steps")
      case True
      then have "?ps = []" by simp
      with True content(3) ps show ?thesis
        by (simp add: up_loop_steps(2) [OF Cons.prems(2) False content(1) tx] del: up_loop.simps)
    next
      case False
      then have "steps \<le> 0 \<or> n + 1 < steps" by auto
      have step: "run_state (up_loop E steps n (f # fs)) s = run_state (up_loop E steps (n + 1) fs) ?s1"
        using up_loop_steps(2) [OF Cons.prems(2) \<open>?v \<notin> set (tg_versions s)\<close> content(1) tx, of steps n fs] False
        by auto
      have "int (length ps) = 1 + int (length ?ps)" "tg_versions s @ ps = (tg_versions s @ [?v]) @ ?ps"
        by (simp_all only: ps list.size append.simps append_assoc)
      with IH [OF \<open>steps \<le> 0 \<or> n + 1 < steps\<close>] show ?thesis unfolding step by simp
    qed
  qed
qed (simp split: if_splits)

section \<open>Interrupted runs\<close>

text \<open>The tool is run again and again, each time with a bound on the number of migrations and with
  what becomes of its calls.\<close>

fun up_runs :: "'s migrate_env \<Rightarrow> (int \<times> outcome list) list \<Rightarrow> 's target \<Rightarrow> 's target" where
  "up_runs E [] s = s"
| "up_runs E ((steps, os) # runs) s = up_runs E runs (snd (run_state (migrateUp E steps) (s\<lparr>tg_outcomes := os\<rparr>)))"

lemma pending_prefix:
  assumes "up_names fs" and "pending vs fs = ps @ rest"
  shows "pending (vs @ ps) fs = rest"
proof -
  have "distinct (pending vs fs)" using assms(1) by (simp add: pending_def up_names_def)
  moreover have "pending (vs @ ps) fs = filter (\<lambda>v. v \<notin> set ps) (pending vs fs)"
    by (simp add: pending_def conj_commute)
  ultimately show ?thesis using assms(2) by (auto simp: filter_id_conv filter_empty_conv)
qed

lemma up_runs_prefix:
  assumes "distinct (mg_files E)"
  shows "\<exists>ps rest. pending (tg_versions s) (up_files E) = ps @ rest \<and>
    tg_versions (up_runs E runs s) = tg_versions s @ ps \<and>
    replay E ''.up.sql'' ps (tg_schema s) = Some (tg_schema (up_runs E runs s))"
  using assms
proof (induction E runs s rule: up_runs.induct)
  case (2 E steps os runs s)
  let ?t = "s\<lparr>tg_outcomes := os\<rparr>" and ?s = "snd (run_state (migrateUp E steps) (s\<lparr>tg_outcomes := os\<rparr>))"
  have names: "up_names (up_files E)" by (rule up_names_files [OF 2(2)])
  obtain ps rest where ps: "pending (tg_versions s) (up_files E) = ps @ rest" "tg_versions ?s = tg_versions s @ ps"
    "replay E ''.up.sql'' ps (tg_schema s) = Some (tg_schema ?s)"
    using up_loop_prefix [OF names, of E steps 0 ?t "fst (run_state (migrateUp E steps) ?t)" ?s]
    by (auto simp: migrateUp_def)
  obtain ps2 rest2 where ps2: "pending (tg_versions ?s) (up_files E) = ps2 @ rest2"
    "tg_versions (up_runs E runs ?s) = tg_versions ?s @ ps2"
    "replay E ''.up.sql'' ps2 (tg_schema ?s) = Some (tg_schema (up_runs E runs ?s))"
    using 2 by blast
  have "rest = ps2 @ rest2" using ps2(1) ps pending_prefix [OF names ps(1)] by simp
  with ps ps2 show ?case
    by (intro exI [of _ "ps @ ps2"] exI [of _ rest2]) (simp add: replay_append)
qed simp

text \<open>C20: An interrupted migration can be resumed: however often the tool was run before, with whatever
  bounds and whatever failures (a commit that took effect and was reported as failed among them),
  a last run that nothing disturbs leaves the schema and the versions that one undisturbed run
  would have: every pending migration applied once, in the order of the names.\<close>

theorem migrate_up_resumes:
  assumes "distinct (mg_files E)"
    and "replay E ''.up.sql'' (pending (tg_versions s) (up_files E)) (tg_schema s) = Some schema"
  shows "\<exists>n. run_state (migrateUp E 0) ((up_runs E runs s)\<lparr>tg_outcomes := []\<rparr>) =
    (Inr n, \<lparr>tg_schema = schema, tg_versions = tg_versions s @ pending (tg_versions s) (up_files E), tg_outcomes = []\<rparr>)"
proof -
  let ?s = "(up_runs E runs s)\<lparr>tg_outcomes := []\<rparr>"
  obtain ps rest where ps: "pending (tg_versions s) (up_files E) = ps @ rest"
    "tg_versions ?s = tg_versions s @ ps" "replay E ''.up.sql'' ps (tg_schema s) = Some (tg_schema ?s)"
    using up_runs_prefix [OF assms(1), of s runs] by auto
  have names: "up_names (up_files E)" by (rule up_names_files [OF assms(1)])
  have "replay E ''.up.sql'' rest (tg_schema ?s) = Some schema"
    using assms(2) ps by (simp add: replay_append)
  then have "run_state (migrateUp E 0) ?s = (Inr (0 + int (length rest)), ?s\<lparr>tg_schema := schema, tg_versions := tg_versions ?s @ rest\<rparr>)"
    unfolding migrateUp_def using pending_prefix [OF names ps(1)] ps(2)
    by (intro up_loop_calm [OF names]) simp_all
  with ps show ?thesis by simp
qed

section \<open>Back\<close>

definition undone_by_down :: "'s migrate_env \<Rightarrow> string \<Rightarrow> bool" where
  "undone_by_down E v \<longleftrightarrow> (\<forall>a b. replay E ''.up.sql'' [v] a = Some b \<longrightarrow> replay E ''.down.sql'' [v] b = Some a)"

lemma down_loop_step:
  assumes "tg_outcomes s = []" and "k < steps" and "replay E ''.down.sql'' [v] (tg_schema s) = Some a"
  shows "run_state (down_loop E steps k (v # vs)) s =
    run_state (down_loop E steps (k + 1) vs) (s\<lparr>tg_schema := a, tg_versions := filter (\<lambda>w. w \<noteq> v) (tg_versions s)\<rparr>)"
  using assms by (auto simp: run_simps migrate_tx_calm [where stmt = "delete_version v"] delete_version_def split: option.splits)

lemma down_loop_undoes:
  assumes "replay E ''.up.sql'' ps a = Some (tg_schema s)" and "tg_versions s = vs @ ps" and "distinct (vs @ ps)"
    and "list_all (undone_by_down E) ps" and "tg_outcomes s = []" and "k + int (length ps) \<le> steps"
  shows "run_state (down_loop E steps k (rev ps @ ws)) s =
    run_state (down_loop E steps (k + int (length ps)) ws) (s\<lparr>tg_schema := a, tg_versions := vs\<rparr>)"
  using assms
proof (induction ps arbitrary: k s rule: rev_induct)
  case (snoc p ps)
  then obtain b where b: "replay E ''.up.sql'' ps a = Some b" "replay E ''.up.sql'' [p] b = Some (tg_schema s)"
    by (auto simp: replay_append split: option.splits)
  let ?s = "s\<lparr>tg_schema := b, tg_versions := vs @ ps\<rparr>"
  have "replay E ''.down.sql'' [p] (tg_schema s) = Some b"
    using snoc.prems(4) b(2) by (simp add: undone_by_down_def del: replay.simps)
  moreover have "filter (\<lambda>w. w \<noteq> p) (tg_versions s) = vs @ ps"
    using snoc.prems(2,3) by (auto simp: filter_id_conv intro!: arg_cong2 [where f = append])
  ultimately have "run_state (down_loop E steps k (rev (ps @ [p]) @ ws)) s =
      run_state (down_loop E steps (k + 1) (rev ps @ ws)) ?s"
    using down_loop_step [OF snoc.prems(5), of k steps E p b] snoc.prems(6) by simp
  also have "\<dots> = run_state (down_loop E steps (k + 1 + int (length ps)) ws) (?s\<lparr>tg_schema := a, tg_versions := vs\<rparr>)"
    using snoc.prems b(1) by (intro snoc.IH) simp_all
  finally show ?case by (simp add: add.assoc)
qed auto

text \<open>Down undoes up: when the down scripts undo the up scripts and the new versions sort after
  the ones before, reverting as many migrations as were pending gives back the schema and the
  table of versions there were before.\<close>

theorem migrate_down_undoes:
  fixes E s
  defines "ps \<equiv> pending (tg_versions s) (up_files E)"
  assumes "distinct (mg_files E)" and "distinct (tg_versions s)" and "tg_outcomes s = []" and "ps \<noteq> []"
    and "replay E ''.up.sql'' ps (tg_schema s) = Some schema"
    and "list_all (undone_by_down E) ps"
    and "mg_desc E (tg_versions s @ ps) = rev ps @ ws"
  shows "run_state (migrateUp E 0 \<bind> (\<lambda>_. migrateDown E (int (length ps)))) s = (Inr (int (length ps)), s)"
proof -
  let ?s = "s\<lparr>tg_schema := schema, tg_versions := tg_versions s @ ps\<rparr>"
  have names: "up_names (up_files E)" by (rule up_names_files [OF assms(2)])
  have up: "run_state (migrateUp E 0) s = (Inr (0 + int (length ps)), ?s)"
    unfolding migrateUp_def using assms by (intro up_loop_calm [OF names]) simp_all
  have "distinct ps" "set (tg_versions s) \<inter> set ps = {}"
    using names by (auto simp: ps_def pending_def up_names_def)
  then have "run_state (down_loop E (int (length ps)) 0 (rev ps @ ws)) ?s =
      run_state (down_loop E (int (length ps)) (0 + int (length ps)) ws) (?s\<lparr>tg_schema := tg_schema s, tg_versions := tg_versions s\<rparr>)"
    using assms by (intro down_loop_undoes) simp_all
  also have "\<dots> = (Inr (int (length ps)), s)" by (cases ws) (simp_all add: run_simps)
  finally show ?thesis
    using assms up by (simp add: migrateDown_def run_simps Let_def del: down_loop.simps)
qed

section \<open>A directory of migrations\<close>

text \<open>Scripts that add a table and drop it; the schema is the list of tables.\<close>

definition demo_migrations :: "string list migrate_env" where
  "demo_migrations = \<lparr>
     mg_files = [''2b.up.sql'', ''1a.down.sql'', ''1a.up.sql'', ''2b.down.sql'', ''3c.up.sql'', ''3c.down.sql''],
     mg_read = (\<lambda>f. Some (if HasSuffix f ''.up.sql'' then ''+'' @ TrimSuffix f ''.up.sql'' else ''-'' @ TrimSuffix f ''.down.sql'')),
     mg_exec = (\<lambda>script tables. if hd script = CHR ''+'' then Some (tl script # tables)
                                else if tables \<noteq> [] \<and> hd tables = tl script then Some (tl tables) else None),
     mg_desc = (\<lambda>vs. rev (sort vs))\<rparr>"

definition demo_target :: "string list target" where
  "demo_target = \<lparr>tg_schema = [''1a''], tg_versions = [''1a''], tg_outcomes = []\<rparr>"

theorem migrate_up_resumes_witness:
  "\<exists>n. run_state (migrateUp demo_migrations 0)
      ((up_runs demo_migrations [(0, [Done, Done, Done, Done, Done, Lost]), (1, [Cut 0])] demo_target)\<lparr>tg_outcomes := []\<rparr>) =
    (Inr n, \<lparr>tg_schema = [''3c'', ''2b'', ''1a''], tg_versions = tg_versions demo_target @ pending (tg_versions demo_target) (up_files demo_migrations),
      tg_outcomes = []\<rparr>)"
proof (rule migrate_up_resumes)
  show "distinct (mg_files demo_migrations)" by code_simp
  show "replay demo_migrations ''.up.sql'' (pending (tg_versions demo_target) (up_files demo_migrations))
      (tg_schema demo_target) = Some [''3c'', ''2b'', ''1a'']" by code_simp
qed

lemma demo_undone: "undone_by_down demo_migrations v"
  by (auto simp: undone_by_down_def demo_migrations_def HasSuffix_def TrimSuffix_def)

theorem migrate_down_undoes_witness:
  "run_state (migrateUp demo_migrations 0 \<bind>
      (\<lambda>_. migrateDown demo_migrations (int (length (pending (tg_versions demo_target) (up_files demo_migrations)))))) demo_target =
    (Inr (int (length (pending (tg_versions demo_target) (up_files demo_migrations)))), demo_target)"
proof (rule migrate_down_undoes)
  show "distinct (mg_files demo_migrations)" "distinct (tg_versions demo_target)" "tg_outcomes demo_target = []"
    "pending (tg_versions demo_target) (up_files demo_migrations) \<noteq> []"
    "replay demo_migrations ''.up.sql'' (pending (tg_versions demo_target) (up_files demo_migrations))
      (tg_schema demo_target) = Some [''3c'', ''2b'', ''1a'']" 
    "mg_desc demo_migrations (tg_versions demo_target @ pending (tg_versions demo_target) (up_files demo_migrations)) =
      rev (pending (tg_versions demo_target) (up_files demo_migrations)) @ [''1a'']"
    by code_simp+
qed (simp add: list_all_iff demo_undone)

end
