(* ===== verification/Observability.thy ===== *)
theory Observability
  imports Http "HOL-Library.AList" "HOL-Library.List_Lexorder" "HOL-Library.Char_ord"
begin

text \<open>
  What the programs tell about themselves: the health checks of \<open>backend/pkg/health\<close>, the two
  middlewares of \<open>backend/pkg/metrics\<close> and the log handler of \<open>backend/pkg/logging\<close> that hands a record
  to several others. OpenTelemetry and the handlers of \<open>slog\<close> are parameters.
\<close>

section \<open>Health\<close>

text \<open>A check looks at the state of its dependency. The failures are put into a map, so that the order
  of the checks does not matter; its JSON has the keys in order.\<close>

type_synonym 's checker = "(string \<times> ('s \<Rightarrow> go_error option)) list"

definition NewChecker :: "'s checker" where
  "NewChecker = []"

definition RegisterCheck :: "string \<Rightarrow> ('s \<Rightarrow> go_error option) \<Rightarrow> 's checker \<Rightarrow> 's checker" where
  "RegisterCheck name fn c = AList.update name fn c"

definition HealthzHandler :: "'s \<Rightarrow> http_response" where
  "HealthzHandler s = Response 200 (JObj [(''status'', JStr ''ok'')])"

definition check_failures :: "(go_error \<Rightarrow> string) \<Rightarrow> 's checker \<Rightarrow> 's \<Rightarrow> (string \<times> string) list" where
  "check_failures ext c s =
     sort_key fst (map (\<lambda>(name, fn). (name, error_text ext (the (fn s)))) (filter (\<lambda>(name, fn). fn s \<noteq> None) c))"

definition ReadyHandler :: "(go_error \<Rightarrow> string) \<Rightarrow> 's checker \<Rightarrow> 's \<Rightarrow> http_response" where
  "ReadyHandler ext c s =
     (let failures = check_failures ext c s in
      if failures \<noteq> []
      then Response 503 (JObj [(''failures'', JObj (map (\<lambda>(name, t). (name, JStr t)) failures)),
                               (''status'', JStr ''not ready'')])
      else Response 200 (JObj [(''status'', JStr ''ready'')]))"

text \<open>A program is ready exactly when no check fails, and otherwise the failed checks are named.\<close>

lemma sort_key_Nil: "sort_key f xs = [] \<longleftrightarrow> xs = []"
  by (metis length_0_conv length_sort)

lemma check_failures_iff:
  "(name, t) \<in> set (check_failures ext c s) \<longleftrightarrow>
   (\<exists>fn err. (name, fn) \<in> set c \<and> fn s = Some err \<and> t = error_text ext err)"
  unfolding check_failures_def set_sort by (auto simp: image_iff)

lemma ReadyHandler_ready: "status_of (ReadyHandler ext c s) = 200 \<longleftrightarrow> (\<forall>(name, fn) \<in> set c. fn s = None)"
  by (auto simp: ReadyHandler_def Let_def check_failures_def sort_key_Nil filter_empty_conv split: prod.splits)

text \<open>Registering a check under a name replaces the one before.\<close>

lemma RegisterCheck_same: "map_of (RegisterCheck name fn c) name = Some fn"
  by (simp add: RegisterCheck_def update_conv)

section \<open>Metrics\<close>

record metrics =
  http_request_total :: "(string \<times> string \<times> int) list"     \<comment> \<open>method, path, status of each request\<close>
  connect_call_total :: "(string \<times> string) list"           \<comment> \<open>procedure and code of each call\<close>

text \<open>A handler calls \<open>WriteHeader\<close> any number of times. The wrapper remembers the last code; the first one
  is what \<open>net/http\<close> sends, and 200 when there is none.\<close>

definition recorded_status :: "int list \<Rightarrow> int" where
  "recorded_status codes = fold (\<lambda>code _. code) codes 200"

definition sent_status :: "int list \<Rightarrow> int" where
  "sent_status codes = (case codes of [] \<Rightarrow> 200 | code # _ \<Rightarrow> code)"

definition HTTPMiddleware ::
  "string \<Rightarrow> string \<Rightarrow> ('z metrics_scheme, int list) state \<Rightarrow> ('z metrics_scheme, int) state" where
  "HTTPMiddleware meth path handler = do {
     codes \<leftarrow> handler;
     modify (\<lambda>s. s\<lparr>http_request_total := http_request_total s @ [(meth, path, recorded_status codes)]\<rparr>);
     ret (sent_status codes)
   }"

text \<open>\<open>new(connect.Error)\<close> is a new error that holds nothing, and never \<open>nil\<close>: \<open>zero_code\<close> is what its code is
  called. A panic passes the interceptor by.\<close>

definition ConnectRPCInterceptor ::
  "string \<Rightarrow> string \<Rightarrow> ('z metrics_scheme, connect_error + 'a) state \<Rightarrow> ('z metrics_scheme, connect_error + 'a) state" where
  "ConnectRPCInterceptor zero_code procedure next = do {
     r \<leftarrow> next;
     (case r of
        Inl Panic \<Rightarrow> ret r
      | _ \<Rightarrow> do {
          let code = (if isl r then zero_code else ''ok'');
          modify (\<lambda>s. s\<lparr>connect_call_total := connect_call_total s @ [(procedure, code)]\<rparr>);
          ret r
        })
   }"

text \<open>The answer passes through, and every failure is counted under the same code, whatever it was.\<close>

lemma failed_calls_counted_alike:
  assumes "run_state next s = (Inl (NewError c e), s')"
  shows "run_state (ConnectRPCInterceptor zero_code procedure next) s =
    (Inl (NewError c e), s'\<lparr>connect_call_total := connect_call_total s' @ [(procedure, zero_code)]\<rparr>)"
  using assms by (simp add: ConnectRPCInterceptor_def run_simps)

lemma recorded_is_last: "recorded_status (codes @ [code]) = code"
  by (simp add: recorded_status_def)

lemma recorded_is_sent: "length codes \<le> 1 \<Longrightarrow> recorded_status codes = sent_status codes"
  by (cases codes) (auto simp: recorded_status_def sent_status_def)

section \<open>Logging\<close>

text \<open>A handler says for which levels it is enabled, and takes a record with the attributes it was given
  before. A logger asks whether a level is enabled and then hands the record over.\<close>

record log_handler =
  lh_name :: string
  lh_enabled :: "int \<Rightarrow> bool"
  lh_attrs :: "(string \<times> string) list"
  lh_write :: "int \<Rightarrow> string \<Rightarrow> go_error option"

type_synonym log_line = "string \<times> (string \<times> string) list \<times> int \<times> string"

definition multi_Enabled :: "log_handler list \<Rightarrow> int \<Rightarrow> bool" where
  "multi_Enabled hs level \<longleftrightarrow> (\<exists>h \<in> set hs. lh_enabled h level)"

fun multi_Handle :: "log_handler list \<Rightarrow> int \<Rightarrow> string \<Rightarrow> (log_line list, go_error option) state" where
  "multi_Handle [] level msg = ret None"
| "multi_Handle (h # hs) level msg =
     (case lh_write h level msg of
        Some err \<Rightarrow> ret (Some err)
      | None \<Rightarrow> do {
          modify (\<lambda>lines. lines @ [(lh_name h, lh_attrs h, level, msg)]);
          multi_Handle hs level msg
        })"

definition multi_WithAttrs :: "(string \<times> string) list \<Rightarrow> log_handler list \<Rightarrow> log_handler list" where
  "multi_WithAttrs attrs hs = map (\<lambda>h. h\<lparr>lh_attrs := lh_attrs h @ attrs\<rparr>) hs"

definition InitWithWriter :: "log_handler \<Rightarrow> log_handler \<Rightarrow> string \<Rightarrow> string \<Rightarrow> log_handler list" where
  "InitWithWriter json_handler otel_handler serviceName env =
     multi_WithAttrs [(''service'', serviceName), (''env'', env)] [json_handler, otel_handler]"

definition logger_log :: "log_handler list \<Rightarrow> int \<Rightarrow> string \<Rightarrow> (log_line list, go_error option) state" where
  "logger_log hs level msg = (if multi_Enabled hs level then multi_Handle hs level msg else ret None)"

text \<open>When no handler fails each of them writes the record, whether or not it is enabled for its level:
  one handler that wants everything makes all of them write everything.\<close>

lemma multi_Handle_all:
  "\<forall>h \<in> set hs. lh_write h level msg = None \<Longrightarrow>
   run_state (multi_Handle hs level msg) lines = (None, lines @ map (\<lambda>h. (lh_name h, lh_attrs h, level, msg)) hs)"
  by (induction hs arbitrary: lines) (simp_all add: run_simps)

lemma log_level_of_one_is_of_all:
  assumes "lh_enabled otel_handler level"
    and "\<forall>h \<in> {json_handler, otel_handler}. lh_write h level msg = None"
  shows "run_state (logger_log (InitWithWriter json_handler otel_handler srv env) level msg) lines =
    (None, lines @ map (\<lambda>h. (lh_name h, lh_attrs h @ [(''service'', srv), (''env'', env)], level, msg))
      [json_handler, otel_handler])"
  using assms
  by (simp add: logger_log_def InitWithWriter_def multi_WithAttrs_def multi_Enabled_def run_simps)

end
