(* ===== verification/Clients.thy ===== *)
theory Clients
  imports Postgres
begin

text \<open>
  How the programs reach what they depend on: the constructors of \<open>backend/pkg/nats\<close>, \<open>pkg/minio\<close>,
  \<open>pkg/redis\<close> and \<open>pkg/postgres\<close>. The state is what is on the other side (the stream, the buckets)
  and how many clients are open; every call can fail, or take effect and be reported as failed.
\<close>

record stream_config =
  sc_Name :: string
  sc_Subjects :: "string list"
  sc_Storage :: string
  sc_Replicas :: int
  sc_MaxAge :: int                       \<comment> \<open>in microseconds\<close>
  sc_Discard :: string

record backends =
  bk_outcomes :: "outcome list"
  bk_stream :: "stream_config option"    \<comment> \<open>the stream \<open>constell\<close>\<close>
  bk_buckets :: "string list"
  bk_open :: int                         \<comment> \<open>clients that are open\<close>

definition call_outcome :: "(backends, outcome) state" where
  "call_outcome = State (\<lambda>s.
     case bk_outcomes s of [] \<Rightarrow> (Done, s) | o1 # os \<Rightarrow> (o1, s\<lparr>bk_outcomes := os\<rparr>))"

definition open_client :: "(backends, unit) state" where
  "open_client = modify (\<lambda>s. s\<lparr>bk_open := bk_open s + 1\<rparr>)"

definition close_client :: "(backends, unit) state" where
  "close_client = modify (\<lambda>s. s\<lparr>bk_open := bk_open s - 1\<rparr>)"

text \<open>A call that changes the other side: what it does unless it fails, and what it answers.\<close>

definition effect_call :: "(backends \<Rightarrow> backends option) \<Rightarrow> (backends, bool) state" where
  "effect_call f = do {
     o1 \<leftarrow> call_outcome;
     s \<leftarrow> State_Monad.get;
     (case f s of
        None \<Rightarrow> ret False
      | Some s' \<Rightarrow>
          if o1 = Done then do { State_Monad.set s'; ret True }
          else if o1 = Lost then do { State_Monad.set s'; ret False }
          else ret False)
   }"

section \<open>NATS\<close>

definition streamConfig :: stream_config where
  "streamConfig = \<lparr>sc_Name = ''constell'', sc_Subjects = [''constell.>''], sc_Storage = ''file'', sc_Replicas = 1,
     sc_MaxAge = 3600 * 1000000, sc_Discard = ''old''\<rparr>"

text \<open>JetStream adds a stream that is not there, or is there with the same configuration.\<close>

definition AddStream :: "stream_config \<Rightarrow> backends \<Rightarrow> backends option" where
  "AddStream cfg s =
     (case bk_stream s of
        None \<Rightarrow> Some (s\<lparr>bk_stream := Some cfg\<rparr>)
      | Some c \<Rightarrow> if c = cfg then Some s else None)"

definition UpdateStream :: "stream_config \<Rightarrow> backends \<Rightarrow> backends option" where
  "UpdateStream cfg s = (if bk_stream s = None then None else Some (s\<lparr>bk_stream := Some cfg\<rparr>))"

definition nats_New :: "(backends, go_error + unit) state" where
  "nats_New = do {
     o1 \<leftarrow> call_outcome;
     if o1 \<noteq> Done then ret (Inl (Wrap ''connect to nats'' (Errorf ''connect'')))
     else do {
       open_client;
       o2 \<leftarrow> call_outcome;
       if o2 \<noteq> Done then do { close_client; ret (Inl (Wrap ''get jetstream context'' (Errorf ''jetstream''))) }
       else do {
         o3 \<leftarrow> call_outcome;
         s \<leftarrow> State_Monad.get;
         if o3 \<noteq> Done \<or> bk_stream s = None
         then do {
           added \<leftarrow> effect_call (AddStream streamConfig);
           if added then ret (Inr ())
           else do { close_client; ret (Inl (Wrap ''add stream'' (Errorf ''constell''))) }
         }
         else do {
           updated \<leftarrow> effect_call (UpdateStream streamConfig);
           if updated then ret (Inr ())
           else do { close_client; ret (Inl (Wrap ''update stream'' (Errorf ''constell''))) }
         }
       }
     }
   }"

section \<open>MinIO, Redis, Postgres\<close>

definition MakeBucket :: "string \<Rightarrow> backends \<Rightarrow> backends option" where
  "MakeBucket b s = (if b \<in> set (bk_buckets s) then None else Some (s\<lparr>bk_buckets := bk_buckets s @ [b]\<rparr>))"

definition minio_New :: "string \<Rightarrow> (backends, go_error + string) state" where
  "minio_New bucket = do {
     o1 \<leftarrow> call_outcome;
     if o1 \<noteq> Done then ret (Inl (Wrap ''minio connect'' (Errorf ''connect'')))
     else do {
       o2 \<leftarrow> call_outcome;
       s \<leftarrow> State_Monad.get;
       if o2 \<noteq> Done then ret (Inl (Wrap ''check bucket'' (Errorf ''minio'')))
       else if bucket \<notin> set (bk_buckets s)
       then do {
         made \<leftarrow> effect_call (MakeBucket bucket);
         ret (if made then Inr bucket else Inl (Wrap ''create bucket'' (Errorf ''minio'')))
       }
       else ret (Inr bucket)
     }
   }"

definition redis_New :: "(backends, go_error + unit) state" where
  "redis_New = do {
     open_client;
     o1 \<leftarrow> call_outcome;
     if o1 \<noteq> Done then do { close_client; ret (Inl (Wrap ''ping redis'' RedisFault)) }
     else ret (Inr ())
   }"

definition pool_MaxConns :: "int \<Rightarrow> int" where
  "pool_MaxConns configured = (if configured = 0 then 10 else configured)"

text \<open>The pool, with the number of connections it may have.\<close>

definition postgres_New :: "int \<Rightarrow> (backends, go_error + int) state" where
  "postgres_New maxConns = do {
     o1 \<leftarrow> call_outcome;
     if o1 \<noteq> Done then ret (Inl (Wrap ''parse pgxpool config'' (Errorf ''dsn'')))
     else do {
       o2 \<leftarrow> call_outcome;
       if o2 \<noteq> Done then ret (Inl (Wrap ''create pgxpool'' (Errorf ''pool'')))
       else do {
         open_client;
         o3 \<leftarrow> call_outcome;
         if o3 \<noteq> Done then do { close_client; ret (Inl (Wrap ''ping postgres'' (Pg Fault))) }
         else ret (Inr (pool_MaxConns maxConns))
       }
     }
   }"

section \<open>No client is left open, and what was asked for is there\<close>

lemma call_outcome_run: "\<exists>o1 os. run_state call_outcome s = (o1, s\<lparr>bk_outcomes := os\<rparr>)"
  by (cases "bk_outcomes s") (auto simp: call_outcome_def intro: exI [of _ "bk_outcomes s"])

text \<open>A constructor that answers an error has closed what it opened; one that succeeds leaves one open.\<close>

definition opens :: "int \<Rightarrow> (backends, go_error + 'a) state \<Rightarrow> bool" where
  "opens n m \<longleftrightarrow> (\<forall>s. bk_open (snd (run_state m s)) = bk_open s + (if isl (fst (run_state m s)) then 0 else n))"

lemma call_outcome_open: "run_state call_outcome s = (x, s') \<Longrightarrow> bk_open s' = bk_open s \<and> bk_stream s' = bk_stream s \<and> bk_buckets s' = bk_buckets s"
  using call_outcome_run [of s] by auto

lemma effect_call_open:
  assumes "run_state (effect_call f) s = (x, s')" and "\<And>t t'. f t = Some t' \<Longrightarrow> bk_open t' = bk_open t"
  shows "bk_open s' = bk_open s"
proof -
  obtain o1 os where "run_state call_outcome s = (o1, s\<lparr>bk_outcomes := os\<rparr>)" using call_outcome_run by blast
  with assms(1) assms(2) [of "s\<lparr>bk_outcomes := os\<rparr>"] show ?thesis
    by (auto simp: effect_call_def run_simps split: option.splits if_splits)
qed

lemma effect_call_done:
  assumes "run_state (effect_call f) s = (True, s')"
  shows "\<exists>t. f t = Some s'"
proof -
  obtain o1 os where "run_state call_outcome s = (o1, s\<lparr>bk_outcomes := os\<rparr>)" using call_outcome_run by blast
  with assms show ?thesis by (auto simp: effect_call_def run_simps split: option.splits if_splits)
qed

lemma effects_open:
  "run_state (effect_call (AddStream c)) s = (x, s') \<Longrightarrow> bk_open s' = bk_open s"
  "run_state (effect_call (UpdateStream c)) s = (x, s') \<Longrightarrow> bk_open s' = bk_open s"
  "run_state (effect_call (MakeBucket b)) s = (x, s') \<Longrightarrow> bk_open s' = bk_open s"
  by (auto elim!: effect_call_open simp: AddStream_def UpdateStream_def MakeBucket_def split: option.splits if_splits)

lemma constructors_open:
  "opens 1 nats_New" "opens 0 (minio_New b)" "opens 1 redis_New" "opens 1 (postgres_New n)"
  unfolding opens_def nats_New_def minio_New_def redis_New_def postgres_New_def open_client_def close_client_def
  by (auto simp: run_simps split: prod.splits if_splits dest!: call_outcome_open effects_open)

lemma nats_New_stream:
  assumes "run_state nats_New s = (Inr (), s')"
  shows "bk_stream s' = Some streamConfig"
proof -
  have "bk_stream t' = Some streamConfig"
    if "AddStream streamConfig t = Some t' \<or> UpdateStream streamConfig t = Some t'" for t t'
    using that by (auto simp: AddStream_def UpdateStream_def split: option.splits if_splits)
  with assms show ?thesis
    by (auto simp: nats_New_def open_client_def close_client_def run_simps split: prod.splits if_splits
        dest!: effect_call_done)
qed

lemma minio_New_bucket:
  assumes "run_state (minio_New b) s = (Inr r, s')"
  shows "r = b \<and> b \<in> set (bk_buckets s')"
proof -
  have "b \<in> set (bk_buckets t')" if "MakeBucket b t = Some t'" for t t'
    using that by (auto simp: MakeBucket_def split: if_splits)
  with assms show ?thesis
    by (auto simp: minio_New_def run_simps split: prod.splits if_splits dest!: effect_call_done)
qed

end
