(* ===== verification/Spec2Isabelle.thy ===== *)
theory Spec2Isabelle
  imports Prelude GoStd GroupCache CacheFacts Postgres Pagination
    Permissions CommunityRepo CommunityCache CommunityService CommunityAuth CommunityCluster
    CommunityFacts CommunityLists UserRepo UserCache UserService UserFacts Redis NotifyStore NotifyService
    NotifyFacts Jwt AuthService AuthFacts GatewayFrames Gateway GatewayFacts Delivery MessagePath
    ObjectStore FileService FileFacts SearchService SearchFacts
    Http ApiCommunity ApiServices ApiRoutes Platform ApiFacts Config Registry Migrate
    Observability Clients
begin

text \<open>
  Constell is a chat platform: communities with channels, direct messages, files, search, read
  cursors and presence. The Go programs under \<open>backend/\<close> are six Connect-RPC services over one
  Postgres database (community, user, auth, file, search, notify), a REST gateway in front of them
  (\<open>api-gateway\<close>) and a WebSocket gateway (\<open>ws-gateway\<close>). The services publish events on NATS
  (\<open>message.created\<close>, \<open>dm.created\<close>, \<open>user.online\<close> ..), the notify service turns them into read
  cursors and pushes, and the WebSocket gateway delivers pushes as frames. Redis holds who is
  connected where, and the refresh tokens. Each instance of the community and user services has
  caches of its own, of the type in \<open>pkg/groupcache\<close>.

  \<^bold>\<open>How code becomes definitions.\<close> A handler is a function in the state monad over a record that
  extends \<open>infra\<close> (theory \<open>Postgres\<close>): the tables, the clock, the published messages, Redis, and what
  becomes of the calls still to come. A call of the database, Redis, NATS or the object store takes
  the next outcome: it is done, fails, is done but reported as failed, or, for rows, breaks off.
  Theorems without a word on outcomes hold for every list of outcomes. Errors are values
  (\<open>go_error\<close>, \<open>connect_error\<close>); a return in the middle is a branch (\<open>try_call\<close>, \<open>guard_that\<close>). A
  definition has the name of the Go function; a repository method is \<open>repo_X\<close>, the SQL text in it
  \<open>sql_X\<close>, a REST handler \<open>api_X\<close>. Goroutines that the code waits for run in an order that is a
  parameter (search); read loops of the WebSocket gateway are steps (\<open>gw_reaches\<close>); otherwise one
  request is served after the other, by any instance (\<open>CommunityCluster\<close>).

  \<^bold>\<open>Theories, in the order of the code.\<close>
  \<^item> \<open>Prelude\<close>, \<open>GoStd\<close>: the handler monad with its rules (\<open>run_simps\<close>, \<open>preserves_intros\<close>), and what is
    used of Go's library, of Connect's codes and of \<open>common.v1\<close>.
  \<^item> \<open>GroupCache\<close> and \<open>CacheFacts\<close> (\<open>pkg/groupcache\<close>): the LRU cache with its list and element store, the
    locale \<open>bounded_cache\<close> it interprets, and its refinement of a list in order of use.
  \<^item> \<open>Postgres\<close> (\<open>deploy/migrations\<close>): the tables with their keys, references and cascades, the
    integrity invariants, and statements with their outcomes. \<open>Redis\<close>, \<open>ObjectStore\<close>: the commands used.
  \<^item> \<open>Pagination\<close>: the locale \<open>keyset\<close> of paged queries; its pages, followed by their cursors, give
    every row once. \<open>CommunityLists\<close> and \<open>UserFacts\<close> interpret it on the services' queries.
  \<^item> \<open>Permissions\<close>, \<open>CommunityRepo\<close>, \<open>CommunityCache\<close>, \<open>CommunityService\<close>
    (\<open>services/community-service\<close>), with \<open>CommunityAuth\<close> (the permission model on the tables),
    \<open>CommunityCluster\<close> (many instances with stale caches) and \<open>CommunityFacts\<close>.
  \<^item> \<open>UserRepo\<close>, \<open>UserCache\<close>, \<open>UserService\<close>, \<open>UserFacts\<close> (\<open>services/user-service\<close>).
  \<^item> \<open>Jwt\<close>, \<open>AuthService\<close>, \<open>AuthFacts\<close> (\<open>pkg/jwt\<close>, \<open>pkg/middleware\<close>, \<open>services/auth-service\<close>).
  \<^item> \<open>NotifyStore\<close>, \<open>NotifyService\<close>, \<open>NotifyFacts\<close> (\<open>services/notify-service\<close>); the locale \<open>cursors\<close> has
    the laws of a read cursor, for channels and for conversations.
  \<^item> \<open>GatewayFrames\<close>, \<open>Gateway\<close>, \<open>GatewayFacts\<close> (\<open>services/ws-gateway\<close>, \<open>proto/gateway\<close>); the locale
    \<open>frames\<close> proves the round trip of frames for both directions.
  \<^item> \<open>FileService\<close>, \<open>FileFacts\<close>; \<open>SearchService\<close>, \<open>SearchFacts\<close> (the services of these names).
  \<^item> \<open>Http\<close>, \<open>ApiCommunity\<close>, \<open>ApiServices\<close>, \<open>ApiRoutes\<close> (\<open>services/api-gateway\<close>): requests, handlers and
    routes. The locale \<open>service_view\<close> says how a service's state sits in the state of the platform;
    it is interpreted for each service, so that a REST request runs the modelled handler.
  \<^item> \<open>Config\<close>, \<open>Registry\<close> (\<open>pkg/config\<close>, \<open>pkg/registry\<close>), \<open>Migrate\<close> (\<open>tools/migrate\<close>),
    \<open>Observability\<close> (\<open>pkg/health\<close>, \<open>pkg/metrics\<close>, \<open>pkg/logging\<close>) and \<open>Clients\<close> (the constructors of \<open>pkg/nats\<close>,
    \<open>pkg/minio\<close>, \<open>pkg/redis\<close> and \<open>pkg/postgres\<close>).

  \<^bold>\<open>What is proved.\<close>
  \<^item> The tables stay whole (\<open>Platform\<close>, \<open>ApiFacts\<close>): any sequence of REST requests with any failures
    keeps keys, references, sequence numbers, cursors, unique emails and the caches' owners right.
    The invariants of the single services are lemmas in their \<open>Facts\<close> theories.
  \<^item> Who may do what: changes of communities need an authority that is in the tables, in every
    reachable state of many instances and end to end from a REST request with its token; searches
    show only what the caller may see; files are deleted by their uploaders; frames go to the user
    they are for; calls to other services carry the token of their connection.
  \<^item> What a success means: one theorem per important handler on what changed and what the answer
    shows, and what does not change.
  \<^item> Messages end to end: from \<open>SendMessage\<close> over the event to read cursors (\<open>Delivery\<close>), and from the
    event over the pushes to the frames on each connection (\<open>MessagePath\<close>).
  \<^item> Refinement, round trips, ordering and bounds: the LRU cache, frames, uploads, histories that end
    and show every message once, numbers that pass through \<open>float64\<close>, query texts.
  \<^item> Errors: internal errors do not leave the gateway, every event is acknowledged once, interrupted
    migrations are resumed.
  \<^item> Where the code is wrong, the theorem states what it does: the owner is removed by another spelling
    of the identifier; pages of conversations repeat; refresh tokens open everything; the end of
    an old connection takes the new one; message frames come in copies; a failed upload stays
    ready; adding a member adds the caller; an offset is ignored.

  \<^bold>\<open>Integers, bounds and loops.\<close> Permissions and hashes are words of their width; database integers and
  instants are \<open>int\<close>, with the \<open>int32\<close> and \<open>int64\<close> conversions written out where the code has them;
  a \<open>float64\<close> is rounded explicitly. Strings are lists of bytes; runes are decoded where the code does.
  Loops are structural recursions or \<open>while\<close> with a termination proof; there is no fuel.

  \<^bold>\<open>Parameters.\<close> Code outside the repository is an argument: the reading of texts as UUIDs and numbers
  and full-text search by Postgres (\<open>pg_env\<close>, \<open>search_env\<close>), JWT, bcrypt and SHA-256 (\<open>jwt_env\<close>),
  protobuf and JSON encoders (\<open>gw_env\<close>), MinIO and images with the floating-point ratio
  (\<open>file_env\<close>), the effect of a migration script (\<open>migrate_env\<close>). What is assumed of one is a
  hypothesis of the theorem, such as \<open>pg_env_ok\<close>, and every theorem with a hypothesis is followed by a
  witness on a concrete environment.

  \<^bold>\<open>Not modelled.\<close> The generated protobuf and Connect code; the \<open>main\<close> functions beyond their look-ups of
  services and the WebSocket gateway's clients; tracing, durations and loggers in contexts, which
  only call libraries; the k8s registry, which is not in the default
  build; the interleaving of two requests between their statements, and with it the locks and
  \<open>singleflight\<close>; the front ends.
\<close>

end
